(* ===== verification/Dht_Prelude.thy ===== *)
theory Dht_Prelude
  imports Main "HOL-Library.Word" "HOL-Library.AList" "HOL-Library.Multiset"
    "HOL-Library.List_Lexorder" "HOL-Library.Product_Lexorder" "HOL-Library.Char_ord"
begin

text \<open>
  Shared vocabulary of the development: the machine integers of the Rust code, the pieces of
  Rust's standard library the code uses on vectors and hash maps, and the generic lemmas on
  them that the component theories share.

  Representation choices used everywhere:
  \<^item> \<open>u8\<close>, \<open>u16\<close>, \<open>u32\<close>, \<open>u64\<close> are words of that width; \<open>usize\<close> values (lengths,
    indices, capacities) are \<open>nat\<close>, with the checked arithmetic of a release build
    (the manifest sets \<open>overflow-checks = true\<close>) written out where a product or sum of
    configuration values is formed: \<open>None\<close> is the panic;
  \<^item> a \<open>String\<close> is the list of its UTF-8 bytes, so \<open>length\<close> is Rust's \<open>len()\<close>;
  \<^item> a \<open>HashMap\<close> is an association list with distinct keys; the order of the list stands
    for the unspecified iteration order, and the theorems speak of sets, counts and multisets;
  \<^item> a \<open>HashSet\<close> is a set; \<open>sort_by_key\<close> is the stable \<open>sort_key\<close>.
\<close>

unbundle bit_operations_syntax

type_synonym u8 = "8 word"
type_synonym u16 = "16 word"
type_synonym u32 = "32 word"
type_synonym u64 = "64 word"

named_theorems hashmap_simps "facts about association lists used as hash maps"

subsection \<open>Integer helpers of the standard library\<close>

definition saturating_add :: "u64 \<Rightarrow> u64 \<Rightarrow> u64" where
  "saturating_add a b = (if unat a + unat b < 2 ^ 64 then a + b else - 1)"

definition usize_limit :: nat where
  "usize_limit = 2 ^ 64"

definition checked_usize :: "nat \<Rightarrow> nat option" where
  "checked_usize n = (if n < usize_limit then Some n else None)"

definition saturating_usize :: "nat \<Rightarrow> nat" where
  "saturating_usize n = min n (usize_limit - 1)"

lemma unat_saturating_add:
  "unat (saturating_add a b) = min (unat a + unat b) (2 ^ 64 - 1)"
proof (cases "unat a + unat b < 2 ^ 64")
  case True
  then show ?thesis by (simp add: saturating_add_def unat_word_ariths)
next
  case False
  have "unat (- 1 :: u64) = 2 ^ 64 - 1" by (simp add: unsigned_minus_1_eq_mask mask_eq_exp_minus_1)
  with False show ?thesis by (simp add: saturating_add_def)
qed

lemma saturating_add_mono: "a \<le> b \<Longrightarrow> saturating_add a c \<le> saturating_add b c"
  by (simp add: word_le_nat_alt unat_saturating_add min_def)

lemma saturating_add_ge: "a \<le> saturating_add a b"
  unfolding word_le_nat_alt unat_saturating_add
  using unsigned_less[of a, where 'a = nat] by simp

subsection \<open>Vectors\<close>

fun position :: "('a \<Rightarrow> bool) \<Rightarrow> 'a list \<Rightarrow> nat option" where
  "position P [] = None"
| "position P (x # xs) = (if P x then Some 0 else map_option Suc (position P xs))"

definition remove_at :: "nat \<Rightarrow> 'a list \<Rightarrow> 'a list" where
  "remove_at n xs = take n xs @ drop (Suc n) xs"

fun min_by_key :: "('a \<Rightarrow> 'b::linorder) \<Rightarrow> 'a list \<Rightarrow> 'a option" where
  "min_by_key f [] = None"
| "min_by_key f (x # xs) =
     (case min_by_key f xs of
        None \<Rightarrow> Some x
      | Some y \<Rightarrow> if f x \<le> f y then Some x else Some y)"

fun retain_new :: "('a \<Rightarrow> 'b) \<Rightarrow> 'b set \<Rightarrow> 'a list \<Rightarrow> 'a list" where
  "retain_new f seen [] = []"
| "retain_new f seen (x # xs) =
     (if f x \<in> seen then retain_new f seen xs
      else x # retain_new f (insert (f x) seen) xs)"

lemma position_Some:
  "position P xs = Some n \<Longrightarrow> n < length xs \<and> P (xs ! n) \<and> (\<forall>m<n. \<not> P (xs ! m))"
proof (induction xs arbitrary: n)
  case (Cons x xs)
  show ?case
  proof (cases "P x")
    case False
    with Cons.prems obtain m where m: "position P xs = Some m" "n = Suc m" by auto
    from Cons.IH[OF m(1)] False m(2) show ?thesis
      by (auto simp: less_Suc_eq_0_disj)
  qed (use Cons.prems in auto)
qed simp

lemma position_None: "position P xs = None \<longleftrightarrow> (\<forall>x\<in>set xs. \<not> P x)"
  by (induction xs) auto

lemma remove_at_append:
  "n < length xs \<Longrightarrow> \<exists>ys zs. xs = ys @ xs ! n # zs \<and> remove_at n xs = ys @ zs"
  by (intro exI[of _ "take n xs"] exI[of _ "drop (Suc n) xs"])
    (simp add: remove_at_def id_take_nth_drop)

lemma position_split:
  assumes "position P xs = Some n"
  obtains ys x zs where "xs = ys @ x # zs" "remove_at n xs = ys @ zs" "P x"
    "\<forall>y\<in>set ys. \<not> P y"
proof -
  from position_Some[OF assms] have n: "n < length xs" "P (xs ! n)" "\<forall>m<n. \<not> P (xs ! m)"
    by auto
  show thesis
  proof (rule that[of "take n xs" "xs ! n" "drop (Suc n) xs"])
    show "xs = take n xs @ xs ! n # drop (Suc n) xs" using n(1) by (rule id_take_nth_drop)
    show "\<forall>y\<in>set (take n xs). \<not> P y" using n by (auto simp: in_set_conv_nth)
  qed (use n in \<open>simp_all add: remove_at_def\<close>)
qed

lemma min_by_key_None [simp]: "min_by_key f xs = None \<longleftrightarrow> xs = []"
  by (cases xs) (auto split: option.splits)

lemma min_by_key_Some:
  "min_by_key f xs = Some x \<Longrightarrow> x \<in> set xs \<and> (\<forall>y\<in>set xs. f x \<le> f y)"
proof (induction xs arbitrary: x)
  case (Cons a xs)
  show ?case
  proof (cases "min_by_key f xs")
    case None
    with Cons.prems show ?thesis by auto
  next
    case (Some y)
    with Cons.IH[of y] Cons.prems show ?thesis
      by (auto split: if_splits intro: order_trans)
  qed
qed simp

lemma min_by_key_unique:
  assumes "inj_on f (set xs)" "set xs = set ys"
  shows "min_by_key f xs = min_by_key f ys"
proof (cases "min_by_key f xs")
  case None
  with assms(2) show ?thesis by simp
next
  case (Some x)
  with assms(2) have "ys \<noteq> []" using min_by_key_Some[OF Some] by auto
  then obtain y where y: "min_by_key f ys = Some y" by (cases "min_by_key f ys") auto
  have "f x = f y"
    using min_by_key_Some[OF Some] min_by_key_Some[OF y] assms(2) by (intro antisym) auto
  with assms min_by_key_Some[OF Some] min_by_key_Some[OF y] have "x = y"
    by (auto dest: inj_onD)
  with Some y show ?thesis by simp
qed

lemma set_retain_new_subset: "set (retain_new f seen xs) \<subseteq> set xs"
proof (induction xs arbitrary: seen)
  case (Cons x xs)
  from Cons[of seen] Cons[of "insert (f x) seen"] show ?case by auto
qed simp

lemma retain_new_image:
  "f ` set (retain_new f seen xs) = f ` set xs - seen"
  by (induction xs arbitrary: seen) auto

lemma retain_new_distinct: "distinct (map f (retain_new f seen xs))"
proof (induction xs arbitrary: seen)
  case (Cons x xs)
  have "f x \<notin> f ` set (retain_new f (insert (f x) seen) xs)"
    by (simp add: retain_new_image)
  with Cons show ?case by simp
qed simp

lemma retain_new_sorted:
  "sorted (map g xs) \<Longrightarrow> sorted (map g (retain_new f seen xs))"
  by (induction xs arbitrary: seen) (auto dest: subsetD[OF set_retain_new_subset])

subsection \<open>Stable sorting and truncation\<close>

lemma sort_key_take_drop_le:
  assumes "x \<in> set (take n (sort_key f xs))" "y \<in> set (drop n (sort_key f xs))"
  shows "f x \<le> f y"
proof -
  have "sorted (map f (take n (sort_key f xs) @ drop n (sort_key f xs)))"
    by (simp only: append_take_drop_id sorted_sort_key)
  then have "\<forall>a\<in>f ` set (take n (sort_key f xs)). \<forall>b\<in>f ` set (drop n (sort_key f xs)). a \<le> b"
    unfolding map_append sorted_append set_map by blast
  with assms show ?thesis by blast
qed

lemma set_take_drop: "set (take n xs) \<union> set (drop n xs) = set xs"
  by (metis append_take_drop_id set_append)

lemma sort_key_take_nearest:
  assumes "x \<in> set (take n (sort_key f xs))" "y \<in> set xs" "y \<notin> set (take n (sort_key f xs))"
  shows "f x \<le> f y"
proof -
  have "y \<in> set (drop n (sort_key f xs))"
    using assms(2,3) set_take_drop[of n "sort_key f xs"] by auto
  with assms(1) show ?thesis by (rule sort_key_take_drop_le)
qed

lemma sorted_take_map: "sorted (map f xs) \<Longrightarrow> sorted (map f (take n xs))"
  by (simp add: sorted_wrt_take take_map[symmetric])

lemma sort_key_drop_rank:
  assumes "distinct (map f xs)" "x \<in> set (drop n (sort_key f xs))"
  shows "n \<le> length (filter (\<lambda>y. f y < f x) xs)"
proof -
  let ?s = "sort_key f xs"
  have dist: "distinct (map f ?s)"
    using assms(1) by (metis distinct_map distinct_sort set_sort)
  have lt: "f y < f x" if "y \<in> set (take n ?s)" for y
  proof -
    have "f y \<le> f x" using that assms(2) by (rule sort_key_take_drop_le)
    moreover have "f y \<noteq> f x"
    proof -
      have "distinct (map f (take n ?s) @ map f (drop n ?s))"
        using dist by (metis append_take_drop_id map_append)
      with that assms(2) show ?thesis by (auto simp: image_iff)
    qed
    ultimately show ?thesis by simp
  qed
  have "n \<le> length ?s" using assms(2) by (cases "n \<le> length ?s") auto
  then have "n = length (filter (\<lambda>y. f y < f x) (take n ?s))"
    using lt by simp
  also have "\<dots> \<le> length (filter (\<lambda>y. f y < f x) ?s)"
    by (metis append_take_drop_id filter_append le_add1 length_append)
  also have "\<dots> = length (filter (\<lambda>y. f y < f x) xs)"
    by (metis mset_filter mset_sort size_mset)
  finally show ?thesis .
qed

lemma distinct_concat_nth:
  assumes "\<And>i. i < length bs \<Longrightarrow> distinct (f (bs ! i))"
    and "\<And>i j. i < j \<Longrightarrow> j < length bs \<Longrightarrow> set (f (bs ! i)) \<inter> set (f (bs ! j)) = {}"
  shows "distinct (concat (map f bs))"
  using assms
proof (induction bs)
  case (Cons b bs)
  have "distinct (concat (map f bs))"
    by (rule Cons.IH) (use Cons.prems(1)[of "Suc _"] Cons.prems(2)[of "Suc _" "Suc _"] in auto)
  moreover have "set (f b) \<inter> set (concat (map f bs)) = {}"
    using Cons.prems(2)[of 0 "Suc _"] by (fastforce simp: in_set_conv_nth)
  ultimately show ?case using Cons.prems(1)[of 0] by simp
qed simp

subsection \<open>Association lists as hash maps\<close>

lemma map_of_update [hashmap_simps]: "map_of (AList.update k v m) = (map_of m)(k \<mapsto> v)"
  by (rule update_conv')

lemma map_of_delete [hashmap_simps]: "map_of (AList.delete k m) = (map_of m)(k := None)"
  by (rule delete_conv')

lemma distinct_keys_update [hashmap_simps, intro]:
  "distinct (map fst m) \<Longrightarrow> distinct (map fst (AList.update k v m))"
  by (rule distinct_update)

lemma distinct_keys_delete [hashmap_simps, intro]:
  "distinct (map fst m) \<Longrightarrow> distinct (map fst (AList.delete k m))"
  by (rule distinct_delete)

lemma set_update_distinct:
  "distinct (map fst m) \<Longrightarrow>
   set (AList.update k v m) = insert (k, v) {p \<in> set m. fst p \<noteq> k}"
  by (induction m) (auto simp: image_iff)

lemma set_delete: "set (AList.delete k m) = {p \<in> set m. fst p \<noteq> k}"
  by (auto simp: AList.delete_eq)

lemma map_of_mem: "distinct (map fst m) \<Longrightarrow> map_of m k = Some v \<longleftrightarrow> (k, v) \<in> set m"
  by (auto dest: map_of_SomeD)

lemma delete_absent: "k \<notin> fst ` set m \<Longrightarrow> AList.delete k m = m"
  by (induction m) (auto simp: AList.delete_eq)

lemma set_update_subset: "set (AList.update k v m) \<subseteq> insert (k, v) (set m)"
  by (induction m) auto

lemma update_as_map:
  "distinct (map fst m) \<Longrightarrow> map_of m k = Some w \<Longrightarrow>
   AList.update k v m = map (\<lambda>p. if fst p = k then (k, v) else p) m"
proof (induction m)
  case (Cons p m)
  show ?case
  proof (cases "fst p = k")
    case True
    with Cons.prems(1) have "fst q \<noteq> k" if "q \<in> set m" for q
      using that by (metis distinct.simps(2) image_eqI list.simps(9) list.set_map)
    then have "map (\<lambda>p. if fst p = k then (k, v) else p) m = m"
      by (intro map_idI) simp
    with True show ?thesis by (cases p) simp
  qed (use Cons in \<open>auto split: if_splits\<close>)
qed simp

lemma sum_update_present:
  assumes "distinct (map fst m)" "map_of m k = Some v"
  shows "(\<Sum>p\<leftarrow>AList.update k w m. f (snd p)) + f v = (\<Sum>p\<leftarrow>m. f (snd p)) + (f w :: nat)"
  using assms by (induction m) (auto split: if_splits)

lemma sum_update_absent:
  assumes "map_of m k = None"
  shows "(\<Sum>p\<leftarrow>AList.update k w m. f (snd p)) = (\<Sum>p\<leftarrow>m. f (snd p)) + (f w :: nat)"
  using assms by (induction m) (auto split: if_splits)

lemma sum_delete_present:
  assumes "distinct (map fst m)" "map_of m k = Some v"
  shows "(\<Sum>p\<leftarrow>AList.delete k m. f (snd p)) + f v = (\<Sum>p\<leftarrow>m. (f (snd p) :: nat))"
  using assms
proof (induction m)
  case (Cons p m)
  then show ?case
    by (cases "fst p = k") (auto simp: delete_absent split: if_splits)
qed simp

lemma length_delete_present:
  "distinct (map fst m) \<Longrightarrow> map_of m k = Some v \<Longrightarrow> Suc (length (AList.delete k m)) = length m"
  using sum_delete_present[of m k v "\<lambda>_. 1"] by (simp add: sum_list_triv)

lemma length_update_absent:
  "map_of m k = None \<Longrightarrow> length (AList.update k v m) = Suc (length m)"
  using sum_update_absent[of m k "\<lambda>_. 1" v] by (simp add: sum_list_triv)

lemma length_update_present:
  "distinct (map fst m) \<Longrightarrow> map_of m k = Some w \<Longrightarrow> length (AList.update k v m) = length m"
  using sum_update_present[of m k w "\<lambda>_. 1" v] by (simp add: sum_list_triv)

subsection \<open>Choosing the best few\<close>

text \<open>
  Three components keep the least elements of a pool under a rank: the address lists of a
  record, the answer to a closest-contacts query and the shortlist of a lookup. The interface
  is that the result is the sorted pool cut at a bound; the facts below are what callers use.
\<close>

locale ranked_selection =
  fixes pool :: "'s \<Rightarrow> 'a list"
    and bound :: "'s \<Rightarrow> nat"
    and rank :: "'s \<Rightarrow> 'a \<Rightarrow> 'b::linorder"
    and chosen :: "'s \<Rightarrow> 'a list"
  assumes chosen_eq: "chosen s = take (bound s) (sort_key (rank s) (pool s))"
begin

lemma chosen_sorted: "sorted (map (rank s) (chosen s))"
  by (simp add: chosen_eq sorted_take_map)

lemma chosen_length: "length (chosen s) = min (bound s) (length (pool s))"
  by (simp add: chosen_eq min.commute)

lemma chosen_subset: "set (chosen s) \<subseteq> set (pool s)"
  by (metis chosen_eq set_sort set_take_subset)

lemma chosen_distinct: "distinct (map g (pool s)) \<Longrightarrow> distinct (map g (chosen s))"
  unfolding chosen_eq take_map[symmetric]
  by (intro distinct_take) (metis distinct_map distinct_sort set_sort)

lemma chosen_nearest:
  "x \<in> set (chosen s) \<Longrightarrow> y \<in> set (pool s) \<Longrightarrow> y \<notin> set (chosen s) \<Longrightarrow> rank s x \<le> rank s y"
  unfolding chosen_eq by (rule sort_key_take_nearest)

lemma chosen_all: "length (pool s) \<le> bound s \<Longrightarrow> mset (chosen s) = mset (pool s)"
  by (simp add: chosen_eq)

end

subsection \<open>Invariants of step relations\<close>

locale inductive_invariant =
  fixes step :: "'s \<Rightarrow> 's \<Rightarrow> bool" and inv :: "'s \<Rightarrow> bool"
  assumes step_inv: "inv s \<Longrightarrow> step s s' \<Longrightarrow> inv s'"
begin

lemma steps_inv: "step\<^sup>*\<^sup>* s s' \<Longrightarrow> inv s \<Longrightarrow> inv s'"
  by (induction rule: rtranclp_induct) (auto intro: step_inv)

end

subsection \<open>Refinement of an abstract specification\<close>

text \<open>A run of a specification, one labelled step per operation; and the interface of a component
  that simulates one: each operation of the component is a step of the specification on its
  abstraction, as long as the component's invariant holds.\<close>

inductive spec_run :: "('op \<Rightarrow> 'a \<Rightarrow> 'a \<Rightarrow> bool) \<Rightarrow> 'op list \<Rightarrow> 'a \<Rightarrow> 'a \<Rightarrow> bool" for spec where
  run_nil: "spec_run spec [] a a"
| run_cons: "spec op a b \<Longrightarrow> spec_run spec ops b c \<Longrightarrow> spec_run spec (op # ops) a c"

inductive_simps spec_run_simps [simp]:
  "spec_run spec [] a b" "spec_run spec (op # ops) a c"

locale forward_simulation =
  fixes abs :: "'s \<Rightarrow> 'a"
    and inv :: "'s \<Rightarrow> bool"
    and step :: "'s \<Rightarrow> 'op \<Rightarrow> 's"
    and spec :: "'op \<Rightarrow> 'a \<Rightarrow> 'a \<Rightarrow> bool"
  assumes inv_step: "inv s \<Longrightarrow> inv (step s op)"
    and simulated: "inv s \<Longrightarrow> spec op (abs s) (abs (step s op))"
begin

lemma run_inv: "inv s \<Longrightarrow> inv (foldl step s ops)"
  by (induction ops arbitrary: s) (simp_all add: inv_step)

lemma run_simulated: "inv s \<Longrightarrow> spec_run spec ops (abs s) (abs (foldl step s ops))"
  by (induction ops arbitrary: s) (auto intro: inv_step simulated)

end

end
