(* ===== verification/Keyspace.thy ===== *)
theory Keyspace
  imports Dht_Prelude
begin

text \<open>
  The 256-bit Kademlia keyspace of \<^verbatim>\<open>src/key.rs\<close>. A \<open>Key\<close> and a \<open>Distance\<close> are
  newtypes around \<open>[u8; 32]\<close>: here lists of bytes, with \<open>length = 32\<close> as their
  well-formedness. \<open>Distance\<close> is compared by the lexicographic order of its byte array, which
  is the order of lists of List_Lexorder. The specification side is the value of the bytes read
  as a big-endian number, \<open>be_val\<close>: the order is the order of values, the distance is the
  exclusive or of values, and the bucket index is the position of the top bit of the value.
\<close>

type_synonym key = "u8 list"
type_synonym distance = "u8 list"
type_synonym peer_id = "u8 list"

definition wf_key :: "key \<Rightarrow> bool" where
  "wf_key k \<longleftrightarrow> length k = 32"

definition key_from_bytes :: "u8 list \<Rightarrow> key" where
  "key_from_bytes bytes = bytes"

definition key_as_bytes :: "key \<Rightarrow> u8 list" where
  "key_as_bytes k = k"

definition key_from_peer_id :: "peer_id \<Rightarrow> key" where
  "key_from_peer_id pid = pid"

definition distance :: "key \<Rightarrow> key \<Rightarrow> distance" where
  "distance a b = map (\<lambda>i. a ! i XOR b ! i) [0..<32]"

definition distance_zero :: distance where
  "distance_zero = replicate 32 0"

definition distance_cmp_less :: "distance \<Rightarrow> distance \<Rightarrow> bool" where
  "distance_cmp_less a b \<longleftrightarrow> a < b"

text \<open>\<open>u8::leading_zeros\<close>: eight less the number of bits needed to write the byte.\<close>

fun bit_len :: "nat \<Rightarrow> nat" where
  "bit_len n = (if n = 0 then 0 else Suc (bit_len (n div 2)))"

declare bit_len.simps [simp del]

definition leading_zeros :: "u8 \<Rightarrow> nat" where
  "leading_zeros b = 8 - bit_len (unat b)"

fun bucket_index_from :: "nat \<Rightarrow> u8 list \<Rightarrow> nat option" where
  "bucket_index_from i [] = None"
| "bucket_index_from i (byte # bytes) =
     (if byte \<noteq> 0
      then (let bit_in_byte = leading_zeros byte;
                leading_zero_bits = i * 8 + bit_in_byte
            in Some (255 - leading_zero_bits))
      else bucket_index_from (Suc i) bytes)"

definition bucket_index :: "distance \<Rightarrow> nat option" where
  "bucket_index d = bucket_index_from 0 d"

subsection \<open>Bytes as a big-endian number\<close>

fun be_val :: "u8 list \<Rightarrow> nat" where
  "be_val [] = 0"
| "be_val (b # bs) = unat b * 256 ^ length bs + be_val bs"

lemma unat_byte_less: "unat (b :: u8) < 256"
  using unsigned_less[of b, where 'a = nat] by simp

lemma be_val_bound: "be_val bs < 256 ^ length bs"
proof (induction bs)
  case (Cons b bs)
  have "unat b * 256 ^ length bs + be_val bs < (unat b + 1) * 256 ^ length bs"
    using Cons by simp
  also have "\<dots> \<le> 256 * 256 ^ length bs"
    using unat_byte_less[of b] by (intro mult_right_mono) auto
  finally show ?case by simp
qed simp

lemma be_val_less_iff: "length as = length bs \<Longrightarrow> be_val as < be_val bs \<longleftrightarrow> as < bs"
proof (induction as bs rule: list_induct2)
  case (Cons a as b bs)
  consider "unat a < unat b" | "unat a = unat b" | "unat b < unat a" by linarith
  then show ?case
  proof cases
    case 1
    then have "(unat a + 1) * 256 ^ length as \<le> unat b * 256 ^ length as"
      by (intro mult_right_mono) auto
    with be_val_bound[of as] Cons.hyps 1 show ?thesis
      by (simp add: word_less_nat_alt)
  next
    case 2
    then have "a = b" by (rule word_unat_eq_iff[THEN iffD2])
    with Cons show ?thesis by simp
  next
    case 3
    then have "(unat b + 1) * 256 ^ length as \<le> unat a * 256 ^ length as"
      by (intro mult_right_mono) auto
    with be_val_bound[of bs] Cons.hyps 3 show ?thesis
      by (auto simp: word_less_nat_alt)
  qed
qed simp

lemma be_val_inj: "length as = length bs \<Longrightarrow> be_val as = be_val bs \<Longrightarrow> as = bs"
  by (metis be_val_less_iff less_irrefl not_less_iff_gr_or_eq)

lemma xor_shift_add:
  fixes x y x' y' :: nat
  assumes "y < 2 ^ k" "y' < 2 ^ k"
  shows "(x * 2 ^ k + y) XOR (x' * 2 ^ k + y') = (x XOR x') * 2 ^ k + (y XOR y')"
proof -
  have split: "drop_bit k (a * 2 ^ k + b) = a" "take_bit k (a * 2 ^ k + b) = b"
    if "b < 2 ^ k" for a b :: nat
    using that by (simp_all add: drop_bit_eq_div take_bit_eq_mod)
  let ?l = "(x * 2 ^ k + y) XOR (x' * 2 ^ k + y')"
  have "?l = push_bit k (drop_bit k ?l) + take_bit k ?l" by (rule bits_ident[symmetric])
  also have "drop_bit k ?l = x XOR x'" by (simp add: drop_bit_xor split assms)
  also have "take_bit k ?l = y XOR y'" by (simp add: take_bit_xor split assms)
  finally show ?thesis by (simp add: push_bit_eq_mult)
qed

lemma distance_Cons_zip:
  "wf_key a \<Longrightarrow> wf_key b \<Longrightarrow> distance a b = map2 (XOR) a b"
  by (intro nth_equalityI) (simp_all add: distance_def wf_key_def)

lemma unat_xor_byte: "unat (a XOR b :: u8) = unat a XOR unat b"
  by (rule unsigned_xor_eq)

lemma be_val_map2_xor:
  "length as = length bs \<Longrightarrow> be_val (map2 (XOR) as bs) = be_val as XOR be_val bs"
proof (induction as bs rule: list_induct2)
  case (Cons a as b bs)
  have "(256::nat) ^ length as = 2 ^ (8 * length as)" by (simp add: power_mult)
  with Cons be_val_bound[of as] be_val_bound[of bs] show ?case
    by (simp add: unat_xor_byte xor_shift_add)
qed simp

lemma be_val_distance:
  "wf_key a \<Longrightarrow> wf_key b \<Longrightarrow> be_val (distance a b) = be_val a XOR be_val b"
  by (simp add: distance_Cons_zip be_val_map2_xor wf_key_def)

lemma length_distance [simp]: "length (distance a b) = 32"
  by (simp add: distance_def)

lemma wf_key_distance [simp]: "wf_key (distance a b)"
  by (simp add: wf_key_def)

lemma be_val_zero_iff: "be_val bs = 0 \<longleftrightarrow> (\<forall>b\<in>set bs. b = 0)"
  by (induction bs) (auto simp: unat_eq_0)

lemma xor_nat_zero_iff: "(m XOR n = (0::nat)) \<longleftrightarrow> m = n"
proof
  assume "m XOR n = 0"
  then have "(m XOR n) XOR n = n" by simp
  then show "m = n" by (simp add: xor.assoc)
qed simp

lemma xor_le_add: "(m XOR n :: nat) \<le> m + n"
proof (induction m arbitrary: n rule: less_induct)
  case (less m)
  show ?case
  proof (cases "m = 0")
    case False
    then have "m div 2 < m" by simp
    from less[OF this, of "n div 2"]
    have IH: "(m div 2) XOR (n div 2) \<le> m div 2 + n div 2" .
    have "(m XOR n) = of_bool (odd m \<noteq> odd n) + 2 * ((m div 2) XOR (n div 2))"
      by (rule xor_rec)
    with IH show ?thesis by (cases "odd m"; cases "odd n") (simp_all, presburger+)
  qed simp
qed

subsection \<open>The top bit\<close>

lemma bit_len_bounds:
  "0 < n \<Longrightarrow> 0 < bit_len n \<and> 2 ^ (bit_len n - 1) \<le> n \<and> n < 2 ^ bit_len n"
proof (induction n rule: bit_len.induct)
  case (1 n)
  show ?case
  proof (cases "n = 1")
    case True
    then show ?thesis by (simp add: bit_len.simps)
  next
    case False
    with 1 have IH: "0 < bit_len (n div 2)" "2 ^ (bit_len (n div 2) - 1) \<le> n div 2"
      "n div 2 < 2 ^ bit_len (n div 2)" by auto
    have eq: "bit_len n = Suc (bit_len (n div 2))" using 1(2) by (subst bit_len.simps) simp
    obtain m where m: "bit_len (n div 2) = Suc m" using IH(1) by (cases "bit_len (n div 2)") auto
    have "2 * (n div 2) \<le> n" "n < 2 * (n div 2) + 2" by simp_all
    with IH m eq show ?thesis by simp
  qed
qed

lemma power_two_less:
  assumes "2 ^ m \<le> (v::nat)" "v < 2 ^ n"
  shows "m < n"
proof -
  from assms have "(2::nat) ^ m < 2 ^ n" by (rule le_less_trans)
  then show ?thesis by simp
qed

lemma bit_len_le: "0 < n \<Longrightarrow> n < 2 ^ m \<Longrightarrow> bit_len n \<le> m"
  using bit_len_bounds[of n] power_two_less[of "bit_len n - 1" n m] by auto

lemma leading_zeros_bounds:
  assumes "b \<noteq> 0"
  shows "leading_zeros b \<le> 7" "2 ^ (7 - leading_zeros b) \<le> unat b"
    "unat b < 2 ^ (8 - leading_zeros b)"
proof -
  have pos: "0 < unat b" using assms by (simp add: unat_gt_0)
  from bit_len_bounds[OF pos] have B: "0 < bit_len (unat b)"
    "2 ^ (bit_len (unat b) - 1) \<le> unat b" "unat b < 2 ^ bit_len (unat b)" by auto
  have "bit_len (unat b) \<le> 8" using pos unat_byte_less[of b] by (intro bit_len_le) simp_all
  with B show "leading_zeros b \<le> 7" "2 ^ (7 - leading_zeros b) \<le> unat b"
    "unat b < 2 ^ (8 - leading_zeros b)"
    by (auto simp: leading_zeros_def)
qed

lemma bucket_index_from_top:
  assumes "length bs + i = 32" "bucket_index_from i bs = Some n"
  shows "2 ^ n \<le> be_val bs \<and> be_val bs < 2 ^ Suc n \<and> n < 256"
  using assms
proof (induction bs arbitrary: i)
  case (Cons b bs)
  show ?case
  proof (cases "b = 0")
    case True
    with Cons.IH[of "Suc i"] Cons.prems show ?thesis by simp
  next
    case False
    note lz = leading_zeros_bounds[OF False]
    define L where "L = length bs"
    have i: "i = 31 - L" "L \<le> 31" using Cons.prems(1) by (auto simp: L_def)
    have n: "n = 8 * L + (7 - leading_zeros b)"
      using Cons.prems(2) False lz(1) i by (auto simp: Let_def)
    have pw: "(2::nat) ^ (8 * L) = 256 ^ L" by (simp add: power_mult)
    have "2 ^ n = 2 ^ (7 - leading_zeros b) * (256::nat) ^ L"
      by (simp add: n power_add pw)
    also have "\<dots> \<le> unat b * 256 ^ L" using lz(2) by (intro mult_right_mono) auto
    finally have lo: "2 ^ n \<le> unat b * 256 ^ L" .
    have "unat b * 256 ^ L + be_val bs < (unat b + 1) * 256 ^ L"
      using be_val_bound[of bs] by (simp add: L_def)
    also have "\<dots> \<le> 2 ^ (8 - leading_zeros b) * 256 ^ L"
      using lz(3) by (intro mult_right_mono) auto
    also have "\<dots> = 2 ^ Suc n"
    proof -
      have "Suc n = (8 - leading_zeros b) + 8 * L" using lz(1) by (simp add: n)
      then show ?thesis by (simp only: power_add pw)
    qed
    finally show ?thesis using lo i lz(1) by (simp add: L_def n)
  qed
qed simp

lemma bucket_index_from_None: "bucket_index_from i bs = None \<longleftrightarrow> be_val bs = 0"
  by (induction i bs rule: bucket_index_from.induct) (auto simp: Let_def unat_eq_0)

lemma bucket_index_None_iff: "bucket_index d = None \<longleftrightarrow> be_val d = 0"
  by (simp add: bucket_index_def bucket_index_from_None)

lemma bucket_index_top:
  "wf_key d \<Longrightarrow> bucket_index d = Some n \<Longrightarrow> 2 ^ n \<le> be_val d \<and> be_val d < 2 ^ Suc n \<and> n < 256"
  unfolding bucket_index_def wf_key_def by (rule bucket_index_from_top[of _ 0]) simp_all

lemma power_two_sandwich:
  assumes "2 ^ m \<le> (v::nat)" "v < 2 ^ Suc m" "2 ^ n \<le> v" "v < 2 ^ Suc n"
  shows "m = n"
  using power_two_less[OF assms(1,4)] power_two_less[OF assms(3,2)] by simp

lemma bucket_index_Some_iff:
  assumes "wf_key d"
  shows "bucket_index d = Some n \<longleftrightarrow> 2 ^ n \<le> be_val d \<and> be_val d < 2 ^ Suc n"
proof
  assume v: "2 ^ n \<le> be_val d \<and> be_val d < 2 ^ Suc n"
  then have "be_val d \<noteq> 0" using zero_less_power[of "2::nat" n] by linarith
  then obtain m where m: "bucket_index d = Some m"
    using bucket_index_None_iff by (cases "bucket_index d") auto
  from bucket_index_top[OF assms m] v have "m = n" using power_two_sandwich by blast
  with m show "bucket_index d = Some n" by simp
qed (use bucket_index_top[OF assms] in blast)

lemma bucket_index_less: "wf_key d \<Longrightarrow> bucket_index d = Some n \<Longrightarrow> n < 256"
  using bucket_index_top by blast

lemma distance_commute: "distance a b = distance b a"
  by (simp add: distance_def xor.commute)

lemma distance_self: "distance a a = distance_zero"
  by (simp add: distance_def distance_zero_def map_replicate_const)

lemma distance_zero_iff:
  assumes "wf_key a" "wf_key b"
  shows "distance a b = distance_zero \<longleftrightarrow> a = b"
proof
  assume d: "distance a b = distance_zero"
  have "be_val a XOR be_val b = 0"
    using be_val_distance[OF assms] be_val_zero_iff[of distance_zero] d
    by (simp add: distance_zero_def)
  then have "be_val a = be_val b" by (simp add: xor_nat_zero_iff)
  with assms show "a = b" by (intro be_val_inj) (auto simp: wf_key_def)
qed (simp add: distance_self)

lemma bucket_index_distance_None:
  "wf_key a \<Longrightarrow> wf_key b \<Longrightarrow> bucket_index (distance a b) = None \<longleftrightarrow> a = b"
  using be_val_inj[of a b]
  by (auto simp: bucket_index_None_iff be_val_distance xor_nat_zero_iff wf_key_def)

lemma distance_involutive: "wf_key d \<Longrightarrow> distance a (distance a d) = d"
  by (intro nth_equalityI) (simp_all add: distance_def wf_key_def xor.assoc[symmetric])

lemma top_bit_iff:
  "2 ^ i \<le> v \<and> v < 2 ^ Suc i \<longleftrightarrow> v div 2 ^ Suc i = 0 \<and> bit (v::nat) i"
proof (cases "v < 2 ^ Suc i")
  case True
  have "bit v i \<longleftrightarrow> 2 ^ i \<le> v"
  proof (cases "2 ^ i \<le> v")
    case le: True
    then have "v div 2 ^ i = 1" using True by (intro div_nat_eqI) simp_all
    with le show ?thesis by (simp add: bit_iff_odd)
  qed (simp add: bit_iff_odd)
  with True show ?thesis by simp
next
  case False
  then have "v div 2 ^ Suc i \<noteq> 0" by (simp add: div_eq_0_iff)
  with False show ?thesis by blast
qed

subsection \<open>Properties\<close>

text \<open>C37. The XOR distance is a metric on the 256-bit keyspace: it is zero exactly between equal
  keys, it is symmetric and satisfies the triangle inequality as a number; and the byte-wise
  \<open>Ord\<close> of \<open>Distance\<close> is the order of the distances read as big-endian integers.\<close>

theorem distance_metric:
  assumes "wf_key a" "wf_key b" "wf_key c"
  shows "(distance a b = distance_zero \<longleftrightarrow> a = b)
    \<and> distance a b = distance b a
    \<and> be_val (distance a c) \<le> be_val (distance a b) + be_val (distance b c)
    \<and> (distance_cmp_less (distance a b) (distance a c)
         \<longleftrightarrow> be_val (distance a b) < be_val (distance a c))"
proof (intro conjI)
  have "be_val (distance a c) = be_val (distance a b) XOR be_val (distance b c)"
    using assms by (simp add: be_val_distance xor.assoc[symmetric]) (simp add: xor.assoc)
  then show "be_val (distance a c) \<le> be_val (distance a b) + be_val (distance b c)"
    by (simp add: xor_le_add)
qed (simp_all add: distance_zero_iff assms distance_commute distance_cmp_less_def be_val_less_iff)

theorem distance_metric_witness:
  "(distance (replicate 32 1) (replicate 32 2) = distance_zero \<longleftrightarrow> replicate 32 1 = replicate 32 (2::u8))
    \<and> be_val (distance (replicate 32 1) (replicate 32 4))
        \<le> be_val (distance (replicate 32 1) (replicate 32 2))
          + be_val (distance (replicate 32 2) (replicate 32 4))"
proof -
  have "wf_key (replicate 32 1)" "wf_key (replicate 32 2)" "wf_key (replicate 32 4)"
    by (simp_all add: wf_key_def)
  from distance_metric[OF this] show ?thesis by blast
qed

text \<open>C38. A key falls in bucket \<open>i\<close> of a node exactly when it agrees with the node's key on all
  bits above position \<open>i\<close> (a common prefix of \<open>255 - i\<close> bits) and differs in bit \<open>i\<close>; and
  only the node's own key has no bucket.\<close>

theorem bucket_index_shared_prefix:
  assumes "wf_key a" "wf_key b"
  shows "(bucket_index (distance a b) = Some i
           \<longleftrightarrow> be_val a div 2 ^ Suc i = be_val b div 2 ^ Suc i
               \<and> bit (be_val a) i \<noteq> bit (be_val b) i)
    \<and> (bucket_index (distance a b) = None \<longleftrightarrow> a = b)"
proof
  let ?x = "be_val a" and ?y = "be_val b"
  have "bucket_index (distance a b) = Some i
      \<longleftrightarrow> (?x XOR ?y) div 2 ^ Suc i = 0 \<and> bit (?x XOR ?y) i"
    using assms by (simp only: bucket_index_Some_iff wf_key_distance be_val_distance top_bit_iff)
  also have "(?x XOR ?y) div 2 ^ Suc i = (?x div 2 ^ Suc i) XOR (?y div 2 ^ Suc i)"
    by (simp only: drop_bit_eq_div[symmetric] drop_bit_xor)
  finally show "bucket_index (distance a b) = Some i
      \<longleftrightarrow> ?x div 2 ^ Suc i = ?y div 2 ^ Suc i \<and> bit ?x i \<noteq> bit ?y i"
    by (simp add: xor_nat_zero_iff bit_xor_iff)
qed (rule bucket_index_distance_None[OF assms])

theorem bucket_index_shared_prefix_witness:
  "bucket_index (distance (replicate 32 0) (64 # replicate 31 0)) = Some 254
    \<and> bit (be_val (replicate 32 0)) 254 \<noteq> bit (be_val (64 # replicate 31 0)) 254"
proof -
  have idx: "bucket_index (distance (replicate 32 0) (64 # replicate 31 0)) = Some 254"
    by code_simp
  have "wf_key (replicate 32 0)" "wf_key (64 # replicate 31 0)" by (simp_all add: wf_key_def)
  from bucket_index_shared_prefix[OF this, of 254] idx show ?thesis by blast
qed

end
