(* ===== verification/Hex_Codec.thy ===== *)
theory Hex_Codec
  imports Keyspace
begin

text \<open>
  The hexadecimal text forms: \<open>to_hex\<close> of \<^verbatim>\<open>src/key.rs\<close>, \<open>hex32\<close> of
  \<^verbatim>\<open>src/content.rs\<close>, \<open>to_hex64\<close>, \<open>hex64_to_bytes\<close> and
  \<open>normalize_mirror_coin_id\<close> of \<^verbatim>\<open>src/record.rs\<close> and \<open>parse_key\<close> of
  \<^verbatim>\<open>src/service.rs\<close>. The interface \<open>hex_codec\<close> is what callers rely on: 32 bytes
  survive the trip through text, texts have 64 characters, decoding yields 32 bytes. It is
  interpreted on each encoder of the crate; its predicate is also the documented contract of the
  peer-identity text form, which comes from another crate and is a parameter of the model.
\<close>

subsection \<open>Characters\<close>

text \<open>\<open>char::to_digit(16)\<close> and \<open>char::from_digit(_, 16)\<close> of the standard library.\<close>

definition to_digit16 :: "char \<Rightarrow> u32 option" where
  "to_digit16 c =
     (let n = (of_char c :: nat) in
      if 48 \<le> n \<and> n \<le> 57 then Some (of_nat (n - 48))
      else if 97 \<le> n \<and> n \<le> 102 then Some (of_nat (n - 87))
      else if 65 \<le> n \<and> n \<le> 70 then Some (of_nat (n - 55))
      else None)"

definition from_digit16 :: "u32 \<Rightarrow> char option" where
  "from_digit16 d =
     (if d < 10 then Some (char_of (48 + unat d))
      else if d < 16 then Some (char_of (87 + unat d))
      else None)"

definition ascii_lower :: "char \<Rightarrow> char" where
  "ascii_lower c =
     (let n = (of_char c :: nat) in if 65 \<le> n \<and> n \<le> 90 then char_of (n + 32) else c)"

definition to_ascii_lowercase :: "string \<Rightarrow> string" where
  "to_ascii_lowercase s = map ascii_lower s"

definition nibble_high :: "u8 \<Rightarrow> u32" where
  "nibble_high b = ucast (drop_bit 4 b)"

definition nibble_low :: "u8 \<Rightarrow> u32" where
  "nibble_low b = ucast (b AND 15)"

definition byte_of_nibbles :: "u32 \<Rightarrow> u32 \<Rightarrow> u8" where
  "byte_of_nibbles hi lo = ucast (push_bit 4 hi OR lo)"

subsection \<open>Encoders\<close>

fun to_hex :: "u8 list \<Rightarrow> string" where
  "to_hex [] = []"
| "to_hex (b # bytes) =
     the (from_digit16 (nibble_high b)) # the (from_digit16 (nibble_low b)) # to_hex bytes"

fun hex32 :: "u8 list \<Rightarrow> string" where
  "hex32 [] = []"
| "hex32 (x # xs) =
     the (from_digit16 (nibble_high x)) # the (from_digit16 (nibble_low x)) # hex32 xs"

text \<open>The formatting \<open>{b:02x}\<close>: lowercase hexadecimal, padded on the left to two digits.\<close>

fun lower_hex :: "nat \<Rightarrow> string" where
  "lower_hex n =
     (if n < 16 then [the (from_digit16 (of_nat n))]
      else lower_hex (n div 16) @ [the (from_digit16 (of_nat (n mod 16)))])"

declare lower_hex.simps [simp del]

definition format_02x :: "u8 \<Rightarrow> string" where
  "format_02x b = (let s = lower_hex (unat b) in replicate (2 - length s) (CHR ''0'') @ s)"

definition to_hex64 :: "u8 list \<Rightarrow> string" where
  "to_hex64 bytes = concat (map format_02x bytes)"

subsection \<open>Decoder\<close>

fun hex_chunks :: "string \<Rightarrow> u8 list option" where
  "hex_chunks [] = Some []"
| "hex_chunks [c] = None"
| "hex_chunks (c0 # c1 # cs) =
     (case to_digit16 c0 of None \<Rightarrow> None
      | Some hi \<Rightarrow>
         (case to_digit16 c1 of None \<Rightarrow> None
          | Some lo \<Rightarrow> map_option ((#) (byte_of_nibbles hi lo)) (hex_chunks cs)))"

definition hex64_to_bytes :: "string \<Rightarrow> u8 list option" where
  "hex64_to_bytes hex = (if length hex \<noteq> 64 then None else hex_chunks hex)"

definition parse_key :: "string \<Rightarrow> key option" where
  "parse_key hex = map_option key_from_bytes (hex64_to_bytes hex)"

definition normalize_mirror_coin_id :: "string option \<Rightarrow> string option" where
  "normalize_mirror_coin_id raw =
     (case map_option to_ascii_lowercase raw of
        None \<Rightarrow> None
      | Some s \<Rightarrow> if hex64_to_bytes s \<noteq> None then Some s else None)"

text \<open>The serde hook on that field sees any JSON value; \<open>as_str\<close> is the accessor of the JSON
  library that yields the text of a string value and nothing for any other value.\<close>

definition deserialize_mirror_coin_id :: "('json \<Rightarrow> string option) \<Rightarrow> 'json option \<Rightarrow> string option" where
  "deserialize_mirror_coin_id as_str raw = normalize_mirror_coin_id (Option.bind raw as_str)"

subsection \<open>The codec contract\<close>

locale hex_codec =
  fixes enc :: "u8 list \<Rightarrow> string"
    and dec :: "string \<Rightarrow> u8 list option"
  assumes enc_length: "length bs = 32 \<Longrightarrow> length (enc bs) = 64"
    and dec_enc: "length bs = 32 \<Longrightarrow> dec (enc bs) = Some bs"
    and dec_length: "dec s = Some bs \<Longrightarrow> length bs = 32"
begin

lemma enc_inject: "length as = 32 \<Longrightarrow> length bs = 32 \<Longrightarrow> enc as = enc bs \<longleftrightarrow> as = bs"
  by (metis dec_enc option.inject)

lemma recode: "dec s = Some bs \<Longrightarrow> dec (enc bs) = Some bs"
  using dec_enc dec_length by blast

lemma dec_wf_key: "dec s = Some bs \<Longrightarrow> wf_key bs"
  by (simp add: wf_key_def dec_length)

end

text \<open>A canonical text is one that survives decoding and encoding unchanged.\<close>

definition canonical_hex :: "string \<Rightarrow> bool" where
  "canonical_hex s \<longleftrightarrow> length s = 64 \<and> (\<forall>c\<in>set s. c \<in> set ''0123456789abcdef'')"

subsection \<open>Digits and bytes\<close>

lemma digits_table:
  "\<forall>n\<in>set [0..<16]. from_digit16 (of_nat n) = Some (''0123456789abcdef'' ! n)"
  "\<forall>n\<in>set [0..<16]. to_digit16 (''0123456789abcdef'' ! n) = Some (of_nat n)"
  by code_simp+

lemma from_digit16_of_nat:
  "n < 16 \<Longrightarrow> from_digit16 (of_nat n) = Some (''0123456789abcdef'' ! n)"
  using digits_table(1) by (simp del: upt_rec_numeral)

lemma to_digit16_nth:
  "n < 16 \<Longrightarrow> to_digit16 (''0123456789abcdef'' ! n) = Some (of_nat n)"
  using digits_table(2) by (simp del: upt_rec_numeral)

lemma unat_ucast_byte: "unat (ucast (b :: u8) :: u32) = unat b"
  using unat_byte_less[of b] by (simp add: unsigned_ucast_eq take_bit_nat_eq_self)

lemma nibble_high_eq: "nibble_high b = of_nat (unat b div 16)"
proof (rule word_unat_eq_iff[THEN iffD2])
  have "unat (drop_bit 4 b) = unat b div 16"
    using unat_byte_less[of b]
    by (simp add: unsigned_drop_bit_eq drop_bit_eq_div[where 'a = nat] take_bit_nat_eq_self)
  then show "unat (nibble_high b) = unat (of_nat (unat b div 16) :: u32)"
    using unat_byte_less[of b] by (simp add: nibble_high_def unat_ucast_byte unat_of_nat)
qed

lemma nibble_low_eq: "nibble_low b = of_nat (unat b mod 16)"
proof (rule word_unat_eq_iff[THEN iffD2])
  have "unat (b AND 15) = unat b mod 16"
    using take_bit_eq_mask[of 4 "unat b"] by (simp add: unsigned_and_eq take_bit_eq_mod mask_eq_exp_minus_1)
  then show "unat (nibble_low b) = unat (of_nat (unat b mod 16) :: u32)"
    by (simp add: nibble_low_def unat_ucast_byte unat_of_nat)
qed

lemma or_shift_add:
  fixes x y :: nat
  assumes "y < 2 ^ k"
  shows "(x * 2 ^ k) OR y = x * 2 ^ k + y"
proof -
  let ?l = "(x * 2 ^ k) OR y"
  have "?l = push_bit k (drop_bit k ?l) + take_bit k ?l" by (rule bits_ident[symmetric])
  also have "drop_bit k ?l = x"
  proof -
    have "drop_bit k (x * 2 ^ k) = x" "drop_bit k y = 0"
      using assms by (simp_all add: drop_bit_eq_div)
    then show ?thesis by (simp add: drop_bit_or)
  qed
  also have "take_bit k ?l = y"
  proof -
    have "take_bit k (x * 2 ^ k) = 0" "take_bit k y = y"
      using assms by (simp_all add: take_bit_eq_mod)
    then show ?thesis by (simp add: take_bit_or)
  qed
  finally show ?thesis by (simp add: push_bit_eq_mult)
qed

lemma unat_byte_of_nibbles:
  assumes "h < 16" "l < 16"
  shows "unat (byte_of_nibbles (of_nat h) (of_nat l)) = h * 16 + l"
proof -
  have "unat (push_bit 4 (of_nat h :: u32)) = h * 16"
    using assms
    by (simp add: unsigned_push_bit_eq unat_of_nat push_bit_eq_mult[where 'a = nat]
        take_bit_eq_mod[where 'a = nat])
  then have "unat (push_bit 4 (of_nat h :: u32) OR of_nat l) = h * 16 + l"
    using assms or_shift_add[of l 4 h] by (simp add: unsigned_or_eq unat_of_nat)
  then show ?thesis
    using assms by (simp add: byte_of_nibbles_def unsigned_ucast_eq take_bit_eq_mod)
qed

lemma byte_of_nibbles_split:
  "byte_of_nibbles (of_nat (unat b div 16)) (of_nat (unat b mod 16)) = b"
  by (rule word_unat_eq_iff[THEN iffD2])
    (use unat_byte_less[of b] in \<open>simp add: unat_byte_of_nibbles\<close>)

lemmas byte_hex_simps =
  nibble_high_eq nibble_low_eq from_digit16_of_nat to_digit16_nth byte_of_nibbles_split

lemma unat_byte_div16: "unat (b :: u8) div 16 < 16"
  using unat_byte_less[of b] by simp

definition hex_pair :: "u8 \<Rightarrow> string" where
  "hex_pair b = [''0123456789abcdef'' ! (unat b div 16), ''0123456789abcdef'' ! (unat b mod 16)]"

lemma to_hex_concat: "to_hex bs = concat (map hex_pair bs)"
  by (induction bs) (simp_all add: byte_hex_simps unat_byte_div16 hex_pair_def)

lemma hex32_eq_to_hex: "hex32 bs = to_hex bs"
  by (induction bs) simp_all

lemma lower_hex_one: "n < 16 \<Longrightarrow> lower_hex n = [''0123456789abcdef'' ! n]"
  by (simp add: lower_hex.simps[of n] from_digit16_of_nat)

lemma lower_hex_two:
  "16 \<le> n \<Longrightarrow> n < 256 \<Longrightarrow>
   lower_hex n = [''0123456789abcdef'' ! (n div 16), ''0123456789abcdef'' ! (n mod 16)]"
  by (simp add: lower_hex.simps[of n] lower_hex_one from_digit16_of_nat)

lemma format_02x_eq: "format_02x b = hex_pair b"
  using lower_hex_one[of "unat b"] lower_hex_two[of "unat b"] unat_byte_less[of b]
  by (cases "unat b < 16") (simp_all add: format_02x_def hex_pair_def)

lemma to_hex64_eq_to_hex: "to_hex64 bs = to_hex bs"
  by (induction bs) (simp_all add: to_hex64_def to_hex_concat format_02x_eq)

lemma length_to_hex: "length (to_hex bs) = 2 * length bs"
  by (induction bs) simp_all

lemma hex_chunks_to_hex: "hex_chunks (to_hex bs) = Some bs"
  by (induction bs) (simp_all add: byte_hex_simps unat_byte_div16)

lemma hex_chunks_length: "hex_chunks s = Some bs \<Longrightarrow> length s = 2 * length bs"
  by (induction s arbitrary: bs rule: hex_chunks.induct) (auto split: option.splits)

lemma hex64_to_hex: "length bs = 32 \<Longrightarrow> hex64_to_bytes (to_hex bs) = Some bs"
  by (simp add: hex64_to_bytes_def length_to_hex hex_chunks_to_hex)

lemma hex64_to_bytes_length: "hex64_to_bytes s = Some bs \<Longrightarrow> length bs = 32"
  by (auto simp: hex64_to_bytes_def dest: hex_chunks_length split: if_splits)

subsection \<open>The crate's encoders satisfy the contract\<close>

interpretation key_hex: hex_codec to_hex hex64_to_bytes
  by unfold_locales (simp_all add: length_to_hex hex64_to_hex hex64_to_bytes_length)

interpretation content_hex: hex_codec hex32 hex64_to_bytes
  by unfold_locales (simp_all add: hex32_eq_to_hex length_to_hex hex64_to_hex hex64_to_bytes_length)

interpretation record_hex: hex_codec to_hex64 hex64_to_bytes
  by unfold_locales (simp_all add: to_hex64_eq_to_hex length_to_hex hex64_to_hex hex64_to_bytes_length)

interpretation wire_key_hex: hex_codec to_hex parse_key
  by unfold_locales
    (simp_all add: length_to_hex parse_key_def key_from_bytes_def hex64_to_hex hex64_to_bytes_length
      option.map_ident)

subsection \<open>Decoding and letter case\<close>

lemma of_char_ascii_lower:
  "(of_char (ascii_lower c) :: nat) =
     (let n = of_char c in if 65 \<le> n \<and> n \<le> 90 then n + 32 else n)"
  by (simp add: ascii_lower_def Let_def)

lemma digit_char_table:
  "\<forall>k\<in>set [0..<16]. (of_char (''0123456789abcdef'' ! k) :: nat) = (if k < 10 then 48 + k else 87 + k)"
  by code_simp

lemma of_char_digit:
  "k < 16 \<Longrightarrow> (of_char (''0123456789abcdef'' ! k) :: nat) = (if k < 10 then 48 + k else 87 + k)"
  using digit_char_table by (simp del: upt_rec_numeral)

lemma digit_mem_iff:
  "c \<in> set ''0123456789abcdef'' \<longleftrightarrow>
   (let n = (of_char c :: nat) in 48 \<le> n \<and> n \<le> 57 \<or> 97 \<le> n \<and> n \<le> 102)"
proof
  assume "c \<in> set ''0123456789abcdef''"
  then obtain k where "k < length ''0123456789abcdef''" "c = ''0123456789abcdef'' ! k"
    unfolding in_set_conv_nth by blast
  then have "k < 16" "c = ''0123456789abcdef'' ! k" by simp_all
  then show "let n = (of_char c :: nat) in 48 \<le> n \<and> n \<le> 57 \<or> 97 \<le> n \<and> n \<le> 102"
    by (simp only: of_char_digit Let_def) auto
next
  define n where "n = (of_char c :: nat)"
  assume "let n = (of_char c :: nat) in 48 \<le> n \<and> n \<le> 57 \<or> 97 \<le> n \<and> n \<le> 102"
  then obtain k where k: "k < 16" "n = (if k < 10 then 48 + k else 87 + k)"
    unfolding Let_def n_def[symmetric]
    by (cases "n \<le> 57") (auto intro: that[of "n - 48"] that[of "n - 87"])
  then have "(of_char c :: nat) = of_char (''0123456789abcdef'' ! k)"
    by (simp only: of_char_digit n_def)
  then have "c = ''0123456789abcdef'' ! k" by (simp only: of_char_eq_iff)
  with k(1) show "c \<in> set ''0123456789abcdef''" using nth_mem[of k "''0123456789abcdef''"] by simp
qed

lemma to_digit16_Some:
  assumes "to_digit16 c = Some d"
  shows "unat d < 16 \<and> ascii_lower c = ''0123456789abcdef'' ! unat d"
proof -
  define n where "n = (of_char c :: nat)"
  obtain k where k: "k < 16" "d = of_nat k"
    "of_char (ascii_lower c) = (if k < 10 then 48 + k else 87 + k :: nat)"
  proof -
    consider "48 \<le> n \<and> n \<le> 57" | "97 \<le> n \<and> n \<le> 102" | "65 \<le> n \<and> n \<le> 70"
      using assms by (auto simp: to_digit16_def n_def Let_def split: if_splits)
    then show thesis
    proof cases
      case 1
      with assms show thesis
        by (intro that[of "n - 48"]) (auto simp: to_digit16_def of_char_ascii_lower n_def[symmetric] Let_def)
    next
      case 2
      with assms show thesis
        by (intro that[of "n - 87"]) (auto simp: to_digit16_def of_char_ascii_lower n_def[symmetric] Let_def)
    next
      case 3
      with assms show thesis
        by (intro that[of "n - 55"]) (auto simp: to_digit16_def of_char_ascii_lower n_def[symmetric] Let_def)
    qed
  qed
  have "unat d = k" using k by (simp add: unat_of_nat)
  moreover have "ascii_lower c = ''0123456789abcdef'' ! k"
    using k(3) of_char_digit[OF k(1)] by (metis of_char_eq_iff)
  ultimately show ?thesis using k(1) by simp
qed

lemma to_digit16_None: "to_digit16 c = None \<Longrightarrow> ascii_lower c \<notin> set ''0123456789abcdef''"
  unfolding digit_mem_iff of_char_ascii_lower
  by (auto simp: to_digit16_def Let_def split: if_splits)

lemma ascii_lower_idem: "ascii_lower (ascii_lower c) = ascii_lower c"
proof -
  have "(of_char (ascii_lower (ascii_lower c)) :: nat) = of_char (ascii_lower c)"
    by (simp only: of_char_ascii_lower Let_def) auto
  then show ?thesis by (simp only: of_char_eq_iff)
qed

lemma ascii_lower_digit: "c \<in> set ''0123456789abcdef'' \<Longrightarrow> ascii_lower c = c"
  unfolding digit_mem_iff by (auto simp: ascii_lower_def Let_def)

lemma lowercase_idem: "to_ascii_lowercase (to_ascii_lowercase s) = to_ascii_lowercase s"
  by (simp add: to_ascii_lowercase_def ascii_lower_idem)

lemma nth_digits_mem: "n < 16 \<Longrightarrow> ''0123456789abcdef'' ! n \<in> set ''0123456789abcdef''"
  by (rule nth_mem) simp

lemma hex_pair_byte_of_nibbles:
  assumes "unat hi < 16" "unat lo < 16"
  shows "hex_pair (byte_of_nibbles hi lo)
    = [''0123456789abcdef'' ! unat hi, ''0123456789abcdef'' ! unat lo]"
proof -
  have "unat (byte_of_nibbles hi lo) = unat hi * 16 + unat lo"
    using unat_byte_of_nibbles[OF assms] by simp
  with assms show ?thesis by (simp add: hex_pair_def)
qed

lemma to_hex_hex_chunks: "hex_chunks s = Some bs \<Longrightarrow> to_hex bs = to_ascii_lowercase s"
proof (induction s arbitrary: bs rule: hex_chunks.induct)
  case (3 c0 c1 cs)
  from 3(2) obtain hi lo rest where d: "to_digit16 c0 = Some hi" "to_digit16 c1 = Some lo"
    "hex_chunks cs = Some rest" "bs = byte_of_nibbles hi lo # rest"
    by (auto split: option.splits)
  with 3(1)[OF d(1) d(2) d(3)] show ?case
    by (simp only: to_hex_concat list.map concat.simps)
      (simp add: hex_pair_byte_of_nibbles to_digit16_Some to_ascii_lowercase_def)
qed (auto simp: to_ascii_lowercase_def)

lemma hex_chunks_None:
  "even (length s) \<Longrightarrow> hex_chunks s = None \<Longrightarrow>
   \<exists>c\<in>set s. ascii_lower c \<notin> set ''0123456789abcdef''"
proof (induction s rule: hex_chunks.induct)
  case (3 c0 c1 cs)
  show ?case
  proof (cases "to_digit16 c0 = None \<or> to_digit16 c1 = None")
    case True
    then show ?thesis using to_digit16_None[of c0] to_digit16_None[of c1]
      by (meson list.set_intros)
  next
    case False
    then obtain hi lo where d: "to_digit16 c0 = Some hi" "to_digit16 c1 = Some lo" by auto
    with 3(2,3) have "even (length cs)" "hex_chunks cs = None" by simp_all
    with 3(1)[OF d] show ?thesis by (meson list.set_intros(2))
  qed
qed simp_all

lemma hex_pair_digits: "c \<in> set (hex_pair b) \<Longrightarrow> c \<in> set ''0123456789abcdef''"
  using nth_digits_mem[OF unat_byte_div16[of b]] nth_digits_mem[of "unat b mod 16"]
  unfolding hex_pair_def by (metis empty_iff empty_set mod_less_divisor set_ConsD zero_less_numeral)

lemma canonical_to_hex: "length bs = 32 \<Longrightarrow> canonical_hex (to_hex bs)"
  unfolding canonical_hex_def
proof (intro conjI ballI)
  fix c assume "c \<in> set (to_hex bs)"
  then show "c \<in> set ''0123456789abcdef''"
    unfolding to_hex_concat set_concat set_map using hex_pair_digits by blast
qed (simp add: length_to_hex)

lemma hex64_to_bytes_iff:
  "(\<exists>bs. hex64_to_bytes s = Some bs) \<longleftrightarrow> canonical_hex (to_ascii_lowercase s)"
proof
  assume "\<exists>bs. hex64_to_bytes s = Some bs"
  then obtain bs where "hex64_to_bytes s = Some bs" by blast
  then show "canonical_hex (to_ascii_lowercase s)"
    using canonical_to_hex[of bs] to_hex_hex_chunks[of s bs]
    by (auto simp: hex64_to_bytes_length hex64_to_bytes_def split: if_splits)
next
  assume c: "canonical_hex (to_ascii_lowercase s)"
  then have "length s = 64" by (simp add: canonical_hex_def to_ascii_lowercase_def)
  moreover have "hex_chunks s \<noteq> None"
  proof
    assume "hex_chunks s = None"
    with hex_chunks_None[of s] \<open>length s = 64\<close>
    obtain x where "x \<in> set s" "ascii_lower x \<notin> set ''0123456789abcdef''" by auto
    with c show False unfolding canonical_hex_def to_ascii_lowercase_def set_map by blast
  qed
  ultimately show "\<exists>bs. hex64_to_bytes s = Some bs" by (auto simp: hex64_to_bytes_def)
qed

lemma canonical_lowercase: "canonical_hex s \<Longrightarrow> to_ascii_lowercase s = s"
  unfolding canonical_hex_def to_ascii_lowercase_def by (blast intro: map_idI ascii_lower_digit)

definition canonical_coin :: "string option \<Rightarrow> bool" where
  "canonical_coin coin \<longleftrightarrow> (case coin of None \<Rightarrow> True | Some c \<Rightarrow> canonical_hex c)"

lemma normalize_canonical: "canonical_coin (normalize_mirror_coin_id raw)"
  using hex64_to_bytes_iff
  by (auto simp: canonical_coin_def normalize_mirror_coin_id_def lowercase_idem split: option.split)

lemma normalize_canonical_id: "canonical_coin coin \<Longrightarrow> normalize_mirror_coin_id coin = coin"
  using hex64_to_bytes_iff canonical_lowercase
  by (fastforce simp: canonical_coin_def normalize_mirror_coin_id_def split: option.splits)

subsection \<open>Properties\<close>

text \<open>C35. The crate's single decoder inverts both of its encoders on every 32-byte value, the
  text is canonical lowercase 64-hex, and the formatted encoder of the record module agrees with
  the digit-table encoder of the key module.\<close>

theorem hex_encode_decode:
  assumes "length bs = 32"
  shows "hex64_to_bytes (to_hex bs) = Some bs \<and> hex64_to_bytes (to_hex64 bs) = Some bs
    \<and> canonical_hex (to_hex bs) \<and> to_hex64 bs = to_hex bs"
  using assms by (simp add: hex64_to_hex to_hex64_eq_to_hex canonical_to_hex)

theorem hex_encode_decode_witness:
  "hex64_to_bytes (to_hex (replicate 32 0xAB)) = Some (replicate 32 0xAB)"
  using hex_encode_decode[of "replicate 32 0xAB"] by (simp del: to_hex.simps)

text \<open>The decoder accepts exactly the texts whose ASCII-lowercased form is canonical 64-hex,
  and re-encoding what it read gives that lowercased form: a text in upper case is accepted but
  does not survive re-encoding unchanged.\<close>

theorem hex_decode_characterised:
  "(hex64_to_bytes s \<noteq> None \<longleftrightarrow> canonical_hex (to_ascii_lowercase s))
   \<and> (case hex64_to_bytes s of None \<Rightarrow> True
      | Some bs \<Rightarrow> length bs = 32 \<and> to_hex bs = to_ascii_lowercase s)"
proof (intro conjI)
  show "hex64_to_bytes s \<noteq> None \<longleftrightarrow> canonical_hex (to_ascii_lowercase s)"
    using hex64_to_bytes_iff[of s] by auto
  show "case hex64_to_bytes s of None \<Rightarrow> True
      | Some bs \<Rightarrow> length bs = 32 \<and> to_hex bs = to_ascii_lowercase s"
    using to_hex_hex_chunks[of s] hex64_to_bytes_length[of s]
    by (auto simp: hex64_to_bytes_def split: option.splits if_splits)
qed

text \<open>Normalising a mirror-coin pointer yields the lowercased text when that is canonical
  64-hex and drops the field otherwise, never rejecting the record; so an admitted pointer is
  canonical and bounded at 64 bytes, and normalising twice changes nothing.\<close>

theorem normalize_mirror_coin_id_canonical:
  "normalize_mirror_coin_id raw =
     (case raw of None \<Rightarrow> None
      | Some r \<Rightarrow> if canonical_hex (to_ascii_lowercase r) then Some (to_ascii_lowercase r) else None)
   \<and> normalize_mirror_coin_id (normalize_mirror_coin_id raw) = normalize_mirror_coin_id raw"
proof -
  have eq: "normalize_mirror_coin_id raw =
     (case raw of None \<Rightarrow> None
      | Some r \<Rightarrow> if canonical_hex (to_ascii_lowercase r) then Some (to_ascii_lowercase r) else None)"
    for raw
    using hex64_to_bytes_iff
    by (cases raw) (auto simp: normalize_mirror_coin_id_def lowercase_idem)
  show ?thesis by (simp add: eq lowercase_idem split: option.split)
qed

subsection \<open>Debug text\<close>

definition key_debug :: "key \<Rightarrow> string" where
  "key_debug k = ''Key('' @ to_hex k @ '')''"

definition distance_debug :: "distance \<Rightarrow> string" where
  "distance_debug d = ''Distance('' @ to_hex d @ '')''"

text \<open>The debug text of a key or a distance names it, and never confuses the two types.\<close>

lemma debug_text_identifies:
  assumes "length a = 32" "length b = 32"
  shows "key_debug a = key_debug b \<longleftrightarrow> a = b" "distance_debug a = distance_debug b \<longleftrightarrow> a = b"
    "key_debug a \<noteq> distance_debug b"
  using key_hex.enc_inject[OF assms] by (simp_all add: key_debug_def distance_debug_def)

end
