(* ===== verification/Ip_Literal.thy ===== *)
theory Ip_Literal
  imports Dht_Prelude
begin

text \<open>
  The part of Rust's \<^verbatim>\<open>std::net\<close> that \<^verbatim>\<open>src/record.rs\<close> uses on a candidate's host
  text: \<open>str::parse::<IpAddr>()\<close>, \<open>Ipv6Addr::to_ipv4_mapped\<close> and the \<open>Display\<close> of an
  address. The parser follows the library's recursive-descent parser: each reader either consumes
  a prefix of the text or fails and consumes nothing.
\<close>

datatype ip_addr = IpV4 "u8 list" | IpV6 "u16 list"

type_synonym 'a reader = "string \<Rightarrow> ('a \<times> string) option"

definition digit_value :: "nat \<Rightarrow> char \<Rightarrow> nat option" where
  "digit_value radix c =
     (let n = (of_char c :: nat);
          d = (if 48 \<le> n \<and> n \<le> 57 then n - 48
               else if 97 \<le> n \<and> n \<le> 122 then n - 87
               else if 65 \<le> n \<and> n \<le> 90 then n - 55 else radix)
      in if d < radix then Some d else None)"

fun read_digits :: "nat \<Rightarrow> string \<Rightarrow> nat list \<times> string" where
  "read_digits radix [] = ([], [])"
| "read_digits radix (c # cs) =
     (case digit_value radix c of
        None \<Rightarrow> ([], c # cs)
      | Some d \<Rightarrow> (let (ds, rest) = read_digits radix cs in (d # ds, rest)))"

definition digits_value :: "nat \<Rightarrow> nat list \<Rightarrow> nat" where
  "digits_value radix ds = foldl (\<lambda>acc d. acc * radix + d) 0 ds"

definition read_number :: "nat \<Rightarrow> nat \<Rightarrow> bool \<Rightarrow> nat \<Rightarrow> nat reader" where
  "read_number radix max_digits allow_zero_prefix limit s =
     (let has_leading_zero = (case s of c # _ \<Rightarrow> c = CHR ''0'' | [] \<Rightarrow> False);
          (ds, rest) = read_digits radix s;
          digit_count = length ds;
          result = digits_value radix ds
      in if digit_count > max_digits then None
         else if digit_count = 0 then None
         else if \<not> allow_zero_prefix \<and> has_leading_zero \<and> digit_count > 1 then None
         else if result < limit then Some (result, rest) else None)"

definition read_given_char :: "char \<Rightarrow> string \<Rightarrow> string option" where
  "read_given_char c s = (case s of x # xs \<Rightarrow> if x = c then Some xs else None | [] \<Rightarrow> None)"

definition read_separator :: "char \<Rightarrow> nat \<Rightarrow> 'a reader \<Rightarrow> 'a reader" where
  "read_separator sep index inner s =
     (if 0 < index then (case read_given_char sep s of None \<Rightarrow> None | Some s' \<Rightarrow> inner s')
      else inner s)"

fun read_octets :: "nat \<Rightarrow> nat \<Rightarrow> u8 list reader" where
  "read_octets i 0 s = Some ([], s)"
| "read_octets i (Suc n) s =
     (case read_separator (CHR ''.'') i (read_number 10 3 False 256) s of
        None \<Rightarrow> None
      | Some (g, s') \<Rightarrow>
          (case read_octets (Suc i) n s' of
             None \<Rightarrow> None
           | Some (gs, s'') \<Rightarrow> Some (of_nat g # gs, s'')))"

definition read_ipv4_addr :: "u8 list reader" where
  "read_ipv4_addr s = read_octets 0 4 s"

definition u16_from_be_bytes :: "u8 \<Rightarrow> u8 \<Rightarrow> u16" where
  "u16_from_be_bytes hi lo = of_nat (unat hi * 256 + unat lo)"

text \<open>\<open>read_groups limit n s\<close> fills the slots \<open>limit - n, \<dots>, limit - 1\<close>; it returns the
  groups read, whether a trailing dotted IPv4 address supplied the last two, and the rest.\<close>

fun read_groups :: "nat \<Rightarrow> nat \<Rightarrow> string \<Rightarrow> u16 list \<times> bool \<times> string" where
  "read_groups limit 0 s = ([], False, s)"
| "read_groups limit (Suc n) s =
     (let i = limit - Suc n in
      case (if i < limit - 1 then read_separator (CHR '':'') i read_ipv4_addr s else None) of
        Some (octets, s') \<Rightarrow>
          ([u16_from_be_bytes (octets ! 0) (octets ! 1), u16_from_be_bytes (octets ! 2) (octets ! 3)],
           True, s')
      | None \<Rightarrow>
          (case read_separator (CHR '':'') i (read_number 16 4 True 65536) s of
             None \<Rightarrow> ([], False, s)
           | Some (g, s') \<Rightarrow>
               (let (gs, ipv4, s'') = read_groups limit n s' in (of_nat g # gs, ipv4, s''))))"

definition read_ipv6_addr :: "u16 list reader" where
  "read_ipv6_addr s =
     (let (head, head_ipv4, s1) = read_groups 8 8 s in
      if length head = 8 then Some (head, s1)
      else if head_ipv4 then None
      else (case read_given_char (CHR '':'') s1 of None \<Rightarrow> None
            | Some s2 \<Rightarrow>
                (case read_given_char (CHR '':'') s2 of None \<Rightarrow> None
                 | Some s3 \<Rightarrow>
                     (let limit = 8 - (length head + 1);
                          (tail, _, s4) = read_groups limit limit s3
                      in Some (head @ replicate (8 - length head - length tail) 0 @ tail, s4)))))"

definition parse_ip_addr :: "string \<Rightarrow> ip_addr option" where
  "parse_ip_addr s =
     (case read_ipv4_addr s of
        Some (octets, rest) \<Rightarrow> if rest = [] then Some (IpV4 octets) else None
      | None \<Rightarrow>
          (case read_ipv6_addr s of
             Some (segments, rest) \<Rightarrow> if rest = [] then Some (IpV6 segments) else None
           | None \<Rightarrow> None))"

definition to_ipv4_mapped :: "u16 list \<Rightarrow> u8 list option" where
  "to_ipv4_mapped segments =
     (if take 6 segments = [0, 0, 0, 0, 0, 0xffff]
      then Some [ucast (drop_bit 8 (segments ! 6)), ucast (segments ! 6),
                 ucast (drop_bit 8 (segments ! 7)), ucast (segments ! 7)]
      else None)"

subsection \<open>Display\<close>

definition digit_char :: "nat \<Rightarrow> char" where
  "digit_char d = (if d < 10 then char_of (48 + d) else char_of (87 + d))"

fun nat_to_string :: "nat \<Rightarrow> nat \<Rightarrow> string" where
  "nat_to_string radix n =
     (if n < radix \<or> radix < 2 then [digit_char n]
      else nat_to_string radix (n div radix) @ [digit_char (n mod radix)])"

declare nat_to_string.simps [simp del]

fun join_with :: "string \<Rightarrow> string list \<Rightarrow> string" where
  "join_with sep [] = []"
| "join_with sep [x] = x"
| "join_with sep (x # y # ys) = x @ sep @ join_with sep (y # ys)"

definition display_ipv4 :: "u8 list \<Rightarrow> string" where
  "display_ipv4 octets = join_with ''.'' (map (\<lambda>b. nat_to_string 10 (unat b)) octets)"

definition fmt_subslice :: "u16 list \<Rightarrow> string" where
  "fmt_subslice chunk = join_with '':'' (map (\<lambda>g. nat_to_string 16 (unat g)) chunk)"

text \<open>The longest run of zero segments, as (start, length), the first one on ties.\<close>

fun longest_zeroes :: "nat \<Rightarrow> nat \<times> nat \<Rightarrow> nat \<times> nat \<Rightarrow> u16 list \<Rightarrow> nat \<times> nat" where
  "longest_zeroes i longest current [] = longest"
| "longest_zeroes i longest current (seg # segs) =
     (if seg = 0
      then (let current' = (if snd current = 0 then i else fst current, Suc (snd current));
                longest' = (if snd current' > snd longest then current' else longest)
            in longest_zeroes (Suc i) longest' current' segs)
      else longest_zeroes (Suc i) longest (0, 0) segs)"

definition display_ipv6 :: "u16 list \<Rightarrow> string" where
  "display_ipv6 segments =
     (case to_ipv4_mapped segments of
        Some ipv4 \<Rightarrow> ''::ffff:'' @ display_ipv4 ipv4
      | None \<Rightarrow>
          (let (start, len) = longest_zeroes 0 (0, 0) (0, 0) segments in
           if len > 1 then fmt_subslice (take start segments) @ ''::''
                             @ fmt_subslice (drop (start + len) segments)
           else fmt_subslice segments))"

fun display_ip :: "ip_addr \<Rightarrow> string" where
  "display_ip (IpV4 octets) = display_ipv4 octets"
| "display_ip (IpV6 segments) = display_ipv6 segments"

subsection \<open>Shapes of parsed addresses\<close>

fun wf_ip :: "ip_addr \<Rightarrow> bool" where
  "wf_ip (IpV4 octets) \<longleftrightarrow> length octets = 4"
| "wf_ip (IpV6 segments) \<longleftrightarrow> length segments = 8"

lemma read_octets_length: "read_octets i n s = Some (gs, rest) \<Longrightarrow> length gs = n"
  by (induction i n s arbitrary: gs rest rule: read_octets.induct)
    (auto split: option.splits prod.splits)

lemma read_groups_length:
  "read_groups limit n s = (gs, f, rest) \<Longrightarrow> n \<le> limit \<Longrightarrow> length gs \<le> n"
proof (induction limit n s arbitrary: gs f rest rule: read_groups.induct)
  case (2 limit n s)
  then show ?case
    by (fastforce simp: Let_def split: option.splits prod.splits if_splits)
qed simp

lemma read_groups_all_length: "read_groups n n s = (gs, f, rest) \<Longrightarrow> length gs \<le> n"
  using read_groups_length by blast

lemma read_ipv6_length: "read_ipv6_addr s = Some (segs, rest) \<Longrightarrow> length segs = 8"
  by (auto simp: read_ipv6_addr_def Let_def dest!: read_groups_all_length
      split: prod.splits if_splits option.splits)

lemma parse_ip_wf: "parse_ip_addr s = Some ip \<Longrightarrow> wf_ip ip"
  by (auto simp: parse_ip_addr_def read_ipv4_addr_def
      dest: read_octets_length read_ipv6_length split: option.splits if_splits prod.splits)

text \<open>A text that starts with neither a hexadecimal digit nor a colon is no address literal.\<close>

lemma read_number_no_digit:
  "digit_value radix c = None \<Longrightarrow> read_number radix m z l (c # cs) = None"
  by (simp add: read_number_def)

lemma digit_value_16_10: "digit_value 16 c = None \<Longrightarrow> digit_value 10 c = None"
  by (auto simp: digit_value_def Let_def split: if_splits)

lemma parse_ip_addr_no_digit:
  assumes "digit_value 16 c = None" "c \<noteq> CHR '':''"
  shows "parse_ip_addr (c # cs) = None"
proof -
  note none = read_number_no_digit[OF assms(1)] read_number_no_digit[OF digit_value_16_10[OF assms(1)]]
  have v4: "read_ipv4_addr (c # cs) = None"
    using read_octets.simps(2)[of 0 3 "c # cs"] by (simp add: read_ipv4_addr_def read_separator_def none)
  have "read_groups 8 8 (c # cs) = ([], False, c # cs)"
    using read_groups.simps(2)[of 8 7 "c # cs"] by (simp add: read_separator_def none v4 Let_def)
  then have "read_ipv6_addr (c # cs) = None"
    using assms(2) by (simp add: read_ipv6_addr_def read_given_char_def)
  with v4 show ?thesis by (simp add: parse_ip_addr_def)
qed

subsection \<open>The displayed text of an address is a literal\<close>

text \<open>Whatever the segments, the text \<open>Display\<close> writes for an IPv6 address parses, and for one
  that is not IPv4-mapped it has a colon, which no IPv4 text has.\<close>

lemma read_digits_all:
  assumes "\<forall>c\<in>set t. digit_value radix c \<noteq> None" "\<forall>c cs. r = c # cs \<longrightarrow> digit_value radix c = None"
  obtains ds where "read_digits radix (t @ r) = (ds, r)" "length ds = length t"
proof -
  have "\<exists>ds. read_digits radix (t @ r) = (ds, r) \<and> length ds = length t"
    using assms(1)
  proof (induction t)
    case Nil
    then show ?case using assms(2) by (cases r) simp_all
  qed (auto split: option.split)
  then show thesis using that by blast
qed

lemma read_digits_bound: "read_digits radix s = (ds, r) \<Longrightarrow> \<forall>d\<in>set ds. d < radix"
proof (induction radix s arbitrary: ds r rule: read_digits.induct)
  case (2 radix c cs)
  show ?case
  proof (cases "digit_value radix c")
    case (Some d)
    obtain es rest where es: "read_digits radix cs = (es, rest)" by fastforce
    have "d < radix" using Some by (auto simp: digit_value_def Let_def simp del: of_char_of split: if_splits)
    with 2 Some es show ?thesis by auto
  qed (use 2(2) in simp)
qed simp

lemma digits_value_bound: "\<forall>d\<in>set ds. d < radix \<Longrightarrow> digits_value radix ds < radix ^ length ds"
proof (induction ds rule: rev_induct)
  case (snoc d ds)
  then have "digits_value radix ds + 1 \<le> radix ^ length ds" "d < radix" by simp_all
  from mult_right_mono[OF this(1), of radix] this(2) show ?case
    by (simp add: digits_value_def algebra_simps)
qed (simp add: digits_value_def)

lemma digit_char_value: "d < 16 \<Longrightarrow> digit_value 16 (digit_char d) = Some d"
  by (auto simp: digit_value_def digit_char_def Let_def of_char_of take_bit_eq_mod)

lemma hex_text_digits: "\<forall>c\<in>set (nat_to_string 16 n). digit_value 16 c \<noteq> None"
  by (induction "16 :: nat" n rule: nat_to_string.induct)
    (subst nat_to_string.simps, auto simp: digit_char_value)

lemma hex_text_length:
  "nat_to_string 16 n \<noteq> [] \<and> (n < 16 ^ Suc m \<longrightarrow> length (nat_to_string 16 n) \<le> Suc m)"
proof (induction m arbitrary: n)
  case (Suc m)
  then show ?case
    by (subst (1 2) nat_to_string.simps) (auto simp: less_mult_imp_div_less power_Suc2 simp del: power_Suc)
qed (auto simp: nat_to_string.simps)

lemma read_hex_group:
  assumes "\<forall>c cs. r = c # cs \<longrightarrow> digit_value 16 c = None"
  obtains v where "read_number 16 4 True 65536 (nat_to_string 16 (unat (g :: u16)) @ r) = Some (v, r)"
proof -
  let ?t = "nat_to_string 16 (unat g)"
  from read_digits_all[OF hex_text_digits assms, of "unat g"] obtain ds where
    ds: "read_digits 16 (?t @ r) = (ds, r)" "length ds = length ?t" .
  have "unat g < 16 ^ Suc 3" using unsigned_less[of g] by simp
  with hex_text_length[of "unat g" 3] have len: "?t \<noteq> []" "length ?t \<le> 4" by simp_all
  have "digits_value 16 ds < 16 ^ length ds" by (rule digits_value_bound[OF read_digits_bound[OF ds(1)]])
  also have "\<dots> \<le> 16 ^ 4" using len(2) ds(2) by (intro power_increasing) simp_all
  finally have "digits_value 16 ds < 65536" by simp
  with ds len show thesis by (intro that) (simp add: read_number_def)
qed

lemma read_number_suffix: "read_number radix m z l s = Some (v, s') \<Longrightarrow> set s' \<subseteq> set s"
proof -
  have "set (snd (read_digits radix s)) \<subseteq> set s"
    by (induction radix s rule: read_digits.induct) (auto split: option.split prod.split)
  then show "read_number radix m z l s = Some (v, s') \<Longrightarrow> set s' \<subseteq> set s"
    by (auto simp: read_number_def Let_def split: prod.splits if_splits)
qed

lemma no_dot_no_ipv4:
  assumes "CHR ''.'' \<notin> set s"
  shows "read_ipv4_addr s = None"
proof (cases "read_number 10 3 False 256 s")
  case (Some p)
  then obtain v s' where p: "read_number 10 3 False 256 s = Some (v, s')" by (cases p) auto
  with read_number_suffix[OF p] assms have "read_given_char (CHR ''.'') s' = None"
    by (auto simp: read_given_char_def split: list.split)
  then have "read_octets 1 3 s' = None"
    using read_octets.simps(2)[of 1 2 s'] by (simp add: read_separator_def numeral_3_eq_3 numeral_2_eq_2)
  with p show ?thesis
    using read_octets.simps(2)[of 0 3 s] by (simp add: read_ipv4_addr_def read_separator_def)
qed (use read_octets.simps(2)[of 0 3 s] in \<open>simp add: read_ipv4_addr_def read_separator_def\<close>)

text \<open>The groups after the first, each with its colon; and what may follow a list of groups: nothing,
  or the double colon.\<close>

definition more_groups :: "u16 list \<Rightarrow> string" where
  "more_groups gs = concat (map (\<lambda>g. '':'' @ nat_to_string 16 (unat g)) gs)"

definition after_groups :: "string \<Rightarrow> bool" where
  "after_groups r \<longleftrightarrow> CHR ''.'' \<notin> set r \<and> (r = [] \<or> (\<exists>t. r = ''::'' @ t))"

lemma fmt_subslice_Cons: "fmt_subslice (g # gs) = nat_to_string 16 (unat g) @ more_groups gs"
proof (induction gs arbitrary: g)
  case (Cons h gs)
  from Cons[of h] show ?case by (simp add: fmt_subslice_def more_groups_def)
qed (simp add: fmt_subslice_def more_groups_def)

lemma digit_value_special: "digit_value 16 (CHR '':'') = None" "digit_value 16 (CHR ''.'') = None"
  by (simp_all add: digit_value_def)

lemma hex_text_dotless: "CHR ''.'' \<notin> set (nat_to_string 16 n)"
  using hex_text_digits[of n] digit_value_special(2) by fastforce

lemma more_groups_dotless: "CHR ''.'' \<notin> set (more_groups gs)"
  using hex_text_dotless by (auto simp: more_groups_def)

lemma fmt_subslice_dotless: "CHR ''.'' \<notin> set (fmt_subslice gs)"
proof (cases gs)
  case (Cons g gs')
  then show ?thesis
    using hex_text_dotless more_groups_dotless by (auto simp: fmt_subslice_Cons)
qed (simp add: fmt_subslice_def)

lemma more_groups_stop: "after_groups r \<Longrightarrow> more_groups gs @ r = c # cs \<Longrightarrow> digit_value 16 c = None"
  by (cases gs) (auto simp: more_groups_def after_groups_def digit_value_special)

lemma separator_dotless: "CHR ''.'' \<notin> set s \<Longrightarrow> read_separator (CHR '':'') i read_ipv4_addr s = None"
  by (auto simp: read_separator_def read_given_char_def no_dot_no_ipv4 split: list.split)

lemma groups_end: "after_groups r \<Longrightarrow> read_groups limit n r = ([], False, r)"
proof (cases n)
  case (Suc m)
  assume r: "after_groups r"
  have "read_separator (CHR '':'') i (read_number 16 4 True 65536) r = None" for i
    using r by (auto simp: after_groups_def read_separator_def read_given_char_def read_number_no_digit
        digit_value_special read_number_def[of _ _ _ _ "[]"])
  with r Suc show ?thesis by (simp add: after_groups_def separator_dotless Let_def)
qed simp

lemma read_more_groups:
  assumes "after_groups r" "length gs \<le> n" "n < limit"
  shows "\<exists>vs. read_groups limit n (more_groups gs @ r) = (vs, False, r) \<and> length vs = length gs"
  using assms(2,3)
proof (induction gs arbitrary: n)
  case (Cons g gs)
  then obtain m where m: "n = Suc m" "length gs \<le> m" "m < limit" by (cases n) auto
  let ?s = "more_groups (g # gs) @ r" and ?rest = "more_groups gs @ r"
  obtain v where v: "read_number 16 4 True 65536 (nat_to_string 16 (unat g) @ ?rest) = Some (v, ?rest)"
    using read_hex_group more_groups_stop[OF assms(1)] by metis
  have "read_separator (CHR '':'') (limit - n) (read_number 16 4 True 65536) ?s = Some (v, ?rest)"
    using v Cons.prems(2) by (simp add: more_groups_def read_separator_def read_given_char_def)
  moreover have "CHR ''.'' \<notin> set ?s"
    using more_groups_dotless[of "g # gs"] assms(1) by (simp add: after_groups_def)
  ultimately show ?case
    using Cons.IH[OF m(2,3)] m(1) by (auto simp: separator_dotless Let_def)
qed (use groups_end[OF assms(1)] in \<open>simp add: more_groups_def\<close>)

lemma read_all_groups:
  assumes "after_groups r" "length gs \<le> limit"
  shows "\<exists>vs. read_groups limit limit (fmt_subslice gs @ r) = (vs, False, r) \<and> length vs = length gs"
proof (cases gs)
  case (Cons g gs')
  then obtain m where m: "limit = Suc m" "length gs' \<le> m" using assms(2) by (cases limit) auto
  let ?s = "fmt_subslice gs @ r" and ?rest = "more_groups gs' @ r"
  obtain v where v: "read_number 16 4 True 65536 (nat_to_string 16 (unat g) @ ?rest) = Some (v, ?rest)"
    using read_hex_group more_groups_stop[OF assms(1)] by metis
  have "read_separator (CHR '':'') 0 (read_number 16 4 True 65536) ?s = Some (v, ?rest)"
    using v by (simp add: Cons fmt_subslice_Cons read_separator_def)
  moreover have "CHR ''.'' \<notin> set ?s"
    using fmt_subslice_dotless assms(1) by (simp add: after_groups_def)
  moreover from read_more_groups[OF assms(1) m(2), of limit] m(1) obtain vs where
    "read_groups limit m ?rest = (vs, False, r)" "length vs = length gs'" by auto
  ultimately show ?thesis using Cons m(1) by (cases m) (auto simp: separator_dotless Let_def)
qed (use groups_end[OF assms(1)] in \<open>simp add: fmt_subslice_def\<close>)

lemma longest_zeroes_bound:
  assumes "longest_zeroes i longest current xs = (start, len)" "fst longest + snd longest \<le> i"
    "snd current = 0 \<or> fst current + snd current = i"
  shows "start + len \<le> i + length xs"
  using assms
proof (induction i longest current xs rule: longest_zeroes.induct)
  case (2 i longest current seg segs)
  show ?case
  proof (cases "seg = 0")
    case True
    from 2(1)[OF True refl refl] 2(3-) True show ?thesis by (auto simp: Let_def split: if_splits)
  next
    case False
    from 2(2)[OF this] 2(3-) False show ?thesis by simp
  qed
qed simp

lemma display_ipv6_parses:
  assumes "length segs = 8" "to_ipv4_mapped segs = None"
  shows "parse_ip_addr (display_ipv6 segs) \<noteq> None" "CHR '':'' \<in> set (display_ipv6 segs)"
proof -
  obtain start len where z: "longest_zeroes 0 (0, 0) (0, 0) segs = (start, len)" by fastforce
  from longest_zeroes_bound[OF z] assms(1) have b: "start + len \<le> 8" by simp
  have "parse_ip_addr (display_ipv6 segs) \<noteq> None \<and> CHR '':'' \<in> set (display_ipv6 segs)"
  proof (cases "1 < len")
    case True
    let ?h = "fmt_subslice (take start segs)" and ?t = "fmt_subslice (drop (start + len) segs)"
    have d: "display_ipv6 segs = ?h @ ''::'' @ ?t" using True z assms(2) by (simp add: display_ipv6_def)
    have "after_groups (''::'' @ ?t)" using fmt_subslice_dotless by (simp add: after_groups_def)
    from read_all_groups[OF this, of "take start segs" 8] b assms(1) obtain hs where
      h: "read_groups 8 8 (?h @ ''::'' @ ?t) = (hs, False, ''::'' @ ?t)" "length hs = start" by auto
    have "length (drop (start + len) segs) \<le> 8 - (start + 1)" using assms(1) True b by simp
    from read_all_groups[OF _ this, of "[]"] obtain ts where
      "read_groups (8 - (start + 1)) (8 - (start + 1)) ?t = (ts, False, [])"
      by (auto simp: after_groups_def)
    then obtain ss where "read_ipv6_addr (display_ipv6 segs) = Some (ss, [])"
      using h b True by (simp add: d read_ipv6_addr_def read_given_char_def)
    moreover have "read_ipv4_addr (display_ipv6 segs) = None"
      using fmt_subslice_dotless by (intro no_dot_no_ipv4) (simp add: d)
    ultimately show ?thesis by (simp add: parse_ip_addr_def d)
  next
    case False
    have d: "display_ipv6 segs = fmt_subslice segs" using False z assms(2) by (simp add: display_ipv6_def)
    from read_all_groups[of "[]" segs 8] assms(1) obtain vs where
      "read_groups 8 8 (fmt_subslice segs) = (vs, False, [])" "length vs = 8" by (auto simp: after_groups_def)
    then have "read_ipv6_addr (display_ipv6 segs) = Some (vs, [])" by (simp add: d read_ipv6_addr_def)
    moreover have "read_ipv4_addr (display_ipv6 segs) = None"
      using fmt_subslice_dotless by (intro no_dot_no_ipv4) (simp add: d)
    moreover have "CHR '':'' \<in> set (fmt_subslice segs)"
      using assms(1) by (cases segs; cases "tl segs") (auto simp: fmt_subslice_Cons more_groups_def)
    ultimately show ?thesis by (simp add: parse_ip_addr_def d)
  qed
  then show "parse_ip_addr (display_ipv6 segs) \<noteq> None" "CHR '':'' \<in> set (display_ipv6 segs)" by simp_all
qed

lemma display_ipv4_colonless: "CHR '':'' \<notin> set (display_ipv4 octets)"
proof -
  have digits: "CHR '':'' \<notin> set (nat_to_string 10 n)" for n
  proof (induction "10 :: nat" n rule: nat_to_string.induct)
    case (1 n)
    have "digit_char d \<noteq> CHR '':''" if "d < 10" for d
      using digit_char_value[of d] that digit_value_special(1) by auto
    with 1 show ?case by (subst nat_to_string.simps) (auto simp: eq_commute[of "CHR '':''"])
  qed
  have "CHR '':'' \<notin> set (join_with ''.'' xs)" if "\<forall>x\<in>set xs. CHR '':'' \<notin> set x" for xs
    using that by (induction "''.''" xs rule: join_with.induct) auto
  with digits show ?thesis by (simp add: display_ipv4_def)
qed

end
