(* ===== verification/Externals.thy ===== *)
theory Externals
  imports Hex_Codec Ip_Literal
begin

text \<open>
  What the crate takes from other crates. None of this code is in the repository, so each item is
  a field of the record \<open>externs\<close>, an argument of every definition that uses it:
  \<^item> \<open>pid_to_hex\<close>, \<open>pid_from_hex\<close>: \<open>dig_nat::PeerId\<close>'s text form; a peer identity itself
    is its 32 bytes, as \<open>PeerId::from_bytes\<close> and \<open>as_bytes\<close> expose it;
  \<^item> \<open>family_of\<close>: \<open>dig_ip::Family::of\<close> on a socket address;
  \<^item> \<open>sha256\<close>: \<open>sha2::Sha256::digest\<close>.
  \<open>externs_ok\<close> states the documented behaviour the crate relies on: the identity text form is a
  codec of 32-byte values into 64 characters, digests have 32 bytes.
\<close>

datatype family = V4 | V6

record externs =
  pid_to_hex :: "peer_id \<Rightarrow> string"
  pid_from_hex :: "string \<Rightarrow> peer_id option"
  family_of :: "ip_addr \<times> u16 \<Rightarrow> family"
  sha256 :: "u8 list \<Rightarrow> u8 list"

definition externs_ok :: "externs \<Rightarrow> bool" where
  "externs_ok E \<longleftrightarrow>
     hex_codec (pid_to_hex E) (pid_from_hex E) \<and> (\<forall>bs. length (sha256 E bs) = 32)"

lemma externs_ok_from_hex: "externs_ok E \<Longrightarrow> pid_from_hex E s = Some p \<Longrightarrow> length p = 32"
  unfolding externs_ok_def by (blast dest: hex_codec.dec_length)

lemma externs_ok_to_hex:
  "externs_ok E \<Longrightarrow> length p = 32 \<Longrightarrow> pid_from_hex E (pid_to_hex E p) = Some p"
  unfolding externs_ok_def by (blast dest: hex_codec.dec_enc)

text \<open>A concrete instance, used by the witnesses: the crate's own hex codec for identities, the
  documented family rule (an IPv4-mapped IPv6 literal is IPv4 reachability), and a digest that
  keeps the first 32 bytes.\<close>

definition sample_externs :: externs where
  "sample_externs =
     \<lparr>pid_to_hex = to_hex, pid_from_hex = hex64_to_bytes,
      family_of = (\<lambda>(ip, port). case ip of IpV4 _ \<Rightarrow> V4
                     | IpV6 segs \<Rightarrow> if to_ipv4_mapped segs = None then V6 else V4),
      sha256 = (\<lambda>bs. take 32 (bs @ replicate 32 0))\<rparr>"

lemma sample_externs_ok: "externs_ok sample_externs"
  by (auto simp: externs_ok_def sample_externs_def key_hex.hex_codec_axioms min_def)

lemma sample_externs_sel [simp]:
  "pid_to_hex sample_externs = to_hex" "pid_from_hex sample_externs = hex64_to_bytes"
  "sha256 sample_externs = (\<lambda>bs. take 32 (bs @ replicate 32 0))"
  by (simp_all add: sample_externs_def)

end
