(* ===== verification/Content_Id.thy ===== *)
theory Content_Id
  imports Externals
begin

text \<open>
  \<^verbatim>\<open>src/content.rs\<close>: the content identifiers, their canonical domain-separated byte encoding
  and the map into the keyspace. The digest is a parameter.
\<close>

datatype content_id =
    Store "u8 list"
  | Root "u8 list" "u8 list"
  | Resource "u8 list" "u8 list" "u8 list"

definition TAG_STORE :: u8 where "TAG_STORE = 0x01"
definition TAG_ROOT :: u8 where "TAG_ROOT = 0x02"
definition TAG_RESOURCE :: u8 where "TAG_RESOURCE = 0x03"

definition content_store :: "u8 list \<Rightarrow> content_id" where
  "content_store store_id = Store store_id"

definition content_root :: "u8 list \<Rightarrow> u8 list \<Rightarrow> content_id" where
  "content_root store_id root = Root store_id root"

definition content_capsule :: "u8 list \<Rightarrow> u8 list \<Rightarrow> content_id" where
  "content_capsule store_id root = Root store_id root"

definition content_resource :: "u8 list \<Rightarrow> u8 list \<Rightarrow> u8 list \<Rightarrow> content_id" where
  "content_resource store_id root retrieval_key = Resource store_id root retrieval_key"

fun content_store_id :: "content_id \<Rightarrow> u8 list" where
  "content_store_id (Store store_id) = store_id"
| "content_store_id (Root store_id _) = store_id"
| "content_store_id (Resource store_id _ _) = store_id"

fun canonical_bytes :: "content_id \<Rightarrow> u8 list" where
  "canonical_bytes (Store store_id) = [TAG_STORE] @ store_id"
| "canonical_bytes (Root store_id root) = [TAG_ROOT] @ store_id @ root"
| "canonical_bytes (Resource store_id root retrieval_key) =
     [TAG_RESOURCE] @ store_id @ root @ retrieval_key"

definition content_to_key :: "externs \<Rightarrow> content_id \<Rightarrow> key" where
  "content_to_key E c = key_from_bytes (sha256 E (canonical_bytes c))"

text \<open>The \<open>Debug\<close> rendering (the standard library's \<open>debug_struct\<close> with quoted text fields).\<close>

definition debug_field :: "string \<Rightarrow> u8 list \<Rightarrow> string" where
  "debug_field name bytes = name @ '': \"'' @ hex32 bytes @ ''\"''"

fun content_debug :: "content_id \<Rightarrow> string" where
  "content_debug (Store store_id) =
     ''ContentId::Store { '' @ debug_field ''store_id'' store_id @ '' }''"
| "content_debug (Root store_id root) =
     ''ContentId::Root { '' @ debug_field ''store_id'' store_id @ '', ''
       @ debug_field ''root'' root @ '' }''"
| "content_debug (Resource store_id root retrieval_key) =
     ''ContentId::Resource { '' @ debug_field ''store_id'' store_id @ '', ''
       @ debug_field ''root'' root @ '', '' @ debug_field ''retrieval_key'' retrieval_key @ '' }''"

fun wf_content :: "content_id \<Rightarrow> bool" where
  "wf_content (Store s) \<longleftrightarrow> length s = 32"
| "wf_content (Root s r) \<longleftrightarrow> length s = 32 \<and> length r = 32"
| "wf_content (Resource s r k) \<longleftrightarrow> length s = 32 \<and> length r = 32 \<and> length k = 32"

lemmas tag_defs = TAG_STORE_def TAG_ROOT_def TAG_RESOURCE_def

lemma canonical_bytes_inject:
  "wf_content a \<Longrightarrow> wf_content b \<Longrightarrow> canonical_bytes a = canonical_bytes b \<longleftrightarrow> a = b"
  by (cases a; cases b) (auto simp: tag_defs)

lemma wf_content_to_key: "externs_ok E \<Longrightarrow> wf_key (content_to_key E c)"
  by (simp add: content_to_key_def key_from_bytes_def externs_ok_def wf_key_def)

subsection \<open>Properties\<close>

text \<open>C36. Content keys are domain separated: as long as the digest has no collision among the
  encodings of the contents in play, two contents (of whatever granularity) share a key only if
  they are the same content, so their provider records never collide. Every key is 32 bytes.\<close>

theorem content_keys_distinct:
  assumes "externs_ok E" "\<forall>c\<in>S. wf_content c" "inj_on (sha256 E) (canonical_bytes ` S)"
  shows "inj_on (content_to_key E) S \<and> (\<forall>c\<in>S. wf_key (content_to_key E c))"
proof
  show "inj_on (content_to_key E) S"
  proof (rule inj_onI)
    fix a b assume ab: "a \<in> S" "b \<in> S" "content_to_key E a = content_to_key E b"
    then have "canonical_bytes a = canonical_bytes b"
      using assms(3) by (auto simp: content_to_key_def key_from_bytes_def dest: inj_onD)
    with ab assms(2) show "a = b" by (simp add: canonical_bytes_inject)
  qed
qed (simp add: wf_content_to_key assms(1))

theorem content_keys_distinct_witness:
  "inj_on (content_to_key sample_externs)
     {Store (replicate 32 1), Root (replicate 32 1) (replicate 32 1),
      Resource (replicate 32 1) (replicate 32 1) (replicate 32 0)}"
proof -
  let ?S = "{Store (replicate 32 1), Root (replicate 32 1) (replicate 32 1),
      Resource (replicate 32 1) (replicate 32 1) (replicate 32 0)}"
  have wf: "\<forall>c\<in>?S. wf_content c" by simp
  have "inj_on (sha256 sample_externs) (canonical_bytes ` ?S)"
    by (auto simp: tag_defs intro!: inj_onI)
  from content_keys_distinct[OF sample_externs_ok wf this] show ?thesis by blast
qed

end
