(* ===== verification/Provider_Record.thy ===== *)
theory Provider_Record
  imports Externals
begin

text \<open>
  \<^verbatim>\<open>src/record.rs\<close>: candidate addresses and their ordering, the address bound every list
  passes through, the dial set of a record, and the provider record itself. Host texts are parsed
  by the standard library's address parser (\<open>Ip_Literal\<close>); the family of a parsed address is the
  parameter \<open>family_of\<close>.
\<close>

subsection \<open>Address kinds\<close>

datatype address_kind = Direct | Mapped | Reflexive | Relay

fun kind_rank :: "address_kind \<Rightarrow> nat" where
  "kind_rank Direct = 0"
| "kind_rank Mapped = 1"
| "kind_rank Reflexive = 2"
| "kind_rank Relay = 3"

fun is_dialable :: "address_kind \<Rightarrow> bool" where
  "is_dialable Relay = False"
| "is_dialable _ = True"

text \<open>The derived \<open>Ord\<close> of the enum: the order of its variants.\<close>

instantiation address_kind :: linorder
begin

definition less_eq_address_kind :: "address_kind \<Rightarrow> address_kind \<Rightarrow> bool" where
  "a \<le> b \<longleftrightarrow> kind_rank a \<le> kind_rank b"

definition less_address_kind :: "address_kind \<Rightarrow> address_kind \<Rightarrow> bool" where
  "a < b \<longleftrightarrow> kind_rank a < kind_rank b"

instance
proof
  fix x y :: address_kind
  show "x \<le> y \<Longrightarrow> y \<le> x \<Longrightarrow> x = y"
    by (cases x; cases y) (simp_all add: less_eq_address_kind_def)
qed (auto simp: less_eq_address_kind_def less_address_kind_def)

end

subsection \<open>Candidate addresses\<close>

record candidate_addr =
  ca_host :: string
  ca_port :: u16
  ca_kind :: address_kind

definition candidate_direct :: "string \<Rightarrow> u16 \<Rightarrow> candidate_addr" where
  "candidate_direct host port = \<lparr>ca_host = host, ca_port = port, ca_kind = Direct\<rparr>"

definition relay_marker :: candidate_addr where
  "relay_marker = \<lparr>ca_host = [], ca_port = 0, ca_kind = Relay\<rparr>"

definition family_rank :: "externs \<Rightarrow> candidate_addr \<Rightarrow> nat" where
  "family_rank E a =
     (case map_option (\<lambda>ip. family_of E (ip, ca_port a)) (parse_ip_addr (ca_host a)) of
        Some V6 \<Rightarrow> 0
      | Some V4 \<Rightarrow> 1
      | None \<Rightarrow> 2)"

definition dial_identity :: "candidate_addr \<Rightarrow> string \<times> u16" where
  "dial_identity a =
     (let host = (case parse_ip_addr (ca_host a) of
                    Some (IpV6 v6) \<Rightarrow>
                      display_ip (case to_ipv4_mapped v6 of Some v4 \<Rightarrow> IpV4 v4 | None \<Rightarrow> IpV6 v6)
                  | Some ip \<Rightarrow> display_ip ip
                  | None \<Rightarrow> ca_host a)
      in (host, ca_port a))"

definition is_ipv6_literal :: "externs \<Rightarrow> candidate_addr \<Rightarrow> bool" where
  "is_ipv6_literal E a \<longleftrightarrow> family_rank E a = 0"

definition family_then_kind_rank :: "externs \<Rightarrow> candidate_addr \<Rightarrow> nat \<times> nat" where
  "family_then_kind_rank E a = (family_rank E a, kind_rank (ca_kind a))"

definition sort_addresses_ipv6_first :: "externs \<Rightarrow> candidate_addr list \<Rightarrow> candidate_addr list" where
  "sort_addresses_ipv6_first E addrs = sort_key (family_then_kind_rank E) addrs"

definition MAX_ADDRESSES_PER_RECORD :: nat where "MAX_ADDRESSES_PER_RECORD = 8"
definition MAX_HOST_LEN :: nat where "MAX_HOST_LEN = 253"
definition MAX_DIAL_CANDIDATES :: nat where "MAX_DIAL_CANDIDATES = 4"

definition sort_and_cap_addresses :: "externs \<Rightarrow> candidate_addr list \<Rightarrow> candidate_addr list" where
  "sort_and_cap_addresses E addrs =
     (let kept = filter (\<lambda>a. length (ca_host a) \<le> MAX_HOST_LEN) addrs;
          sorted_addrs = sort_addresses_ipv6_first E kept
      in take MAX_ADDRESSES_PER_RECORD sorted_addrs)"

text \<open>The serde hook on every \<open>addresses\<close> field: bound whatever the decoder produced, never
  turn a decoded list into an error.\<close>

definition deserialize_capped_addresses ::
  "externs \<Rightarrow> ('err + candidate_addr list) \<Rightarrow> ('err + candidate_addr list)" where
  "deserialize_capped_addresses E decoded =
     (case decoded of Inl e \<Rightarrow> Inl e | Inr addrs \<Rightarrow> Inr (sort_and_cap_addresses E addrs))"

definition reserve_fallback_slot_and_cap ::
  "externs \<Rightarrow> candidate_addr list \<Rightarrow> candidate_addr list" where
  "reserve_fallback_slot_and_cap E candidates =
     (if length candidates \<le> MAX_DIAL_CANDIDATES then candidates
      else
        let kept_excludes_every_fallback =
              list_all (is_ipv6_literal E) (take MAX_DIAL_CANDIDATES candidates);
            fallback = (if kept_excludes_every_fallback
                        then find (\<lambda>a. \<not> is_ipv6_literal E a) candidates else None)
        in case fallback of
             Some fb \<Rightarrow> take (MAX_DIAL_CANDIDATES - 1) candidates @ [fb]
           | None \<Rightarrow> take MAX_DIAL_CANDIDATES candidates)"

definition dial_candidates :: "externs \<Rightarrow> candidate_addr list \<Rightarrow> candidate_addr list" where
  "dial_candidates E addrs =
     (let candidates = filter (\<lambda>a. is_dialable (ca_kind a)) addrs;
          ordered = sort_key (family_then_kind_rank E) candidates;
          deduped = retain_new dial_identity {} ordered
      in reserve_fallback_slot_and_cap E deduped)"

definition best_address :: "candidate_addr list \<Rightarrow> candidate_addr option" where
  "best_address addrs = find (\<lambda>a. is_dialable (ca_kind a)) addrs"

subsection \<open>Provider records\<close>

record provider_record =
  content_key :: string
  provider_peer_id :: string
  pr_addresses :: "candidate_addr list"
  expires_at :: u64
  unverified_mirror_coin_id :: "string option"

definition provider_record_new ::
  "externs \<Rightarrow> key \<Rightarrow> peer_id \<Rightarrow> candidate_addr list \<Rightarrow> u64 \<Rightarrow> provider_record" where
  "provider_record_new E ck provider addrs expires =
     \<lparr>content_key = to_hex ck,
      provider_peer_id = pid_to_hex E provider,
      pr_addresses = sort_and_cap_addresses E addrs,
      expires_at = expires,
      unverified_mirror_coin_id = None\<rparr>"

definition with_unverified_mirror_coin_id :: "provider_record \<Rightarrow> u8 list \<Rightarrow> provider_record" where
  "with_unverified_mirror_coin_id r coin_id =
     r\<lparr>unverified_mirror_coin_id := Some (to_hex64 coin_id)\<rparr>"

definition unverified_mirror_coin_id_bytes :: "provider_record \<Rightarrow> u8 list option" where
  "unverified_mirror_coin_id_bytes r = Option.bind (unverified_mirror_coin_id r) hex64_to_bytes"

definition record_peer_id :: "externs \<Rightarrow> provider_record \<Rightarrow> peer_id option" where
  "record_peer_id E r = pid_from_hex E (provider_peer_id r)"

definition is_expired :: "provider_record \<Rightarrow> u64 \<Rightarrow> bool" where
  "is_expired r now \<longleftrightarrow> now \<ge> expires_at r"

subsection \<open>Lemmas\<close>

lemmas address_bounds = MAX_ADDRESSES_PER_RECORD_def MAX_HOST_LEN_def MAX_DIAL_CANDIDATES_def

definition capped_addresses :: "candidate_addr list \<Rightarrow> bool" where
  "capped_addresses addrs \<longleftrightarrow> length addrs \<le> MAX_ADDRESSES_PER_RECORD
     \<and> (\<forall>a\<in>set addrs. length (ca_host a) \<le> MAX_HOST_LEN)"

interpretation addr_cap: ranked_selection
  "\<lambda>(E, addrs). filter (\<lambda>a. length (ca_host a) \<le> MAX_HOST_LEN) addrs"
  "\<lambda>_. MAX_ADDRESSES_PER_RECORD"
  "\<lambda>(E, addrs). family_then_kind_rank E"
  "\<lambda>(E, addrs). sort_and_cap_addresses E addrs"
  by unfold_locales
    (simp add: sort_and_cap_addresses_def sort_addresses_ipv6_first_def Let_def split: prod.split)

lemma sort_and_cap_capped: "capped_addresses (sort_and_cap_addresses E addrs)"
  using addr_cap.chosen_length[of "(E, addrs)"] addr_cap.chosen_subset[of "(E, addrs)"]
  by (auto simp: capped_addresses_def)

lemma sort_and_cap_idem:
  "sort_and_cap_addresses E (sort_and_cap_addresses E addrs) = sort_and_cap_addresses E addrs"
proof -
  let ?k = "sort_and_cap_addresses E addrs"
  have "sorted (map (family_then_kind_rank E) ?k)"
    using addr_cap.chosen_sorted[of "(E, addrs)"] by simp
  moreover have "filter (\<lambda>a. length (ca_host a) \<le> MAX_HOST_LEN) ?k = ?k" "length ?k \<le> MAX_ADDRESSES_PER_RECORD"
    using sort_and_cap_capped[of E addrs] by (simp_all add: capped_addresses_def address_bounds filter_id_conv)
  ultimately show ?thesis
    unfolding sort_and_cap_addresses_def[of E ?k]
    by (simp add: sort_addresses_ipv6_first_def sort_key_id_if_sorted Let_def)
qed

lemma family_rank_le: "family_rank E a \<le> 2"
  by (auto simp: family_rank_def split: option.split family.split)

lemma is_ipv6_first:
  "family_then_kind_rank E a \<le> family_then_kind_rank E b \<Longrightarrow> is_ipv6_literal E b \<Longrightarrow> is_ipv6_literal E a"
  by (auto simp: family_then_kind_rank_def is_ipv6_literal_def less_eq_prod_def)

lemma reserve_length: "length (reserve_fallback_slot_and_cap E cs) \<le> MAX_DIAL_CANDIDATES"
  by (auto simp: reserve_fallback_slot_and_cap_def address_bounds Let_def split: option.split)

lemma reserve_subset: "set (reserve_fallback_slot_and_cap E cs) \<subseteq> set cs"
  by (auto simp: reserve_fallback_slot_and_cap_def Let_def find_Some_iff
      dest: in_set_takeD split: option.split if_splits)

lemma find_notin_take:
  "find P cs = Some x \<Longrightarrow> list_all (\<lambda>a. \<not> P a) (take n cs) \<Longrightarrow>
   \<exists>m. n \<le> m \<and> m < length cs \<and> cs ! m = x"
  by (auto simp: find_Some_iff list_all_length) (metis not_le nth_take)

definition dial_pool :: "externs \<Rightarrow> candidate_addr list \<Rightarrow> candidate_addr list" where
  "dial_pool E addrs =
     retain_new dial_identity {} (sort_key (family_then_kind_rank E)
       (filter (\<lambda>a. is_dialable (ca_kind a)) addrs))"

lemma dial_candidates_pool: "dial_candidates E addrs = reserve_fallback_slot_and_cap E (dial_pool E addrs)"
  by (simp add: dial_candidates_def dial_pool_def Let_def)

lemma dial_pool_sorted: "sorted (map (family_then_kind_rank E) (dial_pool E addrs))"
  unfolding dial_pool_def by (rule retain_new_sorted) (rule sorted_sort_key)

lemma dial_pool_distinct: "distinct (map dial_identity (dial_pool E addrs))"
  unfolding dial_pool_def by (rule retain_new_distinct)

lemma dial_pool_subset: "set (dial_pool E addrs) \<subseteq> {a \<in> set addrs. is_dialable (ca_kind a)}"
  using set_retain_new_subset unfolding dial_pool_def by fastforce

lemma dial_pool_identities:
  "dial_identity ` set (dial_pool E addrs) = dial_identity ` {a \<in> set addrs. is_dialable (ca_kind a)}"
  by (simp add: dial_pool_def retain_new_image)

text \<open>The three shapes of a capped dial set.\<close>

lemma reserve_cases:
  obtains (all) "length cs \<le> 4" "reserve_fallback_slot_and_cap E cs = cs"
  | (swap) m where "4 \<le> m" "m < length cs" "\<not> is_ipv6_literal E (cs ! m)"
      "reserve_fallback_slot_and_cap E cs = take 3 cs @ [cs ! m]"
      "find (\<lambda>a. \<not> is_ipv6_literal E a) cs = Some (cs ! m)"
  | (cut) "4 < length cs" "reserve_fallback_slot_and_cap E cs = take 4 cs"
      "list_all (is_ipv6_literal E) (take 4 cs) \<Longrightarrow> list_all (is_ipv6_literal E) cs"
proof (cases "length cs \<le> 4")
  case True
  then show thesis by (intro all) (simp_all add: reserve_fallback_slot_and_cap_def address_bounds)
next
  case False
  show thesis
  proof (cases "list_all (is_ipv6_literal E) (take 4 cs)")
    case v6: True
    show thesis
    proof (cases "find (\<lambda>a. \<not> is_ipv6_literal E a) cs")
      case None
      then have "list_all (is_ipv6_literal E) cs" by (simp add: find_None_iff list_all_iff)
      moreover have "reserve_fallback_slot_and_cap E cs = take 4 cs"
        using False None by (simp add: reserve_fallback_slot_and_cap_def address_bounds)
      ultimately show thesis using False by (intro cut) simp_all
    next
      case (Some fb)
      from v6 have "list_all (\<lambda>a. \<not> \<not> is_ipv6_literal E a) (take 4 cs)" by simp
      from find_notin_take[OF Some this] obtain m where "4 \<le> m" "m < length cs" "cs ! m = fb" by blast
      moreover have "\<not> is_ipv6_literal E fb" using Some by (auto simp: find_Some_iff)
      ultimately show thesis using False v6 Some
        by (intro swap) (auto simp: reserve_fallback_slot_and_cap_def address_bounds Let_def)
    qed
  next
    case nv6: False
    with False have "reserve_fallback_slot_and_cap E cs = take 4 cs"
      by (simp add: reserve_fallback_slot_and_cap_def address_bounds)
    with False nv6 show thesis by (intro cut) simp_all
  qed
qed

lemma reserve_sorted:
  assumes "sorted (map f cs)"
  shows "sorted (map f (reserve_fallback_slot_and_cap E cs))"
proof (cases rule: reserve_cases[of cs E])
  case (swap m)
  have "f (cs ! i) \<le> f (cs ! m)" if "i < 3" for i
    using sorted_nth_mono[OF assms, of i m] that swap(1,2) by simp
  then have "\<forall>x\<in>set (take 3 cs). f x \<le> f (cs ! m)"
    by (auto simp: in_set_conv_nth)
  with swap(4) show ?thesis using sorted_take_map[OF assms, of 3] by (simp add: sorted_append)
qed (use assms in \<open>simp_all add: sorted_take_map\<close>)

lemma reserve_distinct:
  assumes "distinct (map f cs)"
  shows "distinct (map f (reserve_fallback_slot_and_cap E cs))"
proof (cases rule: reserve_cases[of cs E])
  case (swap m)
  have "f (cs ! i) \<noteq> f (cs ! m)" if "i < 3" for i
    using nth_eq_iff_index_eq[OF assms, of i m] that swap(1,2) by simp
  then have "f x \<noteq> f (cs ! m)" if "x \<in> set (take 3 cs)" for x
    using that by (auto simp: in_set_conv_nth)
  then have "f (cs ! m) \<notin> f ` set (take 3 cs)" by fastforce
  with swap(4) distinct_take[OF assms, of 3] show ?thesis by (simp add: take_map)
qed (use assms in \<open>simp_all add: take_map[symmetric]\<close>)

text \<open>The best of the candidates that are no IPv6 literal keeps its slot.\<close>

lemma reserve_keeps_fallback:
  assumes "sorted (map f cs)" "c \<in> set cs" "\<not> is_ipv6_literal E c"
  shows "\<exists>b\<in>set (reserve_fallback_slot_and_cap E cs). \<not> is_ipv6_literal E b
    \<and> (\<forall>c\<in>set cs. \<not> is_ipv6_literal E c \<longrightarrow> f b \<le> f c)"
proof -
  let ?P = "\<lambda>a. \<not> is_ipv6_literal E a"
  from assms(2,3) obtain b where b: "find ?P cs = Some b"
    by (metis find_None_iff option.exhaust)
  then obtain i where i: "i < length cs" "cs ! i = b" "?P b" "\<forall>j<i. is_ipv6_literal E (cs ! j)"
    by (auto simp: find_Some_iff)
  have least: "f b \<le> f c" if "c \<in> set cs" "?P c" for c
  proof -
    from that(1) obtain j where j: "j < length cs" "cs ! j = c" by (auto simp: in_set_conv_nth)
    with that(2) i(4) have "i \<le> j" by (meson not_le)
    with sorted_nth_mono[OF assms(1), of i j] i j show ?thesis by simp
  qed
  have "b \<in> set (reserve_fallback_slot_and_cap E cs)"
  proof (cases rule: reserve_cases[of cs E])
    case cut
    have "i < 4"
    proof (rule ccontr)
      assume "\<not> i < 4"
      with i(4) have "list_all (is_ipv6_literal E) (take 4 cs)" by (simp add: list_all_length)
      with cut(3) i(1-3) show False by (auto simp: list_all_length)
    qed
    with i(1,2) cut show ?thesis by (auto simp: in_set_conv_nth)
  qed (use i b in auto)
  with i(3) least show ?thesis by blast
qed

text \<open>Of the candidates that name one endpoint the pool keeps the best ranked.\<close>

lemma retain_new_best:
  assumes "sorted (map f xs)" "x \<in> set xs" "g x \<notin> seen"
  shows "\<exists>y\<in>set (retain_new g seen xs). g y = g x \<and> f y \<le> f x"
  using assms
proof (induction xs arbitrary: seen)
  case (Cons y ys)
  show ?case
  proof (cases "g y = g x")
    case True
    with Cons.prems show ?thesis by (auto simp: Let_def)
  next
    case False
    with Cons.prems Cons.IH[of seen] Cons.IH[of "insert (g y) seen"] show ?thesis by (auto simp: Let_def)
  qed
qed simp

lemma dial_pool_best:
  assumes "a \<in> set addrs" "is_dialable (ca_kind a)"
  shows "\<exists>c\<in>set (dial_pool E addrs). dial_identity c = dial_identity a
    \<and> family_then_kind_rank E c \<le> family_then_kind_rank E a"
  unfolding dial_pool_def using assms by (intro retain_new_best[OF sorted_sort_key]) simp_all

text \<open>The documented rule of \<open>dig_ip::Family::of\<close>: an IPv4-mapped IPv6 address is IPv4
  reachability. Under it two spellings of one endpoint belong to the same tier.\<close>

definition family_documented :: "externs \<Rightarrow> bool" where
  "family_documented E \<longleftrightarrow>
     (\<forall>ip port. family_of E (ip, port) = (case ip of IpV4 _ \<Rightarrow> V4
        | IpV6 segs \<Rightarrow> if to_ipv4_mapped segs = None then V6 else V4))"

lemma documented_ipv6:
  assumes "family_documented E"
  shows "is_ipv6_literal E a \<longleftrightarrow> (\<exists>segs. parse_ip_addr (ca_host a) = Some (IpV6 segs) \<and> to_ipv4_mapped segs = None)"
proof (cases "parse_ip_addr (ca_host a)")
  case (Some ip)
  with assms show ?thesis
    by (cases ip) (auto simp: is_ipv6_literal_def family_rank_def family_documented_def)
qed (simp add: is_ipv6_literal_def family_rank_def)

lemma endpoint_tier:
  assumes "family_documented E" "dial_identity a = dial_identity b" "is_ipv6_literal E a"
  shows "is_ipv6_literal E b"
proof -
  from assms(3) obtain segs where a: "parse_ip_addr (ca_host a) = Some (IpV6 segs)" "to_ipv4_mapped segs = None"
    unfolding documented_ipv6[OF assms(1)] by blast
  from parse_ip_wf[OF a(1)] have "length segs = 8" by simp
  note shown = display_ipv6_parses[OF this a(2)]
  have "fst (dial_identity a) = display_ipv6 segs" using a by (simp add: dial_identity_def Let_def)
  then have b: "fst (dial_identity b) = display_ipv6 segs" using assms(2) by simp
  show ?thesis
  proof (cases "parse_ip_addr (ca_host b)")
    case None
    with b shown(1) show ?thesis by (simp add: dial_identity_def Let_def)
  next
    case (Some ip)
    show ?thesis
    proof (cases ip)
      case (IpV4 octets)
      with Some b shown(2) display_ipv4_colonless[of octets] show ?thesis by (simp add: dial_identity_def Let_def)
    next
      case (IpV6 other)
      show ?thesis
      proof (cases "to_ipv4_mapped other")
        case None
        with Some IpV6 show ?thesis by (simp add: documented_ipv6[OF assms(1)])
      next
        case (Some v4)
        with \<open>parse_ip_addr (ca_host b) = Some ip\<close> IpV6 b shown(2) display_ipv4_colonless[of v4]
        show ?thesis by (simp add: dial_identity_def Let_def)
      qed
    qed
  qed
qed

subsection \<open>Properties\<close>

text \<open>C29. The admission bound on address lists: at most eight candidates, none with a host longer
  than 253 bytes, in dial-preference order; every survivor comes from the input unchanged, no
  representable candidate that was dropped is preferred to one that was kept, and a list that fits
  loses nothing.\<close>

theorem sort_and_cap_addresses_keeps_best:
  "capped_addresses (sort_and_cap_addresses E addrs)
   \<and> sorted (map (family_then_kind_rank E) (sort_and_cap_addresses E addrs))
   \<and> (let rep = filter (\<lambda>a. length (ca_host a) \<le> 253) addrs; kept = sort_and_cap_addresses E addrs in
       set kept \<subseteq> set rep
       \<and> (\<forall>a\<in>set kept. \<forall>b\<in>set rep - set kept. family_then_kind_rank E a \<le> family_then_kind_rank E b)
       \<and> (length rep \<le> 8 \<longrightarrow> mset kept = mset rep))"
  using sort_and_cap_capped[of E addrs] addr_cap.chosen_sorted[of "(E, addrs)"]
    addr_cap.chosen_subset[of "(E, addrs)"] addr_cap.chosen_nearest[of _ "(E, addrs)"]
    addr_cap.chosen_all[of "(E, addrs)"]
  unfolding Let_def address_bounds prod.case by blast

theorem sort_and_cap_addresses_keeps_best_witness:
  "capped_addresses (sort_and_cap_addresses sample_externs [relay_marker])
   \<and> mset (sort_and_cap_addresses sample_externs [relay_marker]) = {# relay_marker #}"
  using sort_and_cap_addresses_keeps_best[of sample_externs "[relay_marker]"]
  by (auto simp: relay_marker_def Let_def)

text \<open>C31. The dial set of any address list has at most four candidates, each dialable and taken
  from the list, no two naming the same endpoint, in preference order (IPv6, then IPv4, then
  unresolvable, each most direct first).\<close>

theorem dial_candidates_bounded_deduped_ordered:
  "length (dial_candidates E addrs) \<le> 4
   \<and> distinct (map dial_identity (dial_candidates E addrs))
   \<and> sorted (map (family_then_kind_rank E) (dial_candidates E addrs))
   \<and> set (dial_candidates E addrs) \<subseteq> {a \<in> set addrs. is_dialable (ca_kind a)}"
  using reserve_length[of E "dial_pool E addrs"] dial_pool_subset[of E addrs]
    reserve_subset[of E "dial_pool E addrs"]
  by (auto simp: dial_candidates_pool address_bounds reserve_distinct dial_pool_distinct
      reserve_sorted dial_pool_sorted)

lemma unparsable_host: "parse_ip_addr ''h'' = None"
  by (rule parse_ip_addr_no_digit) (simp_all add: digit_value_def)

text \<open>C30. The IPv4 fallback is never crowded out. If the list has a dialable candidate that is not a
  genuine IPv6 literal, the dial set contains one, however many IPv6 candidates precede it, and it is
  the best ranked of all such candidates. (The family of a parsed address is decided by another
  crate, by its documented rule: an IPv4-mapped IPv6 address is IPv4.)\<close>

theorem dial_candidates_keep_fallback:
  assumes "family_documented E" "a \<in> set addrs" "is_dialable (ca_kind a)"
    "\<not> is_ipv6_literal E a"
  shows "\<exists>b\<in>set (dial_candidates E addrs). \<not> is_ipv6_literal E b
    \<and> (\<forall>c\<in>set addrs. is_dialable (ca_kind c) \<longrightarrow> \<not> is_ipv6_literal E c \<longrightarrow>
         family_then_kind_rank E b \<le> family_then_kind_rank E c)"
proof -
  have pooled: "\<exists>d\<in>set (dial_pool E addrs). \<not> is_ipv6_literal E d
      \<and> family_then_kind_rank E d \<le> family_then_kind_rank E c"
    if "c \<in> set addrs" "is_dialable (ca_kind c)" "\<not> is_ipv6_literal E c" for c
    using dial_pool_best[OF that(1,2), of E] endpoint_tier[OF assms(1)] that(3) by metis
  from pooled[OF assms(2-4)] obtain d where "d \<in> set (dial_pool E addrs)" "\<not> is_ipv6_literal E d" by blast
  from reserve_keeps_fallback[OF dial_pool_sorted this] obtain b where
    "b \<in> set (dial_candidates E addrs)" "\<not> is_ipv6_literal E b"
    "\<forall>c\<in>set (dial_pool E addrs). \<not> is_ipv6_literal E c \<longrightarrow> family_then_kind_rank E b \<le> family_then_kind_rank E c"
    unfolding dial_candidates_pool by blast
  with pooled show ?thesis by (meson order_trans)
qed

text \<open>The inclusive expiry boundary and the pointer round trip of a record: attaching a
  32-byte coin id and reading it back returns the same bytes in canonical text, and leaves every
  other field unchanged.\<close>

theorem mirror_coin_pointer_round_trip:
  assumes "length coin = 32"
  shows "unverified_mirror_coin_id_bytes (with_unverified_mirror_coin_id r coin) = Some coin
    \<and> normalize_mirror_coin_id (unverified_mirror_coin_id (with_unverified_mirror_coin_id r coin))
        = unverified_mirror_coin_id (with_unverified_mirror_coin_id r coin)
    \<and> (with_unverified_mirror_coin_id r coin)\<lparr>unverified_mirror_coin_id := unverified_mirror_coin_id r\<rparr> = r"
  using assms canonical_to_hex[OF assms]
  by (simp add: unverified_mirror_coin_id_bytes_def with_unverified_mirror_coin_id_def
      to_hex64_eq_to_hex hex64_to_hex normalize_mirror_coin_id_def canonical_lowercase)

theorem mirror_coin_pointer_round_trip_witness:
  "unverified_mirror_coin_id_bytes
     (with_unverified_mirror_coin_id (provider_record_new sample_externs (replicate 32 0) (replicate 32 1) [] 10)
        (replicate 32 0x5c)) = Some (replicate 32 0x5c)"
  by (rule mirror_coin_pointer_round_trip[THEN conjunct1]) simp

end
