(* ===== verification/Provider_Store.thy ===== *)
theory Provider_Store
  imports Provider_Record
begin

text \<open>
  \<^verbatim>\<open>src/provider_store.rs\<close>: the bounded, TTL-filtered map from content keys to provider
  records, with its admission control. The two nested hash maps are association lists; the
  admission ordinal is a \<open>nat\<close> (a release build checks the 64-bit increment, so it never wraps
  and could only panic after \<open>2 ^ 64\<close> admissions).
\<close>

record provider_store_limits =
  max_providers_per_key :: nat
  max_total_records :: nat

definition default_limits :: provider_store_limits where
  "default_limits = \<lparr>max_providers_per_key = 20, max_total_records = 100000\<rparr>"

datatype put_outcome = Accepted | RejectedOverCapacity

definition ESTABLISHED_FLOOR_DIVISOR :: nat where "ESTABLISHED_FLOOR_DIVISOR = 2"

record provider_entry =
  pe_record :: provider_record
  admitted_seq :: nat

record provider_snapshot_entry =
  se_content_key :: string
  se_providers :: nat

record provider_snapshot =
  sn_entries :: "provider_snapshot_entry list"
  sn_total_keys :: nat
  sn_truncated :: bool

type_synonym providers = "(string \<times> provider_entry) list"

record provider_store =
  by_key :: "(string \<times> providers) list"
  announced :: "(string \<times> string option) list"
  limits :: provider_store_limits
  next_admitted_seq :: nat

definition ps_with_limits :: "provider_store_limits \<Rightarrow> provider_store" where
  "ps_with_limits l = \<lparr>by_key = [], announced = [], limits = l, next_admitted_seq = 0\<rparr>"

definition ps_new :: provider_store where
  "ps_new = ps_with_limits default_limits"

definition ps_len :: "provider_store \<Rightarrow> nat" where
  "ps_len s = (\<Sum>p\<leftarrow>by_key s. length (snd p))"

definition ps_is_empty :: "provider_store \<Rightarrow> bool" where
  "ps_is_empty s \<longleftrightarrow> ps_len s = 0"

definition expiry_order :: "provider_entry \<Rightarrow> u64 \<times> nat" where
  "expiry_order e = (expires_at (pe_record e), admitted_seq e)"

definition eviction_victim :: "providers \<Rightarrow> nat \<Rightarrow> u64 \<Rightarrow> string option" where
  "eviction_victim ps max_per_key now =
     (let by_establishment = sort_key admitted_seq (map snd ps);
          expired = min_by_key expiry_order
                      (filter (\<lambda>e. is_expired (pe_record e) now) by_establishment)
      in case expired of
           Some dead \<Rightarrow> Some (provider_peer_id (pe_record dead))
         | None \<Rightarrow>
             (let established_floor = max_per_key div ESTABLISHED_FLOOR_DIVISOR
              in map_option (\<lambda>e. provider_peer_id (pe_record e))
                   (min_by_key expiry_order (drop established_floor by_establishment))))"

definition ps_lookup :: "provider_store \<Rightarrow> string \<Rightarrow> string \<Rightarrow> provider_entry option" where
  "ps_lookup s ck pid = Option.bind (map_of (by_key s) ck) (\<lambda>ps. map_of ps pid)"

text \<open>The tail of \<open>put_at\<close>: number the admission and insert under the key's (possibly new) map.\<close>

definition ps_admit :: "provider_store \<Rightarrow> provider_record \<Rightarrow> provider_store" where
  "ps_admit s record =
     (let seq = next_admitted_seq s;
          ps = (case map_of (by_key s) (content_key record) of Some ps \<Rightarrow> ps | None \<Rightarrow> [])
      in s\<lparr>next_admitted_seq := seq + 1,
           by_key := AList.update (content_key record)
             (AList.update (provider_peer_id record)
                \<lparr>pe_record = record, admitted_seq = seq\<rparr> ps) (by_key s)\<rparr>)"

definition ps_put_at :: "provider_store \<Rightarrow> provider_record \<Rightarrow> u64 \<Rightarrow> put_outcome \<times> provider_store" where
  "ps_put_at s record now =
     (case ps_lookup s (content_key record) (provider_peer_id record) of
        Some existing \<Rightarrow>
          (Accepted, s\<lparr>by_key := AList.update (content_key record)
             (AList.update (provider_peer_id record) (existing\<lparr>pe_record := record\<rparr>)
                (the (map_of (by_key s) (content_key record)))) (by_key s)\<rparr>)
      | None \<Rightarrow>
          if ps_len s \<ge> max_total_records (limits s) then (RejectedOverCapacity, s)
          else
            (case map_of (by_key s) (content_key record) of
               Some ps \<Rightarrow>
                 if length ps \<ge> max_providers_per_key (limits s)
                 then (case eviction_victim ps (max_providers_per_key (limits s)) now of
                         None \<Rightarrow> (RejectedOverCapacity, s)
                       | Some evict_id \<Rightarrow>
                           (Accepted, ps_admit (s\<lparr>by_key := AList.update (content_key record)
                              (AList.delete evict_id ps) (by_key s)\<rparr>) record))
                 else (Accepted, ps_admit s record)
             | None \<Rightarrow> (Accepted, ps_admit s record)))"

text \<open>\<open>put\<close> reads the clock once and passes it on.\<close>

definition ps_put :: "(unit \<Rightarrow> u64) \<Rightarrow> provider_store \<Rightarrow> provider_record \<Rightarrow> put_outcome \<times> provider_store" where
  "ps_put now_secs s record = ps_put_at s record (now_secs ())"

definition ps_remove :: "provider_store \<Rightarrow> string \<Rightarrow> string \<Rightarrow> bool \<times> provider_store" where
  "ps_remove s ck pid =
     (case map_of (by_key s) ck of
        None \<Rightarrow> (False, s)
      | Some ps \<Rightarrow>
          (let removed = (map_of ps pid \<noteq> None); ps' = AList.delete pid ps
           in (removed,
               if ps' = [] then s\<lparr>by_key := AList.delete ck (by_key s)\<rparr>
               else s\<lparr>by_key := AList.update ck ps' (by_key s)\<rparr>)))"

definition ps_remove_key :: "provider_store \<Rightarrow> string \<Rightarrow> nat \<times> provider_store" where
  "ps_remove_key s ck =
     ((case map_of (by_key s) ck of Some ps \<Rightarrow> length ps | None \<Rightarrow> 0),
      s\<lparr>by_key := AList.delete ck (by_key s)\<rparr>)"

definition ps_get :: "provider_store \<Rightarrow> string \<Rightarrow> u64 \<Rightarrow> provider_record list" where
  "ps_get s ck now =
     (case map_of (by_key s) ck of
        None \<Rightarrow> []
      | Some ps \<Rightarrow> filter (\<lambda>r. \<not> is_expired r now) (map (\<lambda>p. pe_record (snd p)) ps))"

text \<open>\<open>gc\<close>: both \<open>retain\<close> passes, and the count of what the inner one dropped.\<close>

definition live_providers :: "u64 \<Rightarrow> providers \<Rightarrow> providers" where
  "live_providers now ps = filter (\<lambda>p. \<not> is_expired (pe_record (snd p)) now) ps"

definition ps_gc :: "provider_store \<Rightarrow> u64 \<Rightarrow> nat \<times> provider_store" where
  "ps_gc s now =
     (let swept = map (\<lambda>(ck, ps). (ck, live_providers now ps)) (by_key s)
      in ((\<Sum>p\<leftarrow>by_key s. length (snd p) - length (live_providers now (snd p))),
          s\<lparr>by_key := filter (\<lambda>p. snd p \<noteq> []) swept\<rparr>))"

definition ps_mark_announced :: "provider_store \<Rightarrow> string \<Rightarrow> provider_store" where
  "ps_mark_announced s ck = s\<lparr>announced := AList.update ck None (announced s)\<rparr>"

definition ps_mark_announced_with_collateral ::
  "provider_store \<Rightarrow> string \<Rightarrow> string option \<Rightarrow> provider_store" where
  "ps_mark_announced_with_collateral s ck coin = s\<lparr>announced := AList.update ck coin (announced s)\<rparr>"

definition ps_announced_collateral :: "provider_store \<Rightarrow> string \<Rightarrow> string option" where
  "ps_announced_collateral s ck = Option.bind (map_of (announced s) ck) (\<lambda>c. c)"

definition ps_unmark_announced :: "provider_store \<Rightarrow> string \<Rightarrow> bool \<times> provider_store" where
  "ps_unmark_announced s ck =
     (map_of (announced s) ck \<noteq> None, s\<lparr>announced := AList.delete ck (announced s)\<rparr>)"

definition ps_local_announcements :: "provider_store \<Rightarrow> string list" where
  "ps_local_announcements s = map fst (announced s)"

definition ps_snapshot :: "provider_store \<Rightarrow> u64 \<Rightarrow> nat \<Rightarrow> provider_snapshot" where
  "ps_snapshot s now max_keys =
     (let entries = List.map_filter (\<lambda>(ck, ps).
            let live = length (live_providers now ps)
            in if live > 0 then Some \<lparr>se_content_key = ck, se_providers = live\<rparr> else None) (by_key s);
          ordered = sort_key se_content_key entries;
          total_keys = length ordered
      in \<lparr>sn_entries = take max_keys ordered, sn_total_keys = total_keys,
          sn_truncated = (total_keys > max_keys)\<rparr>)"

subsection \<open>The invariant\<close>

text \<open>One key's providers: distinct identities, each filed under the identity and the key its
  record names, admission ordinals distinct and already handed out, never an empty map.\<close>

definition entries_ok :: "nat \<Rightarrow> string \<Rightarrow> providers \<Rightarrow> bool" where
  "entries_ok next_seq ck ps \<longleftrightarrow>
     distinct (map fst ps) \<and> distinct (map (\<lambda>p. admitted_seq (snd p)) ps)
     \<and> (\<forall>p\<in>set ps. provider_peer_id (pe_record (snd p)) = fst p
          \<and> content_key (pe_record (snd p)) = ck \<and> admitted_seq (snd p) < next_seq)"

definition providers_ok :: "nat \<Rightarrow> string \<Rightarrow> providers \<Rightarrow> bool" where
  "providers_ok next_seq ck ps \<longleftrightarrow> ps \<noteq> [] \<and> entries_ok next_seq ck ps"

definition store_ok :: "provider_store \<Rightarrow> bool" where
  "store_ok s \<longleftrightarrow>
     distinct (map fst (by_key s)) \<and> distinct (map fst (announced s))
     \<and> (\<forall>p\<in>set (by_key s). providers_ok (next_admitted_seq s) (fst p) (snd p))"

definition store_bounded :: "provider_store \<Rightarrow> bool" where
  "store_bounded s \<longleftrightarrow>
     ps_len s \<le> max_total_records (limits s)
     \<and> (\<forall>p\<in>set (by_key s). length (snd p) \<le> max 1 (max_providers_per_key (limits s)))"

subsection \<open>The eviction victim\<close>

lemmas floor_def = ESTABLISHED_FLOOR_DIVISOR_def

lemma victim_cases:
  assumes "eviction_victim ps m now = Some v"
  obtains (dead) p e where "(p, e) \<in> set ps" "is_expired (pe_record e) now"
      "v = provider_peer_id (pe_record e)"
      "\<forall>q\<in>set ps. is_expired (pe_record (snd q)) now \<longrightarrow> expiry_order e \<le> expiry_order (snd q)"
  | (live) p e where "(p, e) \<in> set ps" "\<forall>q\<in>set ps. \<not> is_expired (pe_record (snd q)) now"
      "v = provider_peer_id (pe_record e)"
      "e \<in> set (drop (m div 2) (sort_key admitted_seq (map snd ps)))"
      "\<forall>q\<in>set (drop (m div 2) (sort_key admitted_seq (map snd ps))). expiry_order e \<le> expiry_order q"
proof -
  let ?s = "sort_key admitted_seq (map snd ps)"
  let ?dead = "filter (\<lambda>e. is_expired (pe_record e) now) ?s"
  show thesis
  proof (cases "min_by_key expiry_order ?dead")
    case (Some e)
    from min_by_key_Some[OF Some] obtain p where p: "(p, e) \<in> set ps"
      "is_expired (pe_record e) now" by auto
    moreover have "\<forall>q\<in>set ps. is_expired (pe_record (snd q)) now \<longrightarrow> expiry_order e \<le> expiry_order (snd q)"
      using min_by_key_Some[OF Some] by auto
    moreover have "v = provider_peer_id (pe_record e)"
      using assms Some by (simp add: eviction_victim_def)
    ultimately show thesis by (intro dead)
  next
    case None
    then have live_all: "\<forall>q\<in>set ps. \<not> is_expired (pe_record (snd q)) now"
      by (auto simp: filter_empty_conv)
    from assms None obtain e where e: "min_by_key expiry_order (drop (m div 2) ?s) = Some e"
      "v = provider_peer_id (pe_record e)"
      by (auto simp: eviction_victim_def floor_def)
    from min_by_key_Some[OF e(1)] have "e \<in> set (drop (m div 2) ?s)"
      "\<forall>q\<in>set (drop (m div 2) ?s). expiry_order e \<le> expiry_order q" by auto
    moreover from this(1) obtain p where "(p, e) \<in> set ps" by (auto dest!: in_set_dropD)
    ultimately show thesis using live_all e(2) by (intro live)
  qed
qed

lemma victim_total:
  assumes "ps \<noteq> []" "m \<le> length ps"
  shows "eviction_victim ps m now \<noteq> None"
proof -
  have "m div 2 < length ps" using assms by (cases "m = 0") auto
  then have "drop (m div 2) (sort_key admitted_seq (map snd ps)) \<noteq> []" by simp
  then obtain e where "min_by_key expiry_order (drop (m div 2) (sort_key admitted_seq (map snd ps))) = Some e"
    using min_by_key_None by (metis not_None_eq)
  then show ?thesis by (auto simp: eviction_victim_def floor_def Let_def split: option.split)
qed

lemma victim_mem:
  assumes "entries_ok n ck ps" "eviction_victim ps m now = Some v"
  shows "\<exists>e. (v, e) \<in> set ps"
  using assms(2)
proof (cases rule: victim_cases)
  case (dead p e)
  with assms(1) show ?thesis by (force simp: entries_ok_def)
next
  case (live p e)
  with assms(1) show ?thesis by (force simp: entries_ok_def)
qed

text \<open>How many providers of the key were admitted before an entry.\<close>

definition seniority :: "providers \<Rightarrow> provider_entry \<Rightarrow> nat" where
  "seniority ps e = length (filter (\<lambda>p. admitted_seq (snd p) < admitted_seq e) ps)"

lemma victim_not_established:
  assumes "entries_ok n ck ps" "(p, e) \<in> set ps" "\<not> is_expired (pe_record e) now"
    "seniority ps e < m div 2" "eviction_victim ps m now = Some v"
  shows "v \<noteq> p"
proof
  assume "v = p"
  have id: "provider_peer_id (pe_record (snd q)) = fst q" if "q \<in> set ps" for q
    using that assms(1) by (simp add: entries_ok_def)
  have same: "e' = e" if "(q, e') \<in> set ps" "v = provider_peer_id (pe_record e')" for q e'
    using id[OF that(1)] that \<open>v = p\<close> assms(1,2)
    by (auto simp: entries_ok_def dest: eq_key_imp_eq_value)
  from assms(5) show False
  proof (cases rule: victim_cases)
    case (dead q e')
    with same assms(3) show False by blast
  next
    case (live q e')
    with same have e: "e' = e" by blast
    have "distinct (map admitted_seq (map snd ps))"
      using assms(1) by (simp add: entries_ok_def comp_def)
    from sort_key_drop_rank[OF this live(4)] have "m div 2 \<le> seniority ps e"
      by (simp add: e seniority_def filter_map comp_def)
    with assms(4) show False by simp
  qed
qed

lemma victim_order_independent:
  assumes "entries_ok n ck ps" "mset ps = mset ps'"
  shows "eviction_victim ps m now = eviction_victim ps' m now"
proof -
  have d: "distinct (map admitted_seq (map snd ps))"
    using assms(1) by (simp add: entries_ok_def comp_def)
  have "mset (map snd ps) = mset (map snd ps')" using assms(2) by simp
  moreover have "inj_on admitted_seq (set (map snd ps))" using d by (simp only: distinct_map)
  ultimately have "sort_key admitted_seq (map snd ps) = sort_key admitted_seq (map snd ps')"
    by (intro sort_key_inj_key_eq) auto
  then show ?thesis by (simp only: eviction_victim_def)
qed

subsection \<open>Admission\<close>

lemma lookup_update [simp]:
  "ps_lookup (s\<lparr>by_key := AList.update ck ps (by_key s)\<rparr>) ck' pid =
     (if ck' = ck then map_of ps pid else ps_lookup s ck' pid)"
  by (simp add: ps_lookup_def map_of_update)

lemma admit_lookup:
  "ps_lookup (ps_admit s r) ck pid =
     (if ck = content_key r \<and> pid = provider_peer_id r
      then Some \<lparr>pe_record = r, admitted_seq = next_admitted_seq s\<rparr> else ps_lookup s ck pid)"
  by (auto simp: ps_admit_def ps_lookup_def map_of_update Let_def split: option.split)

lemma put_at_cases:
  assumes "ps_put_at s r now = (outcome, s')"
  obtains (refresh) ps old where "map_of (by_key s) (content_key r) = Some ps"
      "map_of ps (provider_peer_id r) = Some old" "outcome = Accepted"
      "s' = s\<lparr>by_key := AList.update (content_key r)
         (AList.update (provider_peer_id r) (old\<lparr>pe_record := r\<rparr>) ps) (by_key s)\<rparr>"
  | (full) "ps_lookup s (content_key r) (provider_peer_id r) = None"
      "max_total_records (limits s) \<le> ps_len s" "outcome = RejectedOverCapacity" "s' = s"
  | (stuck) ps where "map_of (by_key s) (content_key r) = Some ps"
      "max_providers_per_key (limits s) \<le> length ps"
      "eviction_victim ps (max_providers_per_key (limits s)) now = None"
      "outcome = RejectedOverCapacity" "s' = s"
  | (plain) "ps_lookup s (content_key r) (provider_peer_id r) = None"
      "ps_len s < max_total_records (limits s)"
      "\<forall>ps. map_of (by_key s) (content_key r) = Some ps \<longrightarrow> length ps < max_providers_per_key (limits s)"
      "outcome = Accepted" "s' = ps_admit s r"
  | (evict) ps v where "map_of (by_key s) (content_key r) = Some ps"
      "map_of ps (provider_peer_id r) = None" "ps_len s < max_total_records (limits s)"
      "max_providers_per_key (limits s) \<le> length ps"
      "eviction_victim ps (max_providers_per_key (limits s)) now = Some v" "outcome = Accepted"
      "s' = ps_admit (s\<lparr>by_key := AList.update (content_key r) (AList.delete v ps) (by_key s)\<rparr>) r"
proof (cases "ps_lookup s (content_key r) (provider_peer_id r)")
  case (Some old)
  then obtain ps where "map_of (by_key s) (content_key r) = Some ps"
    "map_of ps (provider_peer_id r) = Some old"
    by (auto simp: ps_lookup_def bind_eq_Some_conv)
  with Some assms show thesis by (intro refresh[of ps old]) (auto simp: ps_put_at_def)
next
  case None
  show thesis
  proof (cases "max_total_records (limits s) \<le> ps_len s")
    case True
    with None assms show thesis by (intro full) (simp_all add: ps_put_at_def)
  next
    case room: False
    show thesis
    proof (cases "map_of (by_key s) (content_key r)")
      case no_key: None
      with None room assms show thesis by (intro plain) (simp_all add: ps_put_at_def)
    next
      case (Some ps)
      show thesis
      proof (cases "max_providers_per_key (limits s) \<le> length ps")
        case False
        with None room Some assms show thesis by (intro plain) (simp_all add: ps_put_at_def)
      next
        case cap: True
        have new: "map_of ps (provider_peer_id r) = None"
          using None Some by (simp add: ps_lookup_def)
        show thesis
        proof (cases "eviction_victim ps (max_providers_per_key (limits s)) now")
          case vn: None
          with None room Some cap assms show thesis by (intro stuck[of ps]) (simp_all add: ps_put_at_def)
        next
          case (Some v)
          with None room cap new \<open>map_of (by_key s) (content_key r) = Some ps\<close> assms show thesis
            by (intro evict[of ps v]) (simp_all add: ps_put_at_def)
        qed
      qed
    qed
  qed
qed

subsection \<open>Preservation of the invariant\<close>

lemma entries_ok_mono: "entries_ok n ck ps \<Longrightarrow> n \<le> m \<Longrightarrow> entries_ok m ck ps"
  by (fastforce simp: entries_ok_def)

lemma entries_ok_filter: "entries_ok n ck ps \<Longrightarrow> entries_ok n ck (filter P ps)"
  by (auto simp: entries_ok_def distinct_map_filter)

lemma entries_ok_delete: "entries_ok n ck ps \<Longrightarrow> entries_ok n ck (AList.delete v ps)"
  by (simp add: AList.delete_eq entries_ok_filter)

lemma entries_ok_Nil [simp]: "entries_ok n ck []"
  by (simp add: entries_ok_def)

lemma distinct_snd_update_fresh:
  assumes "distinct (map (\<lambda>p. f (snd p)) ps)" "\<forall>p\<in>set ps. f (snd p) \<noteq> f v"
  shows "distinct (map (\<lambda>p. f (snd p)) (AList.update k v ps))"
  using assms
proof (induction ps)
  case (Cons q ps)
  have "f (snd q) \<notin> (\<lambda>p. f (snd p)) ` set (AList.update k v ps)"
    using Cons.prems by (auto dest!: subsetD[OF set_update_subset])
  with Cons show ?case by (auto split: if_splits)
qed simp

lemma entries_ok_insert:
  assumes "entries_ok n ck ps" "content_key r = ck"
  shows "entries_ok (Suc n) ck
     (AList.update (provider_peer_id r) \<lparr>pe_record = r, admitted_seq = n\<rparr> ps)"
  using assms set_update_subset[of "provider_peer_id r" "\<lparr>pe_record = r, admitted_seq = n\<rparr>" ps]
  by (auto simp: entries_ok_def distinct_keys_update less_Suc_eq intro!: distinct_snd_update_fresh)

lemma entries_ok_refresh:
  assumes "entries_ok n ck ps" "content_key r = ck" "map_of ps (provider_peer_id r) = Some old"
  shows "entries_ok n ck (AList.update (provider_peer_id r) (old\<lparr>pe_record := r\<rparr>) ps)"
proof -
  let ?k = "provider_peer_id r" and ?v = "old\<lparr>pe_record := r\<rparr>"
  have d: "distinct (map fst ps)" using assms(1) by (simp add: entries_ok_def)
  have same: "admitted_seq (snd p) = admitted_seq old" if "p \<in> set ps" "fst p = ?k" for p
  proof -
    have "(?k, snd p) \<in> set ps" using that by (metis prod.collapse)
    then have "map_of ps ?k = Some (snd p)" using map_of_mem[OF d] by blast
    with assms(3) show ?thesis by simp
  qed
  have "map (\<lambda>p. admitted_seq (snd p)) (AList.update ?k ?v ps) = map (\<lambda>p. admitted_seq (snd p)) ps"
    using same by (simp add: update_as_map[OF d assms(3)])
  moreover have "\<forall>p\<in>set (AList.update ?k ?v ps). provider_peer_id (pe_record (snd p)) = fst p
          \<and> content_key (pe_record (snd p)) = ck \<and> admitted_seq (snd p) < n"
    using assms map_of_SomeD[OF assms(3)] set_update_subset[of ?k ?v ps]
    by (fastforce simp: entries_ok_def)
  ultimately show ?thesis
    using assms(1) by (simp add: entries_ok_def distinct_keys_update)
qed

lemma admit_store_ok:
  assumes "distinct (map fst (by_key s))" "distinct (map fst (announced s))"
    "\<forall>p\<in>set (by_key s). entries_ok (next_admitted_seq s) (fst p) (snd p)
       \<and> (fst p \<noteq> content_key r \<longrightarrow> snd p \<noteq> [])"
  shows "store_ok (ps_admit s r)"
proof -
  define ps where "ps = (case map_of (by_key s) (content_key r) of Some ps \<Rightarrow> ps | None \<Rightarrow> [])"
  define ps' where "ps' = AList.update (provider_peer_id r)
      \<lparr>pe_record = r, admitted_seq = next_admitted_seq s\<rparr> ps"
  have eq: "ps_admit s r = s\<lparr>next_admitted_seq := next_admitted_seq s + 1,
      by_key := AList.update (content_key r) ps' (by_key s)\<rparr>"
    by (simp add: ps_admit_def ps_def ps'_def Let_def)
  have "entries_ok (next_admitted_seq s) (content_key r) ps"
    using assms(3) by (auto simp: ps_def split: option.split dest!: map_of_SomeD)
  then have "providers_ok (next_admitted_seq s + 1) (content_key r) ps'"
    by (simp add: ps'_def providers_ok_def entries_ok_insert)
  moreover have "providers_ok (next_admitted_seq s + 1) (fst p) (snd p)"
    if "p \<in> set (by_key s)" "fst p \<noteq> content_key r" for p
    using that assms(3) entries_ok_mono by (auto simp: providers_ok_def)
  ultimately show ?thesis
    using assms(1,2) by (auto simp: store_ok_def eq distinct_keys_update set_update_distinct)
qed

lemma store_ok_entries:
  "store_ok s \<Longrightarrow> map_of (by_key s) ck = Some ps \<Longrightarrow> ps \<noteq> [] \<and> entries_ok (next_admitted_seq s) ck ps"
  by (auto simp: store_ok_def providers_ok_def dest!: map_of_SomeD)

lemma update_store_ok:
  assumes "store_ok s" "providers_ok (next_admitted_seq s) ck ps"
  shows "store_ok (s\<lparr>by_key := AList.update ck ps (by_key s)\<rparr>)"
  using assms by (auto simp: store_ok_def distinct_keys_update set_update_distinct)

lemma put_at_ok:
  assumes "store_ok s" "ps_put_at s r now = (outcome, s')"
  shows "store_ok s'"
  using assms(2)
proof (cases rule: put_at_cases)
  case (refresh ps old)
  with store_ok_entries[OF assms(1) refresh(1)] assms(1) show ?thesis
    by (auto intro!: update_store_ok simp: providers_ok_def entries_ok_refresh)
next
  case plain
  have "store_ok (ps_admit s r)" using assms(1)
    by (intro admit_store_ok) (auto simp: store_ok_def providers_ok_def)
  with plain show ?thesis by simp
next
  case (evict ps v)
  have "entries_ok (next_admitted_seq s) (content_key r) (AList.delete v ps)"
    using store_ok_entries[OF assms(1) evict(1)] by (simp add: entries_ok_delete)
  then have "store_ok (ps_admit (s\<lparr>by_key := AList.update (content_key r) (AList.delete v ps) (by_key s)\<rparr>) r)"
    using assms(1)
    by (intro admit_store_ok)
      (auto simp: store_ok_def providers_ok_def distinct_keys_update set_update_distinct)
  with evict show ?thesis by simp
qed (use assms(1) in simp_all)

lemma len_admit:
  assumes "distinct (map fst (by_key s))" "ps_lookup s (content_key r) (provider_peer_id r) = None"
  shows "ps_len (ps_admit s r) = ps_len s + 1"
proof (cases "map_of (by_key s) (content_key r)")
  case None
  then show ?thesis
    by (simp add: ps_admit_def ps_len_def sum_update_absent Let_def)
next
  case (Some ps)
  with assms(2) have "map_of ps (provider_peer_id r) = None" by (simp add: ps_lookup_def)
  then have l: "length (AList.update (provider_peer_id r) e ps) = Suc (length ps)" for e
    by (rule length_update_absent)
  show ?thesis
    using sum_update_present[OF assms(1) Some, of length "AList.update (provider_peer_id r)
        \<lparr>pe_record = r, admitted_seq = next_admitted_seq s\<rparr> ps"]
    unfolding l by (simp add: ps_admit_def ps_len_def Let_def Some)
qed

subsection \<open>Bounds\<close>

lemma limits_admit [simp]: "limits (ps_admit s r) = limits s"
  by (simp add: ps_admit_def Let_def)

lemma announced_admit [simp]: "announced (ps_admit s r) = announced s"
  by (simp add: ps_admit_def Let_def)

lemma admit_key_sizes:
  assumes "distinct (map fst (by_key s))" "ps_lookup s (content_key r) (provider_peer_id r) = None"
    "p \<in> set (by_key (ps_admit s r))"
  shows "p \<in> set (by_key s) \<or> length (snd p) =
     Suc (case map_of (by_key s) (content_key r) of None \<Rightarrow> 0 | Some ps \<Rightarrow> length ps)"
proof (cases "map_of (by_key s) (content_key r)")
  case None
  with assms(1,3) show ?thesis by (auto simp: ps_admit_def Let_def set_update_distinct)
next
  case (Some ps)
  with assms(2) have "map_of ps (provider_peer_id r) = None" by (simp add: ps_lookup_def)
  from length_update_absent[OF this] Some assms(1,3) show ?thesis
    by (auto simp: ps_admit_def Let_def set_update_distinct)
qed

lemma victim_len:
  assumes "store_ok s" "map_of (by_key s) ck = Some ps" "eviction_victim ps m now = Some v"
  shows "Suc (length (AList.delete v ps)) = length ps"
    "Suc (ps_len (s\<lparr>by_key := AList.update ck (AList.delete v ps) (by_key s)\<rparr>)) = ps_len s"
proof -
  note ok = store_ok_entries[OF assms(1,2)]
  then have d: "distinct (map fst ps)" by (simp add: entries_ok_def)
  from ok victim_mem[OF _ assms(3)] obtain e where "(v, e) \<in> set ps" by blast
  then have "map_of ps v = Some e" using map_of_mem[OF d] by blast
  from length_delete_present[OF d this] show l: "Suc (length (AList.delete v ps)) = length ps" .
  have dk: "distinct (map fst (by_key s))" using assms(1) by (simp add: store_ok_def)
  from sum_update_present[OF dk assms(2), of length "AList.delete v ps"] l
  show "Suc (ps_len (s\<lparr>by_key := AList.update ck (AList.delete v ps) (by_key s)\<rparr>)) = ps_len s"
    by (simp add: ps_len_def)
qed

lemma put_at_limits: "ps_put_at s r now = (outcome, s') \<Longrightarrow> limits s' = limits s"
  by (erule put_at_cases) simp_all

lemma put_at_announced: "ps_put_at s r now = (outcome, s') \<Longrightarrow> announced s' = announced s"
  by (erule put_at_cases) simp_all

lemma evict_store_distinct:
  "store_ok s \<Longrightarrow> distinct (map fst (by_key (s\<lparr>by_key := AList.update ck ps (by_key s)\<rparr>)))"
  by (simp add: store_ok_def distinct_keys_update)

lemma put_at_bounded:
  assumes "store_ok s" "store_bounded s" "ps_put_at s r now = (outcome, s')"
  shows "store_bounded s'"
proof -
  let ?cap = "max_providers_per_key (limits s)" and ?ck = "content_key r" and ?pid = "provider_peer_id r"
  have dk: "distinct (map fst (by_key s))" using assms(1) by (simp add: store_ok_def)
  from assms(3) show ?thesis
  proof (cases rule: put_at_cases)
    case (refresh ps old)
    let ?ps' = "AList.update ?pid (old\<lparr>pe_record := r\<rparr>) ps"
    have "distinct (map fst ps)" using store_ok_entries[OF assms(1) refresh(1)] by (simp add: entries_ok_def)
    then have l: "length ?ps' = length ps" using refresh(2) by (rule length_update_present)
    then have "ps_len s' = ps_len s"
      using sum_update_present[OF dk refresh(1), of length ?ps'] by (simp add: refresh(4) ps_len_def)
    moreover have "(?ck, ps) \<in> set (by_key s)" using refresh(1) by (rule map_of_SomeD)
    ultimately show ?thesis
      using assms(2) l by (fastforce simp: store_bounded_def refresh(4) set_update_distinct[OF dk])
  next
    case plain
    have "length (snd p) \<le> max 1 ?cap" if "p \<in> set (by_key s')" for p
      using admit_key_sizes[OF dk plain(1), of p] that plain(3,5) assms(2)
      by (auto simp: store_bounded_def split: option.splits)
    with plain(2,5) len_admit[OF dk plain(1)] show ?thesis by (simp add: store_bounded_def)
  next
    case (evict ps v)
    let ?s = "s\<lparr>by_key := AList.update ?ck (AList.delete v ps) (by_key s)\<rparr>"
    have none: "ps_lookup ?s ?ck ?pid = None" using evict(2) by (simp add: map_of_delete)
    note d' = evict_store_distinct[OF assms(1), of ?ck "AList.delete v ps"]
    note vl = victim_len[OF assms(1) evict(1,5)]
    have ps: "length ps \<le> max 1 ?cap"
      using assms(2) map_of_SomeD[OF evict(1)] by (fastforce simp: store_bounded_def)
    have "length (snd p) \<le> max 1 ?cap" if "p \<in> set (by_key s')" for p
    proof -
      have "p \<in> set (by_key ?s) \<or> length (snd p) = length ps"
        using admit_key_sizes[OF d' none, of p] that vl(1) by (simp add: evict(7) map_of_update)
      then show ?thesis
        using ps vl(1) assms(2) by (auto simp: store_bounded_def set_update_distinct[OF dk])
    qed
    moreover have "ps_len s' = ps_len s" using len_admit[OF d' none] vl(2) by (simp add: evict(7))
    ultimately show ?thesis using assms(2) evict(7) by (simp add: store_bounded_def)
  qed (use assms(2) in simp_all)
qed

subsection \<open>The remaining operations\<close>

lemma remove_cases:
  assumes "ps_remove s ck pid = (removed, s')"
  obtains (no_key) "map_of (by_key s) ck = None" "removed = False" "s' = s"
  | (last) ps where "map_of (by_key s) ck = Some ps" "removed = (map_of ps pid \<noteq> None)"
      "AList.delete pid ps = []" "s' = s\<lparr>by_key := AList.delete ck (by_key s)\<rparr>"
  | (rest) ps where "map_of (by_key s) ck = Some ps" "removed = (map_of ps pid \<noteq> None)"
      "AList.delete pid ps \<noteq> []" "s' = s\<lparr>by_key := AList.update ck (AList.delete pid ps) (by_key s)\<rparr>"
  using assms by (cases "map_of (by_key s) ck") (auto simp: ps_remove_def Let_def split: if_splits)

lemma delete_key_ok: "store_ok s \<Longrightarrow> store_ok (s\<lparr>by_key := AList.delete ck (by_key s)\<rparr>)"
  by (auto simp: store_ok_def distinct_keys_delete set_delete)

lemma delete_key_bounded:
  assumes "store_bounded s"
  shows "store_bounded (s\<lparr>by_key := AList.delete ck (by_key s)\<rparr>)"
proof -
  have "(\<Sum>p\<leftarrow>AList.delete ck m. length (snd p)) \<le> (\<Sum>p\<leftarrow>m. length (snd p))"
    for m :: "(string \<times> providers) list"
    by (induction m) auto
  from this[of "by_key s"] assms show ?thesis by (auto simp: store_bounded_def ps_len_def set_delete)
qed

lemma remove_ok:
  assumes "store_ok s" "ps_remove s ck pid = (removed, s')"
  shows "store_ok s'"
  using assms(2)
proof (cases rule: remove_cases)
  case (rest ps)
  with store_ok_entries[OF assms(1) rest(1)] assms(1) show ?thesis
    by (auto intro!: update_store_ok simp: providers_ok_def entries_ok_delete)
qed (use assms(1) in \<open>simp_all add: delete_key_ok\<close>)

lemma remove_bounded:
  assumes "store_ok s" "store_bounded s" "ps_remove s ck pid = (removed, s')"
  shows "store_bounded s'"
  using assms(3)
proof (cases rule: remove_cases)
  case (rest ps)
  have dk: "distinct (map fst (by_key s))" using assms(1) by (simp add: store_ok_def)
  have l: "length (AList.delete pid ps) \<le> length ps" by (simp add: AList.delete_eq)
  have "(ck, ps) \<in> set (by_key s)" using rest(1) by (rule map_of_SomeD)
  with l sum_update_present[OF dk rest(1), of length "AList.delete pid ps"] assms(2)
  show ?thesis
    by (fastforce simp: store_bounded_def rest(4) ps_len_def set_update_distinct[OF dk])
qed (use assms(2) in \<open>simp_all add: delete_key_bounded\<close>)

lemma map_of_sweep:
  "distinct (map fst m) \<Longrightarrow>
   map_of (filter (\<lambda>p. snd p \<noteq> []) (map (\<lambda>(k, v). (k, f v)) m)) k =
     (case map_of m k of None \<Rightarrow> None | Some v \<Rightarrow> if f v = [] then None else Some (f v))"
proof (induction m)
  case (Cons p m)
  have "map_of m (fst p) = None" using Cons.prems by (simp add: map_of_eq_None_iff)
  with Cons show ?case by (cases p) auto
qed simp

lemma gc_ok:
  assumes "store_ok s"
  shows "store_ok (snd (ps_gc s now))"
proof -
  let ?sw = "map (\<lambda>(ck, ps). (ck, live_providers now ps)) (by_key s)"
  have "map fst ?sw = map fst (by_key s)" by (auto split: prod.split)
  then have "distinct (map fst ?sw)" using assms by (simp only: store_ok_def)
  then have "distinct (map fst (filter (\<lambda>p. snd p \<noteq> []) ?sw))" by (rule distinct_map_filter)
  with assms show ?thesis
    by (auto simp: store_ok_def ps_gc_def Let_def providers_ok_def live_providers_def entries_ok_filter)
qed

lemma gc_len: "fst (ps_gc s now) + ps_len (snd (ps_gc s now)) = ps_len s"
proof -
  have "(\<Sum>p\<leftarrow>m. length (snd p) - length (live_providers now (snd p)))
      + (\<Sum>p\<leftarrow>filter (\<lambda>p. snd p \<noteq> []) (map (\<lambda>(ck, ps). (ck, live_providers now ps)) m). length (snd p))
      = (\<Sum>p\<leftarrow>m. length (snd p))" for m :: "(string \<times> providers) list"
  proof (induction m)
    case (Cons p m)
    have "length (live_providers now (snd p)) \<le> length (snd p)" by (simp add: live_providers_def)
    with Cons show ?case by (cases p) auto
  qed simp
  then show ?thesis by (simp add: ps_gc_def ps_len_def Let_def)
qed

lemma gc_bounded:
  assumes "store_bounded s"
  shows "store_bounded (snd (ps_gc s now))"
proof -
  have "length (live_providers now ps) \<le> length ps" for ps by (simp add: live_providers_def)
  then have "\<forall>p\<in>set (by_key (snd (ps_gc s now))).
      length (snd p) \<le> max 1 (max_providers_per_key (limits s))"
    using assms by (fastforce simp: store_bounded_def ps_gc_def Let_def intro: order_trans)
  moreover have "ps_len (snd (ps_gc s now)) \<le> ps_len s" using gc_len[of s now] by simp
  moreover have "limits (snd (ps_gc s now)) = limits s" by (simp add: ps_gc_def Let_def)
  ultimately show ?thesis using assms by (simp add: store_bounded_def)
qed

subsection \<open>Reading\<close>

lemma get_mem:
  assumes "store_ok s"
  shows "r \<in> set (ps_get s ck now) \<longleftrightarrow>
    (\<exists>pid e. ps_lookup s ck pid = Some e \<and> pe_record e = r \<and> \<not> is_expired r now)"
proof (cases "map_of (by_key s) ck")
  case None
  then show ?thesis by (simp add: ps_get_def ps_lookup_def)
next
  case (Some ps)
  have d: "distinct (map fst ps)" using store_ok_entries[OF assms Some] by (simp add: entries_ok_def)
  show ?thesis
    using Some by (force simp: ps_get_def ps_lookup_def map_of_mem[OF d])
qed

lemma lookup_record:
  assumes "store_ok s" "ps_lookup s ck pid = Some e"
  shows "provider_peer_id (pe_record e) = pid \<and> content_key (pe_record e) = ck
    \<and> admitted_seq e < next_admitted_seq s"
proof -
  from assms(2) obtain ps where ps: "map_of (by_key s) ck = Some ps" "map_of ps pid = Some e"
    by (auto simp: ps_lookup_def bind_eq_Some_conv)
  with store_ok_entries[OF assms(1) ps(1)] map_of_SomeD[OF ps(2)] show ?thesis
    by (auto simp: entries_ok_def)
qed

lemma get_distinct:
  assumes "store_ok s"
  shows "distinct (map provider_peer_id (ps_get s ck now))"
proof (cases "map_of (by_key s) ck")
  case (Some ps)
  have ok: "entries_ok (next_admitted_seq s) ck ps" using store_ok_entries[OF assms Some] by simp
  then have "map provider_peer_id (map (\<lambda>p. pe_record (snd p)) ps) = map fst ps"
    by (auto simp: entries_ok_def)
  then have "distinct (map provider_peer_id (map (\<lambda>p. pe_record (snd p)) ps))"
    using ok by (simp only: entries_ok_def)
  then show ?thesis using Some by (simp only: ps_get_def option.case distinct_map_filter)
qed (simp add: ps_get_def)

lemma get_cong: "map_of (by_key s) ck = map_of (by_key s') ck \<Longrightarrow> ps_get s ck now = ps_get s' ck now"
  by (simp add: ps_get_def)

lemma put_at_other_key:
  "ps_put_at s r now = (outcome, s') \<Longrightarrow> ck \<noteq> content_key r \<Longrightarrow>
   map_of (by_key s') ck = map_of (by_key s) ck"
  by (erule put_at_cases) (auto simp: ps_admit_def Let_def map_of_update)

lemma put_at_accepted_lookup:
  assumes "ps_put_at s r now = (Accepted, s')"
  shows "\<exists>e. ps_lookup s' (content_key r) (provider_peer_id r) = Some e \<and> pe_record e = r"
  using assms by (cases rule: put_at_cases) (auto simp: admit_lookup map_of_update)

text \<open>The records a store holds, under any key.\<close>

definition ps_records :: "provider_store \<Rightarrow> provider_record set" where
  "ps_records s = {pe_record e | ck pid e. ps_lookup s ck pid = Some e}"

lemma records_mem: "x \<in> ps_records s \<longleftrightarrow> (\<exists>ck pid e. ps_lookup s ck pid = Some e \<and> pe_record e = x)"
  by (auto simp: ps_records_def)

lemma admit_records: "ps_records (ps_admit s r) \<subseteq> insert r (ps_records s)"
proof
  fix x assume "x \<in> ps_records (ps_admit s r)"
  then obtain ck pid e where e: "ps_lookup (ps_admit s r) ck pid = Some e" "pe_record e = x"
    by (auto simp: records_mem)
  then show "x \<in> insert r (ps_records s)"
    by (cases "ck = content_key r \<and> pid = provider_peer_id r") (auto simp: admit_lookup records_mem)
qed

lemma evict_records:
  assumes "map_of (by_key s) ck = Some ps"
  shows "ps_records (s\<lparr>by_key := AList.update ck (AList.delete v ps) (by_key s)\<rparr>) \<subseteq> ps_records s"
proof -
  have "map_of ps pid = ps_lookup s ck pid" for pid using assms by (simp add: ps_lookup_def)
  then have "ps_lookup (s\<lparr>by_key := AList.update ck (AList.delete v ps) (by_key s)\<rparr>) ck' pid = Some e \<Longrightarrow>
      ps_lookup s ck' pid = Some e" for ck' pid e
    by (simp add: map_of_delete split: if_splits)
  then show ?thesis unfolding ps_records_def by blast
qed

lemma put_at_records:
  assumes "ps_put_at s r now = (outcome, s')"
  shows "ps_records s' \<subseteq> insert r (ps_records s)"
  using assms
proof (cases rule: put_at_cases)
  case (refresh ps old)
  have "map_of ps pid = ps_lookup s (content_key r) pid" for pid
    using refresh(1) by (simp add: ps_lookup_def)
  then have "ps_lookup s' ck pid = Some e \<Longrightarrow> pe_record e = r \<or> ps_lookup s ck pid = Some e" for ck pid e
    by (auto simp: refresh(4) map_of_update split: if_splits)
  then show ?thesis unfolding ps_records_def by blast
next
  case plain
  then show ?thesis using admit_records by simp
next
  case (evict ps v)
  then show ?thesis using admit_records evict_records[OF evict(1)] by fastforce
qed auto

subsection \<open>The store as seen by its clients\<close>

text \<open>What the service relies on when it feeds a batch of records to a store: a put keeps the
  store's invariant and holds nothing but what was there and the record put.\<close>

locale admission_store =
  fixes put :: "'s \<Rightarrow> 'r \<Rightarrow> 't \<Rightarrow> 'o \<times> 's"
    and inv :: "'s \<Rightarrow> bool"
    and stored :: "'s \<Rightarrow> 'r set"
  assumes put_inv: "inv s \<Longrightarrow> inv (snd (put s r now))"
    and put_stored: "stored (snd (put s r now)) \<subseteq> insert r (stored s)"
begin

lemma batch_inv: "inv s \<Longrightarrow> inv (fold (\<lambda>r s. snd (put s r now)) rs s)"
  by (induction rs arbitrary: s) (simp_all add: put_inv)

lemma batch_stored: "stored (fold (\<lambda>r s. snd (put s r now)) rs s) \<subseteq> set rs \<union> stored s"
proof (induction rs arbitrary: s)
  case (Cons r rs)
  from Cons[of "snd (put s r now)"] put_stored[of s r now] show ?case by auto
qed simp

lemma batch_all:
  "(\<forall>r\<in>stored s. P r) \<Longrightarrow> (\<forall>r\<in>set rs. P r) \<Longrightarrow>
   \<forall>r\<in>stored (fold (\<lambda>r s. snd (put s r now)) rs s). P r"
  using batch_stored[of now rs s] by blast

end

definition store_inv :: "provider_store \<Rightarrow> bool" where
  "store_inv s \<longleftrightarrow> store_ok s \<and> store_bounded s"

lemma put_at_inv: "store_inv s \<Longrightarrow> store_inv (snd (ps_put_at s r now))"
  by (cases "ps_put_at s r now") (auto simp: store_inv_def put_at_ok put_at_bounded)

interpretation provider_admission: admission_store ps_put_at store_inv ps_records
proof
  fix s :: provider_store and r now
  show "ps_records (snd (ps_put_at s r now)) \<subseteq> insert r (ps_records s)"
    by (cases "ps_put_at s r now") (simp add: put_at_records)
qed (rule put_at_inv)

subsection \<open>Runs\<close>

datatype store_op =
    OpPut provider_record u64
  | OpRemove string string
  | OpRemoveKey string
  | OpGc u64
  | OpMark string "string option"
  | OpUnmark string

fun store_step :: "provider_store \<Rightarrow> store_op \<Rightarrow> provider_store" where
  "store_step s (OpPut r now) = snd (ps_put_at s r now)"
| "store_step s (OpRemove ck pid) = snd (ps_remove s ck pid)"
| "store_step s (OpRemoveKey ck) = snd (ps_remove_key s ck)"
| "store_step s (OpGc now) = snd (ps_gc s now)"
| "store_step s (OpMark ck coin) = ps_mark_announced_with_collateral s ck coin"
| "store_step s (OpUnmark ck) = snd (ps_unmark_announced s ck)"

lemma remove_inv: "store_inv s \<Longrightarrow> store_inv (snd (ps_remove s ck pid))"
  using remove_ok[of s ck pid "fst (ps_remove s ck pid)" "snd (ps_remove s ck pid)"]
    remove_bounded[of s ck pid "fst (ps_remove s ck pid)" "snd (ps_remove s ck pid)"]
  by (simp add: store_inv_def)

lemma gc_inv: "store_inv s \<Longrightarrow> store_inv (snd (ps_gc s now))"
  by (simp add: store_inv_def gc_ok gc_bounded)

lemma remove_key_inv: "store_inv s \<Longrightarrow> store_inv (snd (ps_remove_key s ck))"
  by (simp add: store_inv_def ps_remove_key_def delete_key_ok delete_key_bounded)

lemma announced_inv:
  "store_inv s \<Longrightarrow> distinct (map fst a) \<Longrightarrow> store_inv (s\<lparr>announced := a\<rparr>)"
  by (simp add: store_inv_def store_ok_def store_bounded_def ps_len_def)

lemma mark_inv: "store_inv s \<Longrightarrow> store_inv (ps_mark_announced_with_collateral s ck coin)"
  unfolding ps_mark_announced_with_collateral_def
  by (rule announced_inv) (auto simp: store_inv_def store_ok_def)

lemma unmark_inv: "store_inv s \<Longrightarrow> store_inv (snd (ps_unmark_announced s ck))"
  unfolding ps_unmark_announced_def snd_conv
  by (rule announced_inv) (auto simp: store_inv_def store_ok_def)

lemma store_step_inv: "store_inv s \<Longrightarrow> store_inv (store_step s op)"
  by (cases op) (simp_all add: put_at_inv remove_inv gc_inv remove_key_inv mark_inv unmark_inv)

lemma store_run_inv: "store_inv s \<Longrightarrow> store_inv (foldl store_step s ops)"
  by (induction ops arbitrary: s) (simp_all add: store_step_inv)

lemma empty_store_inv: "store_inv (ps_with_limits l)"
  by (simp add: store_inv_def store_ok_def store_bounded_def ps_with_limits_def ps_len_def)

subsection \<open>Records along the other operations\<close>

lemma get_records: "store_ok s \<Longrightarrow> r \<in> set (ps_get s ck now) \<Longrightarrow> r \<in> ps_records s \<and> content_key r = ck"
  by (auto simp: get_mem records_mem dest: lookup_record)

lemma records_mono:
  "(\<And>ck pid e. ps_lookup s' ck pid = Some e \<Longrightarrow> ps_lookup s ck pid = Some e) \<Longrightarrow>
   ps_records s' \<subseteq> ps_records s"
  by (auto simp: records_mem) blast

lemma remove_key_records: "ps_records (snd (ps_remove_key s ck)) \<subseteq> ps_records s"
  by (rule records_mono) (auto simp: ps_remove_key_def ps_lookup_def map_of_delete bind_eq_Some_conv
      split: if_splits)

lemma announced_records [simp]: "ps_records (s\<lparr>announced := a\<rparr>) = ps_records s"
  by (simp add: ps_records_def ps_lookup_def)

lemma batch_put_filtered:
  "fold (\<lambda>r store. case f r of None \<Rightarrow> store | Some e \<Rightarrow> snd (ps_put_at store e now)) rs store
   = fold (\<lambda>r store. snd (ps_put_at store r now)) (List.map_filter f rs) store"
  by (induction rs arbitrary: store) (simp_all add: map_filter_simps split: option.split)

lemma batch_put_limits:
  "limits (fold (\<lambda>r store. snd (ps_put_at store r now)) rs s) = limits s
   \<and> announced (fold (\<lambda>r store. snd (ps_put_at store r now)) rs s) = announced s"
proof (induction rs arbitrary: s)
  case (Cons r rs)
  obtain o' s' where "ps_put_at s r now = (o', s')" by fastforce
  with Cons[of s'] put_at_limits put_at_announced show ?case by simp
qed simp

lemma remove_limits:
  "limits (snd (ps_remove s ck pid)) = limits s \<and> announced (snd (ps_remove s ck pid)) = announced s"
  by (simp add: ps_remove_def Let_def split: option.split)

lemma gc_limits:
  "limits (snd (ps_gc s now)) = limits s \<and> announced (snd (ps_gc s now)) = announced s"
  by (simp add: ps_gc_def Let_def)

end
