(* ===== verification/Provider_Store_Facts.thy ===== *)
theory Provider_Store_Facts
  imports Provider_Store
begin

text \<open>
  What the provider store promises its users: bounded growth under any sequence of operations,
  the exact effect of each operation, the eviction policy, and the survival of an established
  holder under a flood of announcements.
\<close>

subsection \<open>The victim among live records\<close>

lemma rank_in_sort_key_drop:
  assumes "x \<in> set xs" "n \<le> length (filter (\<lambda>y. f y < f x) xs)"
  shows "x \<in> set (drop n (sort_key f xs))"
proof (rule ccontr)
  let ?s = "sort_key f xs"
  assume "x \<notin> set (drop n ?s)"
  with assms(1) have "x \<in> set (take n ?s)" using set_take_drop[of n ?s] by auto
  then have "f x \<le> f y" if "y \<in> set (drop n ?s)" for y using that by (rule sort_key_take_drop_le)
  then have "filter (\<lambda>y. f y < f x) (drop n ?s) = []" by (auto simp: filter_empty_conv not_less)
  then have "length (filter (\<lambda>y. f y < f x) (take n ?s)) = length (filter (\<lambda>y. f y < f x) ?s)"
    by (metis append_Nil2 append_take_drop_id filter_append)
  also have "\<dots> = length (filter (\<lambda>y. f y < f x) xs)" by (metis mset_filter mset_sort size_mset)
  finally have "n \<le> length (filter (\<lambda>y. f y < f x) (take n ?s))" using assms(2) by simp
  moreover have "length (filter (\<lambda>y. f y < f x) (take n ?s)) < length (take n ?s)"
    using \<open>x \<in> set (take n ?s)\<close> by (intro length_filter_less) auto
  ultimately show False by simp
qed

lemma churn_zone:
  assumes "q \<in> set ps" "n \<le> seniority ps (snd q)"
  shows "snd q \<in> set (drop n (sort_key admitted_seq (map snd ps)))"
  using assms by (intro rank_in_sort_key_drop) (simp_all add: seniority_def filter_map comp_def)

subsection \<open>Seniority along a run\<close>

lemma seniority_filter: "seniority (filter P ps) e \<le> seniority ps e"
  unfolding seniority_def filter_filter by (induction ps) auto

lemma seniority_delete: "seniority (AList.delete k ps) e \<le> seniority ps e"
  by (simp add: AList.delete_eq seniority_filter)

lemma seniority_update_later:
  "admitted_seq e \<le> admitted_seq v \<Longrightarrow> seniority (AList.update k v ps) e \<le> seniority ps e"
  by (induction ps) (auto simp: seniority_def)

lemma seniority_update_same:
  "map_of ps k = Some w \<Longrightarrow> admitted_seq v = admitted_seq w \<Longrightarrow>
   seniority (AList.update k v ps) e = seniority ps e"
  by (induction ps) (auto simp: seniority_def split: if_splits)

text \<open>An entry that holds one of the reserved slots of its key.\<close>

definition established :: "provider_store \<Rightarrow> string \<Rightarrow> string \<Rightarrow> provider_entry \<Rightarrow> bool" where
  "established s ck pid e \<longleftrightarrow>
     (\<exists>ps. map_of (by_key s) ck = Some ps \<and> map_of ps pid = Some e
        \<and> seniority ps e < max_providers_per_key (limits s) div 2)"

text \<open>Operations that are not the holder's own retraction or refresh, and that happen while its
  record is live.\<close>

fun spares :: "string \<Rightarrow> string \<Rightarrow> provider_entry \<Rightarrow> store_op \<Rightarrow> bool" where
  "spares ck pid e (OpPut r now) \<longleftrightarrow>
     (content_key r, provider_peer_id r) \<noteq> (ck, pid) \<and> \<not> is_expired (pe_record e) now"
| "spares ck pid e (OpRemove ck' pid') \<longleftrightarrow> (ck', pid') \<noteq> (ck, pid)"
| "spares ck pid e (OpRemoveKey ck') \<longleftrightarrow> ck' \<noteq> ck"
| "spares ck pid e (OpGc now) \<longleftrightarrow> \<not> is_expired (pe_record e) now"
| "spares ck pid e _ \<longleftrightarrow> True"

lemma admit_key:
  "map_of (by_key (ps_admit s r)) ck =
     (if ck = content_key r
      then Some (AList.update (provider_peer_id r) \<lparr>pe_record = r, admitted_seq = next_admitted_seq s\<rparr>
             (case map_of (by_key s) ck of Some ps \<Rightarrow> ps | None \<Rightarrow> []))
      else map_of (by_key s) ck)"
  by (simp add: ps_admit_def Let_def map_of_update)

lemma established_put:
  assumes "store_ok s" "established s ck pid e" "spares ck pid e (OpPut r now)"
  shows "established (snd (ps_put_at s r now)) ck pid e"
proof -
  obtain outcome s' where put: "ps_put_at s r now = (outcome, s')" by fastforce
  from assms(2) obtain ps where ps: "map_of (by_key s) ck = Some ps" "map_of ps pid = Some e"
    "seniority ps e < max_providers_per_key (limits s) div 2" by (auto simp: established_def)
  note ok = store_ok_entries[OF assms(1) ps(1)]
  have mem: "(pid, e) \<in> set ps" using ps(2) by (rule map_of_SomeD)
  with ok have seq: "admitted_seq e \<le> next_admitted_seq s" by (fastforce simp: entries_ok_def)
  have later: "seniority (AList.update k \<lparr>pe_record = r, admitted_seq = next_admitted_seq s\<rparr> qs) e
      \<le> seniority qs e" for k qs
    using seq by (simp add: seniority_update_later)
  from put have "established s' ck pid e"
  proof (cases rule: put_at_cases)
    case (refresh qs old)
    show ?thesis
    proof (cases "content_key r = ck")
      case True
      with refresh(1) ps(1) have "qs = ps" by simp
      moreover have "pid \<noteq> provider_peer_id r" using assms(3) True by auto
      ultimately show ?thesis using True refresh ps
        by (simp add: established_def map_of_update seniority_update_same)
    qed (use refresh ps in \<open>auto simp: established_def map_of_update\<close>)
  next
    case plain
    show ?thesis
    proof (cases "content_key r = ck")
      case True
      with plain ps assms(3) later[of _ ps] show ?thesis
        by (auto simp: established_def admit_key map_of_update intro: le_less_trans)
    qed (use plain ps in \<open>auto simp: established_def admit_key\<close>)
  next
    case (evict qs v)
    show ?thesis
    proof (cases "content_key r = ck")
      case True
      with evict(1) ps(1) have qs: "qs = ps" by simp
      have "v \<noteq> pid"
        using ok mem ps(3) evict(5) assms(3) victim_not_established unfolding qs by fastforce
      with True evict(7) ps assms(3) show ?thesis
        using later[of _ "AList.delete v ps"] seniority_delete[of v ps e]
        by (auto simp: established_def admit_key map_of_update map_of_delete qs intro: le_less_trans)
    qed (use evict ps in \<open>auto simp: established_def admit_key map_of_update\<close>)
  qed (use assms(2) in simp_all)
  then show ?thesis by (simp add: put)
qed

lemma established_remove:
  assumes "established s ck pid e" "spares ck pid e (OpRemove ck' pid')"
  shows "established (snd (ps_remove s ck' pid')) ck pid e"
proof -
  obtain removed s' where rm: "ps_remove s ck' pid' = (removed, s')" by fastforce
  from assms(1) obtain ps where ps: "map_of (by_key s) ck = Some ps" "map_of ps pid = Some e"
    "seniority ps e < max_providers_per_key (limits s) div 2" by (auto simp: established_def)
  have kept: "map_of (AList.delete pid' ps) pid = Some e" if "ck' = ck"
    using that assms(2) ps(2) by (simp add: map_of_delete)
  have le: "seniority (AList.delete pid' ps) e < max_providers_per_key (limits s) div 2"
    using seniority_delete ps(3) by (rule le_less_trans)
  from rm have "established s' ck pid e"
  proof (cases rule: remove_cases)
    case (last qs)
    have "ck' \<noteq> ck"
    proof
      assume "ck' = ck"
      with kept last(1,3) ps(1) show False by simp
    qed
    with last(4) ps show ?thesis by (simp add: established_def map_of_delete)
  next
    case (rest qs)
    then show ?thesis using ps kept le
      by (cases "ck' = ck") (auto simp: established_def map_of_update)
  qed (use assms(1) in simp)
  then show ?thesis by (simp add: rm)
qed

lemma established_gc:
  assumes "store_ok s" "established s ck pid e" "\<not> is_expired (pe_record e) now"
  shows "established (snd (ps_gc s now)) ck pid e"
proof -
  from assms(2) obtain ps where ps: "map_of (by_key s) ck = Some ps" "map_of ps pid = Some e"
    "seniority ps e < max_providers_per_key (limits s) div 2" by (auto simp: established_def)
  have d: "distinct (map fst ps)" using store_ok_entries[OF assms(1) ps(1)] by (simp add: entries_ok_def)
  have "(pid, e) \<in> set (live_providers now ps)"
    using map_of_SomeD[OF ps(2)] assms(3) by (simp add: live_providers_def)
  moreover from this have "map_of (live_providers now ps) pid = Some e"
    using map_of_mem[of "live_providers now ps"] distinct_map_filter[OF d] by (simp add: live_providers_def)
  moreover have "map_of (by_key (snd (ps_gc s now))) ck =
      (if live_providers now ps = [] then None else Some (live_providers now ps))"
    using assms(1) ps(1) by (simp add: ps_gc_def Let_def map_of_sweep store_ok_def)
  moreover have "seniority (live_providers now ps) e < max_providers_per_key (limits s) div 2"
    using seniority_filter ps(3) unfolding live_providers_def by (rule le_less_trans)
  ultimately show ?thesis by (auto simp: established_def ps_gc_def Let_def)
qed

lemma established_step:
  assumes "store_inv s" "established s ck pid e" "spares ck pid e op"
  shows "established (store_step s op) ck pid e"
proof -
  have ok: "store_ok s" using assms(1) by (simp add: store_inv_def)
  show ?thesis
  proof (cases op)
    case (OpPut r now)
    then show ?thesis using established_put[OF ok assms(2)] assms(3) by simp
  next
    case (OpRemove ck' pid')
    then show ?thesis using established_remove[OF assms(2)] assms(3) by simp
  next
    case (OpGc now)
    then show ?thesis using established_gc[OF ok assms(2)] assms(3) by simp
  qed (use assms in \<open>simp_all add: established_def ps_remove_key_def map_of_delete
      ps_mark_announced_with_collateral_def ps_unmark_announced_def\<close>)
qed

lemma established_run:
  "store_inv s \<Longrightarrow> established s ck pid e \<Longrightarrow> list_all (spares ck pid e) ops \<Longrightarrow>
   established (foldl store_step s ops) ck pid e"
  by (induction ops arbitrary: s) (simp_all add: store_step_inv established_step)

lemma established_served:
  assumes "store_ok s" "established s ck pid e" "\<not> is_expired (pe_record e) now"
  shows "pe_record e \<in> set (ps_get s ck now)"
proof -
  have "ps_lookup s ck pid = Some e" using assms(2) by (auto simp: established_def ps_lookup_def)
  with assms(3) show ?thesis by (auto simp: get_mem[OF assms(1)])
qed

subsection \<open>Getting a reserved slot\<close>

definition key_size :: "provider_store \<Rightarrow> string \<Rightarrow> nat" where
  "key_size s ck = (case map_of (by_key s) ck of None \<Rightarrow> 0 | Some ps \<Rightarrow> length ps)"

lemma admit_size:
  assumes "ps_lookup s (content_key r) (provider_peer_id r) = None"
  shows "key_size (ps_admit s r) (content_key r) = Suc (key_size s (content_key r))"
  using assms
  by (auto simp: key_size_def admit_key ps_lookup_def length_update_absent split: option.splits)

text \<open>A record accepted while fewer than half of its key's slots are taken gets a reserved one.\<close>

lemma seniority_bound: "(pid, e) \<in> set ps \<Longrightarrow> seniority ps e < length ps"
  unfolding seniority_def by (rule length_filter_less) auto

lemma accepted_established:
  assumes "store_ok s" "ps_put_at s r now = (Accepted, s')"
    "key_size s (content_key r) < max_providers_per_key (limits s) div 2"
  shows "\<exists>e. established s' (content_key r) (provider_peer_id r) e \<and> pe_record e = r"
  using assms(2)
proof (cases rule: put_at_cases)
  case (refresh ps old)
  let ?v = "old\<lparr>pe_record := r\<rparr>"
  have "seniority ps old < max_providers_per_key (limits s) div 2"
    using seniority_bound[OF map_of_SomeD[OF refresh(2)]] assms(3) refresh(1) by (simp add: key_size_def)
  moreover have "seniority (AList.update (provider_peer_id r) ?v ps) ?v = seniority ps ?v"
    using refresh(2) by (rule seniority_update_same) simp
  moreover have "seniority ps ?v = seniority ps old" by (simp add: seniority_def)
  ultimately have "established s' (content_key r) (provider_peer_id r) ?v"
    by (simp add: established_def refresh map_of_update)
  then show ?thesis by (intro exI[of _ ?v]) simp
next
  case plain
  let ?e = "\<lparr>pe_record = r, admitted_seq = next_admitted_seq s\<rparr>"
  let ?ps = "case map_of (by_key s) (content_key r) of Some ps \<Rightarrow> ps | None \<Rightarrow> []"
  have "seniority (AList.update (provider_peer_id r) ?e ?ps) ?e \<le> seniority ?ps ?e"
    by (rule seniority_update_later) simp
  also have "\<dots> \<le> length ?ps" by (simp add: seniority_def)
  also have "length ?ps = key_size s (content_key r)" by (simp add: key_size_def split: option.split)
  finally have "established s' (content_key r) (provider_peer_id r) ?e"
    using assms(3) by (simp add: established_def plain(5) admit_key map_of_update)
  then show ?thesis by (intro exI[of _ ?e]) simp
next
  case (evict ps v)
  with assms(3) show ?thesis by (simp add: key_size_def)
qed simp_all

lemma store_step_limits: "limits (store_step s op) = limits s"
proof (cases op)
  case (OpPut r now)
  then show ?thesis by (cases "ps_put_at s r now") (simp add: put_at_limits)
next
  case (OpRemove ck pid)
  then show ?thesis
    by (cases "ps_remove s ck pid") (auto elim: remove_cases)
qed (simp_all add: ps_gc_def ps_remove_key_def ps_mark_announced_with_collateral_def
    ps_unmark_announced_def Let_def)

subsection \<open>Properties\<close>

text \<open>C21. The store never grows without bound. Whatever sequence of puts, removals, wipes, sweeps
  and announcement marks is applied to a fresh store, it keeps one record per provider and key filed
  under the identity it names, never more than the global ceiling in total and never more than the
  per-key cap per key (one, when the cap is configured as zero).\<close>

theorem store_bounded_on_every_run:
  "let s = foldl store_step (ps_with_limits l) ops in
   store_ok s \<and> limits s = l \<and> ps_len s \<le> max_total_records l
   \<and> (\<forall>ck now. length (ps_get s ck now) \<le> max 1 (max_providers_per_key l)
       \<and> distinct (map provider_peer_id (ps_get s ck now))
       \<and> (\<forall>r\<in>set (ps_get s ck now). content_key r = ck \<and> \<not> is_expired r now))"
proof -
  let ?s = "foldl store_step (ps_with_limits l) ops"
  have lim: "limits (foldl store_step s ops) = limits s" for s
    by (induction ops arbitrary: s) (simp_all add: store_step_limits)
  have inv: "store_inv ?s" by (intro store_run_inv empty_store_inv)
  then have ok: "store_ok ?s" and bd: "store_bounded ?s" by (simp_all add: store_inv_def)
  have l: "limits ?s = l" by (simp add: lim ps_with_limits_def)
  have "length (ps_get ?s ck now) \<le> max 1 (max_providers_per_key l)" for ck now
  proof (cases "map_of (by_key ?s) ck")
    case (Some ps)
    have "length (ps_get ?s ck now) \<le> length ps"
      unfolding ps_get_def Some option.case by (metis length_filter_le length_map)
    moreover have "length ps \<le> max 1 (max_providers_per_key l)"
      using bd map_of_SomeD[OF Some] by (fastforce simp: store_bounded_def l)
    ultimately show ?thesis by simp
  qed (simp add: ps_get_def)
  moreover have "content_key r = ck \<and> \<not> is_expired r now" if "r \<in> set (ps_get ?s ck now)" for r ck now
    using that lookup_record[OF ok] by (auto simp: get_mem[OF ok])
  ultimately show ?thesis
    using ok bd l get_distinct[OF ok] by (simp add: Let_def store_bounded_def)
qed

lemma put_rejection:
  assumes "store_ok s"
  shows "fst (ps_put_at s r now) = RejectedOverCapacity \<longleftrightarrow>
    ps_lookup s (content_key r) (provider_peer_id r) = None \<and> max_total_records (limits s) \<le> ps_len s"
proof -
  obtain outcome s' where put: "ps_put_at s r now = (outcome, s')" by fastforce
  then show ?thesis
  proof (cases rule: put_at_cases)
    case (stuck ps)
    with store_ok_entries[OF assms stuck(1)] victim_total show ?thesis by blast
  qed (auto simp: put ps_lookup_def)
qed

text \<open>C23. A put is refused in exactly one situation: the pair is new and the store is at its
  global ceiling. In particular a full key never refuses a newcomer.\<close>

theorem put_rejected_iff:
  assumes "store_ok s"
  shows "fst (ps_put_at s r now) = RejectedOverCapacity \<longleftrightarrow>
    ps_lookup s (content_key r) (provider_peer_id r) = None \<and> max_total_records (limits s) \<le> ps_len s"
  using assms by (rule put_rejection)

theorem put_rejected_iff_witness:
  "fst (ps_put_at (ps_with_limits \<lparr>max_providers_per_key = 1, max_total_records = 0\<rparr>)
      \<lparr>content_key = ''a'', provider_peer_id = ''b'', pr_addresses = [], expires_at = 5,
       unverified_mirror_coin_id = None\<rparr> 0) = RejectedOverCapacity"
  using put_rejected_iff[of "ps_with_limits \<lparr>max_providers_per_key = 1, max_total_records = 0\<rparr>"]
    empty_store_inv
  by (simp add: store_inv_def ps_with_limits_def ps_lookup_def ps_len_def)

text \<open>A record used by the witnesses.\<close>

definition sample_record :: "string \<Rightarrow> string \<Rightarrow> u64 \<Rightarrow> provider_record" where
  "sample_record ck pid expires =
     \<lparr>content_key = ck, provider_peer_id = pid, pr_addresses = [], expires_at = expires,
      unverified_mirror_coin_id = None\<rparr>"

lemma sample_record_sel [simp]:
  "content_key (sample_record ck pid t) = ck" "provider_peer_id (sample_record ck pid t) = pid"
  "expires_at (sample_record ck pid t) = t" "pr_addresses (sample_record ck pid t) = []"
  "unverified_mirror_coin_id (sample_record ck pid t) = None"
  by (simp_all add: sample_record_def)

lemma fresh_store_ok [simp]: "store_ok (ps_with_limits l)"
  using empty_store_inv by (simp add: store_inv_def)

lemma fresh_store_sel [simp]:
  "ps_lookup (ps_with_limits l) ck pid = None" "next_admitted_seq (ps_with_limits l) = 0"
  "limits (ps_with_limits l) = l" "by_key (ps_with_limits l) = []" "ps_get (ps_with_limits l) ck t = []"
  by (simp_all add: ps_with_limits_def ps_lookup_def ps_get_def)

theorem store_bounded_on_every_run_witness:
  "let s = foldl store_step (ps_with_limits default_limits)
       [OpPut (sample_record ''k'' ''p'' 9) 0, OpRemove ''k'' ''q'', OpMark ''k'' None]
   in ps_get s ''k'' 0 = [sample_record ''k'' ''p'' 9] \<and> ps_len s \<le> max_total_records default_limits
      \<and> (\<forall>r\<in>set (ps_get s ''k'' 0). content_key r = ''k'')"
proof -
  let ?ops = "[OpPut (sample_record ''k'' ''p'' 9) 0, OpRemove ''k'' ''q'', OpMark ''k'' None]"
  have "ps_get (foldl store_step (ps_with_limits default_limits) ?ops) ''k'' 0 = [sample_record ''k'' ''p'' 9]"
    by (simp add: ps_put_at_def ps_admit_def ps_len_def ps_remove_def ps_get_def
        ps_mark_announced_with_collateral_def default_limits_def is_expired_def)
  with store_bounded_on_every_run[of default_limits ?ops] show ?thesis by (simp add: Let_def)
qed

text \<open>C22. What a put does. A refused put changes nothing; an accepted one makes exactly the record
  given findable, keeps the admission ordinal of a pair already known and hands a new pair the next
  one. No other pair's entry is created or altered, and none disappears except the eviction victim
  of the record's own key, and that only when the pair is new and its key full.\<close>

theorem put_effect:
  assumes "store_ok s" "ps_put_at s r now = (outcome, s')"
  shows "(outcome = RejectedOverCapacity \<longrightarrow> s' = s)
   \<and> (outcome = Accepted \<longrightarrow>
        ps_lookup s' (content_key r) (provider_peer_id r) =
          Some \<lparr>pe_record = r, admitted_seq =
             (case ps_lookup s (content_key r) (provider_peer_id r) of
                Some old \<Rightarrow> admitted_seq old | None \<Rightarrow> next_admitted_seq s)\<rparr>
        \<and> (\<forall>t. \<not> is_expired r t \<longrightarrow> r \<in> set (ps_get s' (content_key r) t)))
   \<and> (\<forall>ck pid. (ck, pid) \<noteq> (content_key r, provider_peer_id r) \<longrightarrow>
        ps_lookup s' ck pid = ps_lookup s ck pid
        \<or> (ck = content_key r \<and> ps_lookup s' ck pid = None
            \<and> ps_lookup s ck (provider_peer_id r) = None
            \<and> (\<exists>ps. map_of (by_key s) ck = Some ps \<and> max_providers_per_key (limits s) \<le> length ps
                 \<and> eviction_victim ps (max_providers_per_key (limits s)) now = Some pid)))"
  using assms(2)
proof (cases rule: put_at_cases)
  case (refresh ps old)
  have look: "ps_lookup s (content_key r) pid = map_of ps pid" for pid
    using refresh(1) by (simp add: ps_lookup_def)
  have "ps_lookup s' (content_key r) (provider_peer_id r) = Some (old\<lparr>pe_record := r\<rparr>)"
    using refresh(4) by (simp add: map_of_update)
  moreover have "(\<forall>t. \<not> is_expired r t \<longrightarrow> r \<in> set (ps_get s' (content_key r) t))"
    using get_mem[OF put_at_ok[OF assms]] calculation by fastforce
  ultimately show ?thesis using refresh look by (auto simp: map_of_update)
next
  case plain
  then have "ps_lookup s' (content_key r) (provider_peer_id r) =
      Some \<lparr>pe_record = r, admitted_seq = next_admitted_seq s\<rparr>" by (simp add: admit_lookup)
  moreover have "(\<forall>t. \<not> is_expired r t \<longrightarrow> r \<in> set (ps_get s' (content_key r) t))"
    using get_mem[OF put_at_ok[OF assms]] calculation by fastforce
  ultimately show ?thesis using plain by (simp add: admit_lookup)
next
  case (evict ps v)
  have look: "ps_lookup s (content_key r) pid = map_of ps pid" for pid
    using evict(1) by (simp add: ps_lookup_def)
  have "ps_lookup s' (content_key r) (provider_peer_id r) =
      Some \<lparr>pe_record = r, admitted_seq = next_admitted_seq s\<rparr>"
    using evict(7) by (simp add: admit_lookup)
  moreover have "(\<forall>t. \<not> is_expired r t \<longrightarrow> r \<in> set (ps_get s' (content_key r) t))"
    using get_mem[OF put_at_ok[OF assms]] calculation by fastforce
  moreover have "ps_lookup s' ck pid = (if ck = content_key r \<and> pid = v then None else ps_lookup s ck pid)"
    if "(ck, pid) \<noteq> (content_key r, provider_peer_id r)" for ck pid
    using that evict(7) look by (auto simp: admit_lookup map_of_delete)
  ultimately show ?thesis using evict look by auto
qed simp_all

theorem put_effect_witness:
  "let s = snd (ps_put_at (ps_with_limits default_limits) (sample_record ''k'' ''p'' 9) 0) in
   ps_lookup s ''k'' ''p'' = Some \<lparr>pe_record = sample_record ''k'' ''p'' 9, admitted_seq = 0\<rparr>"
proof -
  have eq: "ps_put_at (ps_with_limits default_limits) (sample_record ''k'' ''p'' 9) 0 =
    (Accepted, ps_admit (ps_with_limits default_limits) (sample_record ''k'' ''p'' 9))"
    by (simp add: ps_put_at_def ps_with_limits_def default_limits_def ps_len_def ps_lookup_def)
  show ?thesis
    using put_effect[OF fresh_store_ok eq]
    by (simp add: eq Let_def)
qed

text \<open>C20. The eviction policy. A full key always has a victim, and it is one of its entries. While
  any record of the key is expired, the victim is an expired one, the one that expired first; when
  all are live it is never one of the longest-established half of the cap, and it is the soonest to
  expire of the others. The choice does not depend on the hash map's iteration order.\<close>

theorem eviction_victim_policy:
  assumes "entries_ok n ck ps" "ps \<noteq> []" "cap \<le> length ps"
  shows "\<exists>v e. eviction_victim ps cap now = Some v \<and> (v, e) \<in> set ps
    \<and> (if \<exists>q\<in>set ps. is_expired (pe_record (snd q)) now
       then is_expired (pe_record e) now
         \<and> (\<forall>q\<in>set ps. is_expired (pe_record (snd q)) now \<longrightarrow> expiry_order e \<le> expiry_order (snd q))
       else cap div 2 \<le> seniority ps e
         \<and> (\<forall>q\<in>set ps. cap div 2 \<le> seniority ps (snd q) \<longrightarrow> expiry_order e \<le> expiry_order (snd q)))
    \<and> (\<forall>ps'. mset ps' = mset ps \<longrightarrow> eviction_victim ps' cap now = Some v)"
proof -
  from victim_total[OF assms(2,3)] obtain v where v: "eviction_victim ps cap now = Some v" by blast
  have id: "(provider_peer_id (pe_record e), e) \<in> set ps" if "(p, e) \<in> set ps" for p e
    using that assms(1) by (fastforce simp: entries_ok_def)
  have d: "distinct (map admitted_seq (map snd ps))"
    using assms(1) by (simp add: entries_ok_def comp_def)
  have ord: "\<forall>ps'. mset ps' = mset ps \<longrightarrow> eviction_victim ps' cap now = Some v"
    using victim_order_independent[OF assms(1)] v by metis
  from v show ?thesis
  proof (cases rule: victim_cases)
    case (dead p e)
    with id[OF dead(1)] v ord show ?thesis by (intro exI[of _ v] exI[of _ e]) force
  next
    case (live p e)
    have "cap div 2 \<le> seniority ps e"
      using sort_key_drop_rank[OF d live(4)] by (simp add: seniority_def filter_map comp_def)
    with live id[OF live(1)] v ord show ?thesis
      by (intro exI[of _ v] exI[of _ e]) (auto dest: churn_zone)
  qed
qed

theorem eviction_victim_policy_witness:
  "\<exists>v e. eviction_victim [(''p'', \<lparr>pe_record = sample_record ''k'' ''p'' 9, admitted_seq = 0\<rparr>)] 1 0 = Some v
     \<and> (v, e) \<in> set [(''p'', \<lparr>pe_record = sample_record ''k'' ''p'' 9, admitted_seq = 0\<rparr>)]"
  using eviction_victim_policy[of 1 "''k''"
      "[(''p'', \<lparr>pe_record = sample_record ''k'' ''p'' 9, admitted_seq = 0\<rparr>)]" 1 0]
  by (force simp: entries_ok_def)

text \<open>C4. A flood cannot displace an incumbent. A live record that holds one of its key's
  longest-established slots (fewer than half the cap were admitted before it) keeps being served
  unchanged through any sequence of puts by anybody else for any keys and expiries, removals of
  other pairs, wipes of other keys, sweeps and announcement marks, for as long as it is live.\<close>

theorem established_holder_survives:
  assumes "store_inv s" "map_of (by_key s) ck = Some ps" "map_of ps pid = Some e"
    "seniority ps e < max_providers_per_key (limits s) div 2"
    "list_all (spares ck pid e) ops" "\<not> is_expired (pe_record e) now"
  shows "pe_record e \<in> set (ps_get (foldl store_step s ops) ck now)
    \<and> ps_lookup (foldl store_step s ops) ck pid = Some e"
proof -
  have "established s ck pid e" using assms(2-4) by (auto simp: established_def)
  from established_run[OF assms(1) this assms(5)] have est: "established (foldl store_step s ops) ck pid e" .
  have "store_ok (foldl store_step s ops)"
    using store_run_inv[OF assms(1), of ops] by (simp add: store_inv_def)
  from established_served[OF this est assms(6)] est show ?thesis
    by (auto simp: established_def ps_lookup_def)
qed

theorem established_holder_survives_witness:
  "let s = snd (ps_put_at (ps_with_limits \<lparr>max_providers_per_key = 2, max_total_records = 9\<rparr>)
                  (sample_record ''k'' ''honest'' 50) 0) in
   sample_record ''k'' ''honest'' 50 \<in>
     set (ps_get (foldl store_step s
        [OpPut (sample_record ''k'' ''sybil1'' 90) 5, OpPut (sample_record ''k'' ''sybil2'' 90) 2,
         OpPut (sample_record ''k'' ''sybil3'' 90) 3, OpGc 4]) ''k'' 10)"
proof -
  let ?l = "\<lparr>max_providers_per_key = 2, max_total_records = 9\<rparr>"
  let ?s = "snd (ps_put_at (ps_with_limits ?l) (sample_record ''k'' ''honest'' 50) 0)"
  let ?e = "\<lparr>pe_record = sample_record ''k'' ''honest'' 50, admitted_seq = 0\<rparr>"
  have inv: "store_inv ?s" by (intro put_at_inv empty_store_inv)
  have key: "map_of (by_key ?s) ''k'' = Some [(''honest'', ?e)]" "limits ?s = ?l"
    by (simp_all add: ps_put_at_def ps_admit_def ps_len_def Let_def)
  show ?thesis
    unfolding Let_def
    by (rule established_holder_survives[OF inv key(1), of "''honest''" ?e, unfolded key(2),
          THEN conjunct1, simplified])
      (simp_all add: seniority_def is_expired_def)
qed

lemma gc_effect:
  assumes "store_ok s" "ps_gc s now = (n, s')"
  shows "n + ps_len s' = ps_len s
   \<and> (\<forall>ck pid. ps_lookup s' ck pid =
        (case ps_lookup s ck pid of
           Some e \<Rightarrow> if is_expired (pe_record e) now then None else Some e | None \<Rightarrow> None))
   \<and> (\<forall>ck t. now \<le> t \<longrightarrow> ps_get s' ck t = ps_get s ck t)
   \<and> announced s' = announced s \<and> limits s' = limits s \<and> next_admitted_seq s' = next_admitted_seq s"
proof -
  have s': "s' = snd (ps_gc s now)" using assms(2) by simp
  have key: "map_of (by_key s') ck = (case map_of (by_key s) ck of None \<Rightarrow> None
      | Some ps \<Rightarrow> if live_providers now ps = [] then None else Some (live_providers now ps))" for ck
    using assms(1) by (simp add: s' ps_gc_def Let_def map_of_sweep store_ok_def)
  have filt: "map_of (filter (\<lambda>p. P (snd p)) ps) pid =
      (case map_of ps pid of Some e \<Rightarrow> if P e then Some e else None | None \<Rightarrow> None)"
    if "distinct (map fst ps)" for P :: "provider_entry \<Rightarrow> bool" and ps :: providers and pid
    using that by (induction ps) (auto split: option.split simp: map_of_eq_None_iff image_iff)
  have "ps_lookup s' ck pid = (case ps_lookup s ck pid of
           Some e \<Rightarrow> if is_expired (pe_record e) now then None else Some e | None \<Rightarrow> None)" for ck pid
  proof (cases "map_of (by_key s) ck")
    case (Some ps)
    have "distinct (map fst ps)" using store_ok_entries[OF assms(1) Some] by (simp add: entries_ok_def)
    from filt[OF this, of "\<lambda>e. \<not> is_expired (pe_record e) now" pid]
    have f: "map_of (live_providers now ps) pid = (case map_of ps pid of
        Some e \<Rightarrow> if is_expired (pe_record e) now then None else Some e | None \<Rightarrow> None)"
      by (simp add: live_providers_def split: option.splits)
    show ?thesis
    proof (cases "live_providers now ps = []")
      case True
      with f have "map_of (live_providers now ps) pid = None" by simp
      with f have "(case map_of ps pid of
        Some e \<Rightarrow> if is_expired (pe_record e) now then None else Some e | None \<Rightarrow> None) = None" by simp
      with Some True show ?thesis by (simp add: ps_lookup_def key)
    qed (use Some f in \<open>simp add: ps_lookup_def key\<close>)
  qed (simp add: ps_lookup_def key)
  moreover have "ps_get s' ck t = ps_get s ck t" if "now \<le> t" for ck t
  proof (cases "map_of (by_key s) ck")
    case (Some ps)
    have "filter (\<lambda>r. \<not> is_expired r t) (map (\<lambda>p. pe_record (snd p)) (live_providers now ps))
        = filter (\<lambda>r. \<not> is_expired r t) (map (\<lambda>p. pe_record (snd p)) ps)"
      using that by (induction ps) (auto simp: live_providers_def is_expired_def)
    with Some show ?thesis by (auto simp: ps_get_def key split: if_splits)
  qed (simp add: ps_get_def key)
  ultimately show ?thesis
    using gc_len[of s now] assms(2) by (auto simp: s' ps_gc_def Let_def)
qed

text \<open>A sweep drops exactly the expired records: every query at the sweep's time or later
  answers the same before and after, what remains is live, the count returned is the number of
  records dropped, and announcements, limits and admission ordinals are untouched.\<close>

theorem gc_exact:
  assumes "store_ok s" "ps_gc s now = (n, s')"
  shows "n + ps_len s' = ps_len s
   \<and> (\<forall>ck pid. ps_lookup s' ck pid =
        (case ps_lookup s ck pid of
           Some e \<Rightarrow> if is_expired (pe_record e) now then None else Some e | None \<Rightarrow> None))
   \<and> (\<forall>ck t. now \<le> t \<longrightarrow> ps_get s' ck t = ps_get s ck t)
   \<and> announced s' = announced s \<and> limits s' = limits s \<and> next_admitted_seq s' = next_admitted_seq s"
  using assms by (rule gc_effect)

theorem gc_exact_witness:
  "let s = snd (ps_put_at (ps_with_limits default_limits) (sample_record ''k'' ''p'' 9) 0) in
   fst (ps_gc s 9) + ps_len (snd (ps_gc s 9)) = 1 \<and> ps_get (snd (ps_gc s 9)) ''k'' 9 = []"
proof -
  let ?s = "snd (ps_put_at (ps_with_limits default_limits) (sample_record ''k'' ''p'' 9) 0)"
  have "store_ok ?s" using put_at_inv[OF empty_store_inv] by (simp add: store_inv_def)
  from gc_exact[OF this surjective_pairing, of 9] show ?thesis
    by (simp add: ps_put_at_def ps_admit_def ps_len_def default_limits_def ps_get_def is_expired_def Let_def)
qed

lemma live_get:
  "map_of (by_key s) ck = Some ps \<Longrightarrow> length (ps_get s ck now) = length (live_providers now ps)"
  by (simp add: ps_get_def live_providers_def filter_map comp_def)

definition snapshot_pool :: "provider_store \<Rightarrow> u64 \<Rightarrow> provider_snapshot_entry list" where
  "snapshot_pool s now = List.map_filter (\<lambda>(ck, ps).
     let live = length (live_providers now ps)
     in if live > 0 then Some \<lparr>se_content_key = ck, se_providers = live\<rparr> else None) (by_key s)"

lemma snapshot_pool_mem:
  assumes "store_ok s"
  shows "x \<in> set (snapshot_pool s now) \<longleftrightarrow>
    ps_get s (se_content_key x) now \<noteq> []
    \<and> x = \<lparr>se_content_key = se_content_key x, se_providers = length (ps_get s (se_content_key x) now)\<rparr>"
proof -
  have d: "distinct (map fst (by_key s))" using assms by (simp add: store_ok_def)
  have none: "map_of (by_key s) ck = None \<Longrightarrow> ps_get s ck now = []" for ck by (simp add: ps_get_def)
  have "x \<in> set (snapshot_pool s now) \<longleftrightarrow> (\<exists>ck ps. map_of (by_key s) ck = Some ps
      \<and> length (live_providers now ps) > 0 \<and> x = \<lparr>se_content_key = ck, se_providers = length (live_providers now ps)\<rparr>)"
    by (force simp: snapshot_pool_def map_filter_def Let_def map_of_mem[OF d] split: if_splits)
  also have "\<dots> \<longleftrightarrow> (\<exists>ck. map_of (by_key s) ck \<noteq> None \<and> length (ps_get s ck now) > 0
      \<and> x = \<lparr>se_content_key = ck, se_providers = length (ps_get s ck now)\<rparr>)"
    using live_get[of s _ _ now] by (metis not_None_eq)
  also have "\<dots> \<longleftrightarrow> ps_get s (se_content_key x) now \<noteq> []
    \<and> x = \<lparr>se_content_key = se_content_key x, se_providers = length (ps_get s (se_content_key x) now)\<rparr>"
    using none by fastforce
  finally show ?thesis .
qed

lemma snapshot_pool_distinct:
  assumes "store_ok s"
  shows "distinct (map se_content_key (snapshot_pool s now))"
proof -
  have "distinct (map fst m) \<Longrightarrow> distinct (map se_content_key (List.map_filter (\<lambda>(ck, ps).
     let live = length (live_providers now ps)
     in if live > 0 then Some \<lparr>se_content_key = ck, se_providers = live\<rparr> else None) m))" for m
  proof (induction m)
    case (Cons p m)
    have "se_content_key x \<in> fst ` set m" if "x \<in> set (List.map_filter (\<lambda>(ck, ps).
     let live = length (live_providers now ps)
     in if live > 0 then Some \<lparr>se_content_key = ck, se_providers = live\<rparr> else None) m)" for x
      using that by (force simp: map_filter_def Let_def split: if_splits)
    with Cons show ?case by (cases p) (auto simp: map_filter_simps Let_def)
  qed (simp add: map_filter_simps)
  with assms show ?thesis by (simp add: snapshot_pool_def store_ok_def)
qed

interpretation snapshot_selection: ranked_selection
  "\<lambda>(s, now, m). snapshot_pool s now" "\<lambda>(s, now, m). m" "\<lambda>_. se_content_key"
  "\<lambda>(s, now, m). sn_entries (ps_snapshot s now m)"
  by unfold_locales (simp add: ps_snapshot_def snapshot_pool_def Let_def split: prod.split)

text \<open>The aggregated snapshot agrees with what queries return and carries only counts. Its
  total is the number of keys a query at that time would answer; the listed keys are distinct, in
  order, at most the bound asked for, each with its exact count of live providers; truncation is
  reported exactly when keys were left out, and then the ones listed come first in key order.\<close>

theorem snapshot_agrees_with_get:
  assumes "store_ok s"
  shows "let snap = ps_snapshot s now m; keys = map se_content_key (sn_entries snap) in
    sn_total_keys snap = card {ck. ps_get s ck now \<noteq> []}
    \<and> length (sn_entries snap) = min m (sn_total_keys snap)
    \<and> sn_truncated snap = (m < sn_total_keys snap)
    \<and> sorted keys \<and> distinct keys
    \<and> (\<forall>x\<in>set (sn_entries snap). ps_get s (se_content_key x) now \<noteq> []
         \<and> se_providers x = length (ps_get s (se_content_key x) now))
    \<and> (\<forall>ck\<in>set keys. \<forall>ck'. ps_get s ck' now \<noteq> [] \<longrightarrow> ck' \<notin> set keys \<longrightarrow> ck \<le> ck')"
proof -
  let ?pool = "snapshot_pool s now" and ?snap = "ps_snapshot s now m"
  note mem = snapshot_pool_mem[OF assms] and dist = snapshot_pool_distinct[OF assms]
  note sel = snapshot_selection.chosen_subset[of "(s, now, m)", simplified]
  have keyset: "se_content_key ` set ?pool = {ck. ps_get s ck now \<noteq> []}"
  proof -
    have "ck \<in> se_content_key ` set ?pool" if "ps_get s ck now \<noteq> []" for ck
      using that mem[of "\<lparr>se_content_key = ck, se_providers = length (ps_get s ck now)\<rparr>" now] by force
    then show ?thesis using mem by blast
  qed
  have "card (se_content_key ` set ?pool) = length ?pool"
    using distinct_card[OF dist[of now]] by simp
  then have total: "sn_total_keys ?snap = card {ck. ps_get s ck now \<noteq> []}" "sn_total_keys ?snap = length ?pool"
    unfolding keyset by (simp_all add: ps_snapshot_def snapshot_pool_def Let_def)
  have first: "se_content_key x \<le> ck'"
    if x: "x \<in> set (sn_entries ?snap)" and ck': "ps_get s ck' now \<noteq> []"
      "ck' \<notin> se_content_key ` set (sn_entries ?snap)" for x ck'
  proof -
    have "ck' \<in> se_content_key ` set ?pool" unfolding keyset using ck'(1) by simp
    then obtain y where y: "y \<in> set ?pool" "se_content_key y = ck'" by auto
    then have "y \<notin> set (sn_entries ?snap)" using ck'(2) by auto
    from snapshot_selection.chosen_nearest[of x "(s, now, m)" y] x y this show ?thesis by simp
  qed
  have trunc: "sn_truncated ?snap = (m < sn_total_keys ?snap)"
    by (simp add: ps_snapshot_def Let_def)
  have counts: "ps_get s (se_content_key x) now \<noteq> [] \<and> se_providers x = length (ps_get s (se_content_key x) now)"
    if "x \<in> set (sn_entries ?snap)" for x
    using that sel mem[of x now] by (metis provider_snapshot_entry.select_convs(2) subsetD)
  have len: "length (sn_entries ?snap) = min m (sn_total_keys ?snap)"
    using snapshot_selection.chosen_length[of "(s, now, m)"] by (simp add: total(2))
  have sorted: "sorted (map se_content_key (sn_entries ?snap))"
    using snapshot_selection.chosen_sorted[of "(s, now, m)"] by simp
  have distinct: "distinct (map se_content_key (sn_entries ?snap))"
    using snapshot_selection.chosen_distinct[of se_content_key "(s, now, m)"] dist by simp
  show ?thesis
    unfolding Let_def set_map
    by (intro conjI ballI allI impI total(1) len trunc sorted distinct)
      (use counts first in blast)+
qed

theorem snapshot_agrees_with_get_witness:
  "let s = snd (ps_put_at (ps_with_limits default_limits) (sample_record ''k'' ''p'' 9) 0) in
   length (sn_entries (ps_snapshot s 3 0)) = 0
   \<and> sn_total_keys (ps_snapshot s 3 0) = card {ck. ps_get s ck 3 \<noteq> []}"
proof -
  let ?s = "snd (ps_put_at (ps_with_limits default_limits) (sample_record ''k'' ''p'' 9) 0)"
  have "store_ok ?s" using put_at_inv[OF empty_store_inv] by (simp add: store_inv_def)
  from snapshot_agrees_with_get[OF this, of 3 0] show ?thesis by (simp add: Let_def)
qed

lemma remove_effect:
  assumes "store_ok s" "ps_remove s ck pid = (removed, s')"
  shows "removed = (ps_lookup s ck pid \<noteq> None)
   \<and> (\<forall>ck' pid'. ps_lookup s' ck' pid' =
        (if ck' = ck \<and> pid' = pid then None else ps_lookup s ck' pid'))
   \<and> store_ok s' \<and> announced s' = announced s"
  using assms(2)
proof (cases rule: remove_cases)
  case (last ps)
  have "pid' = pid" if "map_of ps pid' = Some e" for pid' e
  proof (rule ccontr)
    assume "pid' \<noteq> pid"
    with that have "map_of (AList.delete pid ps) pid' = Some e" by (simp add: map_of_delete)
    with last(3) show False by simp
  qed
  then have "map_of ps pid' = None" if "pid' \<noteq> pid" for pid' using that by (cases "map_of ps pid'") auto
  with last remove_ok[OF assms] show ?thesis by (auto simp: ps_lookup_def map_of_delete)
next
  case (rest ps)
  with remove_ok[OF assms] show ?thesis by (auto simp: ps_lookup_def map_of_update map_of_delete)
qed (use assms(1) in \<open>auto simp: ps_lookup_def\<close>)

text \<open>A removal takes away exactly the pair it names, reports whether it was there, and leaves
  every other provider of the key, and every other key, as it was: a retraction by one holder
  cannot remove another holder's record.\<close>

theorem remove_exact:
  assumes "store_ok s" "ps_remove s ck pid = (removed, s')"
  shows "removed = (ps_lookup s ck pid \<noteq> None)
   \<and> (\<forall>ck' pid'. ps_lookup s' ck' pid' =
        (if ck' = ck \<and> pid' = pid then None else ps_lookup s ck' pid'))
   \<and> store_ok s' \<and> announced s' = announced s"
  using assms by (rule remove_effect)

theorem remove_exact_witness:
  "let s = snd (ps_put_at (ps_with_limits default_limits) (sample_record ''k'' ''p'' 9) 0) in
   fst (ps_remove s ''k'' ''q'') = False \<and> ps_lookup (snd (ps_remove s ''k'' ''q'')) ''k'' ''p'' \<noteq> None"
proof -
  let ?s = "snd (ps_put_at (ps_with_limits default_limits) (sample_record ''k'' ''p'' 9) 0)"
  have "store_ok ?s" using put_at_inv[OF empty_store_inv] by (simp add: store_inv_def)
  from remove_exact[OF this surjective_pairing, of "''k''" "''q''"] show ?thesis
    by (simp add: ps_put_at_def ps_len_def default_limits_def Let_def admit_lookup)
qed

end
