(* ===== verification/Dht_Config.thy ===== *)
theory Dht_Config
  imports Provider_Store
begin

text \<open>
  \<^verbatim>\<open>src/config.rs\<close>: the tuning parameters and their defaults. A \<open>Duration\<close> of the standard
  library is its whole seconds and the nanoseconds below a second, ordered lexicographically.
\<close>

record duration =
  dur_secs :: u64
  dur_nanos :: u32

definition duration_from_secs :: "u64 \<Rightarrow> duration" where
  "duration_from_secs s = \<lparr>dur_secs = s, dur_nanos = 0\<rparr>"

definition duration_as_secs :: "duration \<Rightarrow> u64" where
  "duration_as_secs d = dur_secs d"

definition duration_less :: "duration \<Rightarrow> duration \<Rightarrow> bool" where
  "duration_less a b \<longleftrightarrow>
     dur_secs a < dur_secs b \<or> dur_secs a = dur_secs b \<and> dur_nanos a < dur_nanos b"

record dht_config =
  cfg_k :: nat
  alpha :: nat
  provider_ttl :: duration
  republish_interval :: duration
  refresh_interval :: duration
  rpc_timeout :: duration
  provider_store_limits :: provider_store_limits
  discovery_cache_ttl :: duration
  discovery_cache_limits :: provider_store_limits

definition default_config :: dht_config where
  "default_config =
     \<lparr>cfg_k = 20, alpha = 3,
      provider_ttl = duration_from_secs (2 * 60 * 60),
      republish_interval = duration_from_secs (60 * 60),
      refresh_interval = duration_from_secs (60 * 60),
      rpc_timeout = duration_from_secs 5,
      provider_store_limits = default_limits,
      discovery_cache_ttl = duration_from_secs (15 * 60),
      discovery_cache_limits = \<lparr>max_providers_per_key = 8, max_total_records = 10000\<rparr>\<rparr>"

definition provider_ttl_secs :: "dht_config \<Rightarrow> u64" where
  "provider_ttl_secs c = duration_as_secs (provider_ttl c)"

definition discovery_cache_ttl_secs :: "dht_config \<Rightarrow> u64" where
  "discovery_cache_ttl_secs c = duration_as_secs (discovery_cache_ttl c)"

lemmas config_defs = provider_ttl_secs_def discovery_cache_ttl_secs_def duration_as_secs_def
  duration_from_secs_def default_config_def default_limits_def duration_less_def

subsection \<open>Properties\<close>

text \<open>The defaults keep the promises the documentation makes of them: a record is republished
  before it expires, a cached discovery ages out before an authoritative record does, both stores
  are bounded by non-zero caps, and the cache is the tighter of the two on both axes.\<close>

theorem default_config_promises:
  "cfg_k default_config = 20 \<and> alpha default_config = 3
   \<and> provider_ttl_secs default_config = 7200 \<and> discovery_cache_ttl_secs default_config = 900
   \<and> duration_less (republish_interval default_config) (provider_ttl default_config)
   \<and> duration_less (discovery_cache_ttl default_config) (provider_ttl default_config)
   \<and> 0 < max_providers_per_key (discovery_cache_limits default_config)
   \<and> max_providers_per_key (discovery_cache_limits default_config)
       < max_providers_per_key (provider_store_limits default_config)
   \<and> 0 < max_total_records (discovery_cache_limits default_config)
   \<and> max_total_records (discovery_cache_limits default_config)
       < max_total_records (provider_store_limits default_config)"
  by (simp add: config_defs)

end
