(* ===== verification/Routing_Table.thy ===== *)
theory Routing_Table
  imports Provider_Record
begin

text \<open>
  \<^verbatim>\<open>src/routing.rs\<close>: contacts, the k-buckets in least-recently-seen order and the table of
  256 buckets. An operation that indexes a vector returns an option; \<open>None\<close> is the panic of an
  index out of range. The invariant \<open>rt_wf\<close> says that each bucket is within its capacity, lists
  no peer twice and holds only contacts whose key belongs in it.
\<close>

record contact =
  ct_peer_id :: string
  ct_addresses :: "candidate_addr list"

definition contact_new :: "externs \<Rightarrow> peer_id \<Rightarrow> candidate_addr list \<Rightarrow> contact" where
  "contact_new E pid addrs =
     \<lparr>ct_peer_id = pid_to_hex E pid, ct_addresses = sort_and_cap_addresses E addrs\<rparr>"

definition contact_peer_id :: "externs \<Rightarrow> contact \<Rightarrow> peer_id option" where
  "contact_peer_id E c = pid_from_hex E (ct_peer_id c)"

definition contact_key :: "externs \<Rightarrow> contact \<Rightarrow> key option" where
  "contact_key E c = map_option key_from_peer_id (contact_peer_id E c)"

definition contact_best_address :: "contact \<Rightarrow> candidate_addr option" where
  "contact_best_address c = best_address (ct_addresses c)"

definition contact_dial_candidates :: "externs \<Rightarrow> contact \<Rightarrow> candidate_addr list" where
  "contact_dial_candidates E c = dial_candidates E (ct_addresses c)"

datatype insert_outcome = Inserted | Full contact

subsection \<open>One bucket\<close>

record kbucket =
  kb_contacts :: "contact list"
  kb_capacity :: nat

definition kbucket_new :: "nat \<Rightarrow> kbucket" where
  "kbucket_new capacity = \<lparr>kb_contacts = [], kb_capacity = capacity\<rparr>"

definition bucket_offer :: "kbucket \<Rightarrow> contact \<Rightarrow> (insert_outcome \<times> kbucket) option" where
  "bucket_offer b c =
     (let cs = kb_contacts b in
      case position (\<lambda>x. ct_peer_id x = ct_peer_id c) cs of
        Some pos \<Rightarrow> Some (Inserted, b\<lparr>kb_contacts := remove_at pos cs @ [c]\<rparr>)
      | None \<Rightarrow>
          if length cs < kb_capacity b then Some (Inserted, b\<lparr>kb_contacts := cs @ [c]\<rparr>)
          else (case cs of [] \<Rightarrow> None | lru # _ \<Rightarrow> Some (Full lru, b)))"

definition bucket_replace :: "kbucket \<Rightarrow> string \<Rightarrow> contact \<Rightarrow> bool \<times> kbucket" where
  "bucket_replace b lru_peer_id candidate =
     (case kb_contacts b of
        front # rest \<Rightarrow>
          if ct_peer_id front = lru_peer_id
          then (True, b\<lparr>kb_contacts := rest @ [candidate]\<rparr>)
          else (False, b)
      | [] \<Rightarrow> (False, b))"

definition bucket_remove :: "kbucket \<Rightarrow> string \<Rightarrow> bool \<times> kbucket" where
  "bucket_remove b peer_id =
     (case position (\<lambda>c. ct_peer_id c = peer_id) (kb_contacts b) of
        Some pos \<Rightarrow> (True, b\<lparr>kb_contacts := remove_at pos (kb_contacts b)\<rparr>)
      | None \<Rightarrow> (False, b))"

subsection \<open>The table\<close>

record routing_table =
  rt_local_key :: key
  rt_buckets :: "kbucket list"
  rt_k :: nat

definition rt_new :: "peer_id \<Rightarrow> nat \<Rightarrow> routing_table" where
  "rt_new local_id k =
     \<lparr>rt_local_key = key_from_peer_id local_id,
      rt_buckets = map (\<lambda>_. kbucket_new k) [0..<256], rt_k = k\<rparr>"

definition bucket_for :: "routing_table \<Rightarrow> key \<Rightarrow> nat option" where
  "bucket_for t key = bucket_index (distance (rt_local_key t) key)"

definition rt_insert ::
  "externs \<Rightarrow> routing_table \<Rightarrow> contact \<Rightarrow> (insert_outcome \<times> routing_table) option" where
  "rt_insert E t c =
     (case contact_key E c of
        None \<Rightarrow> Some (Inserted, t)
      | Some key \<Rightarrow>
          (case bucket_for t key of
             None \<Rightarrow> Some (Inserted, t)
           | Some idx \<Rightarrow>
               if idx < length (rt_buckets t)
               then (case bucket_offer (rt_buckets t ! idx) c of
                       None \<Rightarrow> None
                     | Some (outcome, b) \<Rightarrow>
                         Some (outcome, t\<lparr>rt_buckets := (rt_buckets t)[idx := b]\<rparr>))
               else None))"

definition rt_replace ::
  "externs \<Rightarrow> routing_table \<Rightarrow> contact \<Rightarrow> contact \<Rightarrow> (bool \<times> routing_table) option" where
  "rt_replace E t lru candidate =
     (case contact_key E candidate of
        None \<Rightarrow> Some (False, t)
      | Some key \<Rightarrow>
          (case bucket_for t key of
             None \<Rightarrow> Some (False, t)
           | Some idx \<Rightarrow>
               if idx < length (rt_buckets t)
               then (case bucket_replace (rt_buckets t ! idx) (ct_peer_id lru) candidate of
                       (r, b) \<Rightarrow> Some (r, t\<lparr>rt_buckets := (rt_buckets t)[idx := b]\<rparr>))
               else None))"

definition rt_remove :: "externs \<Rightarrow> routing_table \<Rightarrow> string \<Rightarrow> (bool \<times> routing_table) option" where
  "rt_remove E t peer_id =
     (case pid_from_hex E peer_id of
        None \<Rightarrow> Some (False, t)
      | Some pid \<Rightarrow>
          (case bucket_for t (key_from_peer_id pid) of
             None \<Rightarrow> Some (False, t)
           | Some idx \<Rightarrow>
               if idx < length (rt_buckets t)
               then (case bucket_remove (rt_buckets t ! idx) peer_id of
                       (r, b) \<Rightarrow> Some (r, t\<lparr>rt_buckets := (rt_buckets t)[idx := b]\<rparr>))
               else None))"

definition rt_contacts :: "routing_table \<Rightarrow> contact list" where
  "rt_contacts t = concat (map kb_contacts (rt_buckets t))"

text \<open>The pairs of a contact with its distance to the target; a contact without a key is dropped.\<close>

definition keyed_contacts :: "externs \<Rightarrow> key \<Rightarrow> contact list \<Rightarrow> (contact \<times> distance) list" where
  "keyed_contacts E target cs =
     List.map_filter (\<lambda>c. map_option (\<lambda>k. (c, distance target k)) (contact_key E c)) cs"

definition rt_closest :: "externs \<Rightarrow> routing_table \<Rightarrow> key \<Rightarrow> contact list" where
  "rt_closest E t target =
     map fst (take (rt_k t) (sort_key snd (keyed_contacts E target (rt_contacts t))))"

definition rt_len :: "routing_table \<Rightarrow> nat" where
  "rt_len t = sum_list (map (\<lambda>b. length (kb_contacts b)) (rt_buckets t))"

definition rt_is_empty :: "routing_table \<Rightarrow> bool" where
  "rt_is_empty t \<longleftrightarrow> rt_len t = 0"

definition non_empty_bucket_indices :: "routing_table \<Rightarrow> nat list" where
  "non_empty_bucket_indices t =
     map fst (filter (\<lambda>(i, b). kb_contacts b \<noteq> []) (List.enumerate 0 (rt_buckets t)))"

subsection \<open>The invariant\<close>

definition contact_in_bucket :: "externs \<Rightarrow> key \<Rightarrow> nat \<Rightarrow> contact \<Rightarrow> bool" where
  "contact_in_bucket E lk i c \<longleftrightarrow>
     (case contact_key E c of None \<Rightarrow> False | Some key \<Rightarrow> bucket_index (distance lk key) = Some i)"

definition bucket_wf :: "externs \<Rightarrow> key \<Rightarrow> nat \<Rightarrow> nat \<Rightarrow> kbucket \<Rightarrow> bool" where
  "bucket_wf E lk k i b \<longleftrightarrow>
     kb_capacity b = k \<and> length (kb_contacts b) \<le> k
     \<and> distinct (map ct_peer_id (kb_contacts b))
     \<and> (\<forall>c\<in>set (kb_contacts b). contact_in_bucket E lk i c)"

definition rt_wf :: "externs \<Rightarrow> routing_table \<Rightarrow> bool" where
  "rt_wf E t \<longleftrightarrow>
     wf_key (rt_local_key t) \<and> length (rt_buckets t) = 256
     \<and> (\<forall>i<256. bucket_wf E (rt_local_key t) (rt_k t) i (rt_buckets t ! i))"

definition rt_ids :: "routing_table \<Rightarrow> string set" where
  "rt_ids t = ct_peer_id ` set (rt_contacts t)"

definition bucket_ids :: "kbucket \<Rightarrow> string set" where
  "bucket_ids b = ct_peer_id ` set (kb_contacts b)"

text \<open>A contact the table can hold: its identity decodes, to a key other than the node's own.\<close>

definition routable :: "externs \<Rightarrow> routing_table \<Rightarrow> contact \<Rightarrow> bool" where
  "routable E t c \<longleftrightarrow>
     (case contact_key E c of None \<Rightarrow> False | Some key \<Rightarrow> key \<noteq> rt_local_key t)"

subsection \<open>Bucket lemmas\<close>

lemma bucket_offer_total: "0 < kb_capacity b \<Longrightarrow> bucket_offer b c \<noteq> None"
  by (auto simp: bucket_offer_def Let_def split: option.split list.split)

lemma bucket_offer_cases:
  assumes "bucket_offer b c = Some (outcome, b')"
  obtains (refresh) xs old ys where "outcome = Inserted" "kb_contacts b = xs @ old # ys"
      "ct_peer_id old = ct_peer_id c" "b' = b\<lparr>kb_contacts := xs @ ys @ [c]\<rparr>"
  | (fresh) "outcome = Inserted" "ct_peer_id c \<notin> bucket_ids b"
      "length (kb_contacts b) < kb_capacity b" "b' = b\<lparr>kb_contacts := kb_contacts b @ [c]\<rparr>"
  | (full) lru rest where "outcome = Full lru" "ct_peer_id c \<notin> bucket_ids b"
      "kb_contacts b = lru # rest" "kb_capacity b \<le> length (kb_contacts b)" "b' = b"
proof (cases "position (\<lambda>x. ct_peer_id x = ct_peer_id c) (kb_contacts b)")
  case (Some pos)
  obtain ys x zs where
    "kb_contacts b = ys @ x # zs" "remove_at pos (kb_contacts b) = ys @ zs" "ct_peer_id x = ct_peer_id c"
    by (rule position_split[OF Some])
  with Some assms show thesis by (intro refresh[of ys x zs]) (simp_all add: bucket_offer_def Let_def)
next
  case None
  then have nin: "ct_peer_id c \<notin> bucket_ids b"
    by (auto simp: position_None bucket_ids_def)
  show thesis
  proof (cases "length (kb_contacts b) < kb_capacity b")
    case True
    with None assms nin show thesis by (intro fresh) (simp_all add: bucket_offer_def Let_def)
  next
    case False
    with None assms obtain lru rest where "kb_contacts b = lru # rest" "outcome = Full lru" "b' = b"
      by (auto simp: bucket_offer_def Let_def split: list.splits)
    with False nin show thesis by (intro full[of lru rest]) simp_all
  qed
qed

lemma bucket_offer_wf:
  assumes "bucket_wf E lk k i b" "contact_in_bucket E lk i c" "bucket_offer b c = Some (outcome, b')"
  shows "bucket_wf E lk k i b'"
  using assms(3)
proof (cases rule: bucket_offer_cases)
  case (refresh xs old ys)
  with assms show ?thesis by (auto simp: bucket_wf_def)
next
  case fresh
  with assms show ?thesis by (auto simp: bucket_wf_def bucket_ids_def)
next
  case (full lru rest)
  with assms show ?thesis by simp
qed

lemma bucket_offer_ids:
  assumes "bucket_offer b c = Some (outcome, b')"
  shows "bucket_ids b' = (case outcome of Inserted \<Rightarrow> insert (ct_peer_id c) (bucket_ids b)
                                        | Full _ \<Rightarrow> bucket_ids b)"
  using assms by (cases rule: bucket_offer_cases) (auto simp: bucket_ids_def)

lemma bucket_replace_wf:
  assumes "bucket_wf E lk k i b" "contact_in_bucket E lk i c" "ct_peer_id c \<notin> bucket_ids b"
  shows "bucket_wf E lk k i (snd (bucket_replace b lru c))"
  using assms by (auto simp: bucket_replace_def bucket_wf_def bucket_ids_def split: list.split)

lemma bucket_remove_cases:
  obtains (gone) ys x zs where "kb_contacts b = ys @ x # zs" "ct_peer_id x = p"
      "bucket_remove b p = (True, b\<lparr>kb_contacts := ys @ zs\<rparr>)"
  | (absent) "p \<notin> bucket_ids b" "bucket_remove b p = (False, b)"
proof (cases "position (\<lambda>c. ct_peer_id c = p) (kb_contacts b)")
  case None
  then have "p \<notin> bucket_ids b" by (auto simp: position_None bucket_ids_def)
  with None show thesis by (intro absent) (simp_all add: bucket_remove_def)
next
  case (Some pos)
  obtain ys x zs where
    "kb_contacts b = ys @ x # zs" "remove_at pos (kb_contacts b) = ys @ zs" "ct_peer_id x = p"
    by (rule position_split[OF Some])
  with Some show thesis by (intro gone[of ys x zs]) (simp_all add: bucket_remove_def)
qed

lemma bucket_remove_wf: "bucket_wf E lk k i b \<Longrightarrow> bucket_wf E lk k i (snd (bucket_remove b p))"
  by (cases rule: bucket_remove_cases[of b p]) (auto simp: bucket_wf_def)

lemma bucket_remove_ids:
  "bucket_wf E lk k i b \<Longrightarrow>
   bucket_ids (snd (bucket_remove b p)) = bucket_ids b - {p}
   \<and> (fst (bucket_remove b p) \<longleftrightarrow> p \<in> bucket_ids b)"
  by (cases rule: bucket_remove_cases[of b p])
    (auto simp: bucket_wf_def bucket_ids_def, (metis imageI)+)

subsection \<open>Table lemmas\<close>

lemma rt_wf_bucket:
  "rt_wf E t \<Longrightarrow> i < 256 \<Longrightarrow> bucket_wf E (rt_local_key t) (rt_k t) i (rt_buckets t ! i)"
  by (simp add: rt_wf_def)

lemma rt_wf_update:
  "rt_wf E t \<Longrightarrow> bucket_wf E (rt_local_key t) (rt_k t) i b \<Longrightarrow>
   rt_wf E (t\<lparr>rt_buckets := (rt_buckets t)[i := b]\<rparr>)"
  unfolding rt_wf_def
proof (intro conjI allI impI)
  fix j :: nat
  assume wf: "wf_key (rt_local_key t) \<and> length (rt_buckets t) = 256
      \<and> (\<forall>i<256. bucket_wf E (rt_local_key t) (rt_k t) i (rt_buckets t ! i))"
    and b: "bucket_wf E (rt_local_key t) (rt_k t) i b" and "j < 256"
  then show "bucket_wf E (rt_local_key (t\<lparr>rt_buckets := (rt_buckets t)[i := b]\<rparr>))
      (rt_k (t\<lparr>rt_buckets := (rt_buckets t)[i := b]\<rparr>)) j
      (rt_buckets (t\<lparr>rt_buckets := (rt_buckets t)[i := b]\<rparr>) ! j)"
    by (cases "j = i") simp_all
qed simp_all

lemma rt_new_contacts [simp]: "rt_contacts (rt_new pid k) = []"
  by (simp add: rt_contacts_def rt_new_def kbucket_new_def comp_def del: upt_rec_numeral)

lemma rt_new_wf: "length p = 32 \<Longrightarrow> rt_wf E (rt_new p k)"
  by (simp add: rt_wf_def rt_new_def wf_key_def key_from_peer_id_def bucket_wf_def kbucket_new_def
      del: upt_rec_numeral)

lemma rt_ids_UN: "rt_ids t = (\<Union>i<length (rt_buckets t). bucket_ids (rt_buckets t ! i))"
  by (force simp: rt_ids_def rt_contacts_def bucket_ids_def in_set_conv_nth)

lemma rt_ids_update:
  assumes "i < length (rt_buckets t)"
  shows "rt_ids (t\<lparr>rt_buckets := (rt_buckets t)[i := b]\<rparr>) =
    bucket_ids b \<union> (\<Union>j\<in>{..<length (rt_buckets t)} - {i}. bucket_ids (rt_buckets t ! j))"
  using assms by (force simp: rt_ids_UN nth_list_update split: if_splits)

lemma rt_ids_split:
  "i < length (rt_buckets t) \<Longrightarrow> rt_ids t =
    bucket_ids (rt_buckets t ! i) \<union> (\<Union>j\<in>{..<length (rt_buckets t)} - {i}. bucket_ids (rt_buckets t ! j))"
  by (auto simp: rt_ids_UN)

definition id_bucket :: "externs \<Rightarrow> routing_table \<Rightarrow> string \<Rightarrow> nat option" where
  "id_bucket E t p = Option.bind (map_option key_from_peer_id (pid_from_hex E p)) (bucket_for t)"

lemma contact_in_bucket_id:
  "contact_in_bucket E (rt_local_key t) i c \<Longrightarrow> id_bucket E t (ct_peer_id c) = Some i"
  by (auto simp: id_bucket_def bucket_for_def contact_in_bucket_def contact_key_def
      contact_peer_id_def split: option.splits)

lemma id_bucket_wf:
  assumes "rt_wf E t" "i < 256" "p \<in> bucket_ids (rt_buckets t ! i)"
  shows "id_bucket E t p = Some i"
proof -
  from assms(3) obtain c where c: "c \<in> set (kb_contacts (rt_buckets t ! i))" "p = ct_peer_id c"
    by (auto simp: bucket_ids_def)
  with rt_wf_bucket[OF assms(1,2)] show ?thesis
    by (simp add: bucket_wf_def contact_in_bucket_id)
qed

lemma bucket_for_less: "rt_wf E t \<Longrightarrow> bucket_for t key = Some i \<Longrightarrow> i < 256"
  unfolding bucket_for_def by (rule bucket_index_less) simp_all

lemma contact_key_wf: "externs_ok E \<Longrightarrow> contact_key E c = Some key \<Longrightarrow> wf_key key"
  by (auto simp: contact_key_def contact_peer_id_def key_from_peer_id_def wf_key_def
      dest: externs_ok_from_hex)

lemma routable_bucket:
  assumes "externs_ok E" "rt_wf E t"
  shows "routable E t c \<longleftrightarrow> (\<exists>key i. contact_key E c = Some key \<and> bucket_for t key = Some i)"
proof (cases "contact_key E c")
  case (Some key)
  have "bucket_for t key = None \<longleftrightarrow> rt_local_key t = key"
    unfolding bucket_for_def using assms contact_key_wf[OF assms(1) Some]
    by (intro bucket_index_distance_None) (auto simp: rt_wf_def)
  with Some show ?thesis by (auto simp: routable_def)
qed (simp add: routable_def)

lemma rt_insert_cases:
  assumes "externs_ok E" "rt_wf E t"
  obtains (ignored) "\<not> routable E t c" "rt_insert E t c = Some (Inserted, t)"
  | (offered) i where "i < 256" "routable E t c" "contact_in_bucket E (rt_local_key t) i c"
      "rt_insert E t c = map_option (\<lambda>(outcome, b). (outcome, t\<lparr>rt_buckets := (rt_buckets t)[i := b]\<rparr>))
         (bucket_offer (rt_buckets t ! i) c)"
proof (cases "routable E t c")
  case True
  then obtain key i where k: "contact_key E c = Some key" "bucket_for t key = Some i"
    using routable_bucket[OF assms] by blast
  have i: "i < 256" using bucket_for_less[OF assms(2) k(2)] .
  show thesis
    by (rule offered[OF i True])
      (use k i assms(2) in \<open>auto simp: rt_insert_def contact_in_bucket_def bucket_for_def rt_wf_def
         split: option.split\<close>)
next
  case False
  then have "rt_insert E t c = Some (Inserted, t)"
    using routable_bucket[OF assms, of c] by (auto simp: rt_insert_def split: option.split)
  with False show thesis by (rule ignored)
qed

lemma rt_insert_wf:
  assumes "externs_ok E" "rt_wf E t" "rt_insert E t c = Some (outcome, t')"
  shows "rt_wf E t' \<and> rt_local_key t' = rt_local_key t \<and> rt_k t' = rt_k t"
  using assms(1,2)
proof (cases rule: rt_insert_cases[where c = c])
  case ignored
  with assms show ?thesis by simp
next
  case (offered i)
  with assms(3) obtain b where b: "bucket_offer (rt_buckets t ! i) c = Some (outcome, b)"
    "t' = t\<lparr>rt_buckets := (rt_buckets t)[i := b]\<rparr>" by auto
  have "bucket_wf E (rt_local_key t) (rt_k t) i b"
    using bucket_offer_wf[OF rt_wf_bucket[OF assms(2) offered(1)] offered(3) b(1)] .
  with b(2) rt_wf_update[OF assms(2)] show ?thesis by simp
qed

lemma rt_insert_ids:
  assumes "externs_ok E" "rt_wf E t" "rt_insert E t c = Some (outcome, t')"
  shows "rt_ids t' = (if routable E t c \<and> outcome = Inserted then insert (ct_peer_id c) (rt_ids t) else rt_ids t)"
  using assms(1,2)
proof (cases rule: rt_insert_cases[where c = c])
  case ignored
  with assms show ?thesis by simp
next
  case (offered i)
  with assms(3) obtain b where b: "bucket_offer (rt_buckets t ! i) c = Some (outcome, b)"
    "t' = t\<lparr>rt_buckets := (rt_buckets t)[i := b]\<rparr>" by auto
  have i: "i < length (rt_buckets t)" using offered(1) assms(2) by (simp add: rt_wf_def)
  show ?thesis
    using bucket_offer_ids[OF b(1)] offered(2)
    by (cases outcome) (auto simp: b(2) rt_ids_update[OF i] rt_ids_split[OF i])
qed

lemma rt_insert_total:
  assumes "externs_ok E" "rt_wf E t" "0 < rt_k t"
  shows "\<exists>outcome t'. rt_insert E t c = Some (outcome, t')"
  using assms(1,2)
proof (cases rule: rt_insert_cases[where c = c])
  case (offered i)
  have "bucket_offer (rt_buckets t ! i) c \<noteq> None"
    using rt_wf_bucket[OF assms(2) offered(1)] assms(3)
    by (intro bucket_offer_total) (simp add: bucket_wf_def)
  with offered(4) show ?thesis by auto
qed simp

lemma rt_contacts_distinct: 
  assumes "rt_wf E t" shows "distinct (map ct_peer_id (rt_contacts t))"
proof -
  have "distinct (concat (map (\<lambda>b. map ct_peer_id (kb_contacts b)) (rt_buckets t)))"
  proof (rule distinct_concat_nth)
    fix i assume "i < length (rt_buckets t)"
    with assms show "distinct (map ct_peer_id (kb_contacts (rt_buckets t ! i)))"
      by (simp add: rt_wf_def bucket_wf_def)
  next
    fix i j :: nat assume ij: "i < j" "j < length (rt_buckets t)"
    then have "j < 256" "i < 256" using assms by (simp_all add: rt_wf_def)
    then have "bucket_ids (rt_buckets t ! i) \<inter> bucket_ids (rt_buckets t ! j) = {}"
      using ij(1) id_bucket_wf[OF assms, of i] id_bucket_wf[OF assms, of j] by fastforce
    then show "set (map ct_peer_id (kb_contacts (rt_buckets t ! i)))
       \<inter> set (map ct_peer_id (kb_contacts (rt_buckets t ! j))) = {}"
      unfolding set_map bucket_ids_def[symmetric] .
  qed
  then show ?thesis by (simp add: rt_contacts_def map_concat comp_def)
qed

lemma rt_contacts_routable:
  assumes "externs_ok E" "rt_wf E t" "c \<in> set (rt_contacts t)"
  shows "routable E t c"
proof -
  from assms(3) obtain b where "b \<in> set (rt_buckets t)" "c \<in> set (kb_contacts b)"
    by (auto simp: rt_contacts_def)
  then obtain i where "i < 256" "c \<in> set (kb_contacts (rt_buckets t ! i))"
    using assms(2) by (metis in_set_conv_nth rt_wf_def)
  with assms rt_wf_bucket[OF assms(2)] have "contact_in_bucket E (rt_local_key t) i c"
    by (auto simp: bucket_wf_def)
  then show ?thesis
    unfolding routable_bucket[OF assms(1,2)]
    by (auto simp: contact_in_bucket_def bucket_for_def split: option.splits)
qed

lemma rt_len_contacts: "rt_len t = length (rt_contacts t)"
  by (simp add: rt_len_def rt_contacts_def length_concat comp_def)

subsection \<open>Closest contacts\<close>

interpretation nearest: ranked_selection
  "\<lambda>(E, t, target). keyed_contacts E target (rt_contacts t)"
  "\<lambda>(E, t, target). rt_k t"
  "\<lambda>_. snd"
  "\<lambda>(E, t, target). take (rt_k t) (sort_key snd (keyed_contacts E target (rt_contacts t)))"
  by unfold_locales (simp split: prod.split)

definition contact_distance :: "externs \<Rightarrow> key \<Rightarrow> contact \<Rightarrow> distance" where
  "contact_distance E target c = distance target (the (contact_key E c))"

lemma keyed_contacts_map:
  "\<forall>c\<in>set cs. contact_key E c \<noteq> None \<Longrightarrow>
   keyed_contacts E target cs = map (\<lambda>c. (c, contact_distance E target c)) cs"
  by (induction cs)
    (auto simp: keyed_contacts_def List.map_filter_def contact_distance_def)

lemma keyed_contacts_mem:
  "(c, d) \<in> set (keyed_contacts E target cs) \<Longrightarrow> c \<in> set cs \<and> d = contact_distance E target c"
  by (auto simp: keyed_contacts_def List.map_filter_def contact_distance_def)

subsection \<open>Removal and replacement\<close>

lemma rt_remove_correct_aux:
  assumes "externs_ok E" "rt_wf E t"
  shows "\<exists>r t'. rt_remove E t p = Some (r, t') \<and> rt_wf E t' \<and> rt_ids t' = rt_ids t - {p}
           \<and> (r \<longleftrightarrow> p \<in> rt_ids t)"
proof (cases "id_bucket E t p")
  case None
  have "p \<notin> rt_ids t"
  proof
    assume "p \<in> rt_ids t"
    then obtain i where "i < 256" "p \<in> bucket_ids (rt_buckets t ! i)"
      using assms(2) by (auto simp: rt_ids_UN rt_wf_def)
    with id_bucket_wf[OF assms(2)] None show False by auto
  qed
  moreover have "rt_remove E t p = Some (False, t)"
    using None by (auto simp: rt_remove_def id_bucket_def split: option.split)
  ultimately show ?thesis using assms(2) by auto
next
  case (Some i)
  then have i: "i < 256" using bucket_for_less[OF assms(2)]
    by (auto simp: id_bucket_def bind_eq_Some_conv)
  then have il: "i < length (rt_buckets t)" using assms(2) by (simp add: rt_wf_def)
  obtain r b where rb: "bucket_remove (rt_buckets t ! i) p = (r, b)" by fastforce
  note wf = rt_wf_bucket[OF assms(2) i]
  have eq: "rt_remove E t p = Some (r, t\<lparr>rt_buckets := (rt_buckets t)[i := b]\<rparr>)"
    using Some il rb by (auto simp: rt_remove_def id_bucket_def bind_eq_Some_conv split: option.split)
  have other: "p \<notin> bucket_ids (rt_buckets t ! j)" if "j < 256" "j \<noteq> i" for j
    using id_bucket_wf[OF assms(2) that(1), of p] Some that(2) by auto
  have "bucket_ids b = bucket_ids (rt_buckets t ! i) - {p}" "r \<longleftrightarrow> p \<in> bucket_ids (rt_buckets t ! i)"
    using bucket_remove_ids[OF wf, of p] rb by simp_all
  moreover have "bucket_wf E (rt_local_key t) (rt_k t) i b"
    using bucket_remove_wf[OF wf, of p] rb by simp
  moreover have "length (rt_buckets t) = 256" using assms(2) by (simp add: rt_wf_def)
  ultimately show ?thesis
    using eq other rt_wf_update[OF assms(2)] il
    by (auto simp: rt_ids_update[OF il] rt_ids_split[OF il])
qed

lemma rt_replace_cases:
  assumes "externs_ok E" "rt_wf E t"
  obtains (ignored) "rt_replace E t lru c = Some (False, t)"
  | (swapped) i front rest where "i < 256" "contact_in_bucket E (rt_local_key t) i c"
      "kb_contacts (rt_buckets t ! i) = front # rest" "ct_peer_id front = ct_peer_id lru"
      "rt_replace E t lru c = Some (True, t\<lparr>rt_buckets := (rt_buckets t)
         [i := (rt_buckets t ! i)\<lparr>kb_contacts := rest @ [c]\<rparr>]\<rparr>)"
proof (cases "\<exists>key i. contact_key E c = Some key \<and> bucket_for t key = Some i")
  case True
  then obtain key i where k: "contact_key E c = Some key" "bucket_for t key = Some i" by blast
  have i: "i < 256" "i < length (rt_buckets t)"
    using bucket_for_less[OF assms(2) k(2)] assms(2) by (simp_all add: rt_wf_def)
  show thesis
  proof (cases "\<exists>front rest. kb_contacts (rt_buckets t ! i) = front # rest
      \<and> ct_peer_id front = ct_peer_id lru")
    case True
    then obtain front rest where f: "kb_contacts (rt_buckets t ! i) = front # rest"
      "ct_peer_id front = ct_peer_id lru" by blast
    show thesis
      by (rule swapped[of i front rest])
        (use f i k in \<open>simp_all add: rt_replace_def bucket_replace_def contact_in_bucket_def bucket_for_def\<close>)
  next
    case False
    then have "bucket_replace (rt_buckets t ! i) (ct_peer_id lru) c = (False, rt_buckets t ! i)"
      by (auto simp: bucket_replace_def split: list.split)
    with i k show thesis by (intro ignored) (simp add: rt_replace_def)
  qed
next
  case False
  then show thesis by (intro ignored) (auto simp: rt_replace_def split: option.split)
qed

subsection \<open>Properties\<close>

text \<open>C24. Offering any contact to a well-formed table with positive bucket size neither panics
  nor breaks the invariant, and never evicts: every peer known before is still known. A routable
  contact is then in the table, unless its bucket was full of other peers, in which case the table
  is unchanged and the outcome names a contact of the table to be pinged.\<close>

theorem rt_insert_never_evicts:
  assumes "externs_ok E" "rt_wf E t" "0 < rt_k t"
  shows "\<exists>outcome t'. rt_insert E t c = Some (outcome, t') \<and> rt_wf E t'
    \<and> rt_ids t \<subseteq> rt_ids t' \<and> rt_ids t' \<subseteq> insert (ct_peer_id c) (rt_ids t)
    \<and> (case outcome of
         Inserted \<Rightarrow> (if routable E t c then ct_peer_id c \<in> rt_ids t' else t' = t)
       | Full lru \<Rightarrow> t' = t \<and> ct_peer_id lru \<in> rt_ids t \<and> ct_peer_id c \<notin> rt_ids t)"
proof -
  obtain outcome t' where ins: "rt_insert E t c = Some (outcome, t')"
    using rt_insert_total[OF assms] by blast
  note wf' = rt_insert_wf[OF assms(1,2) ins] and ids = rt_insert_ids[OF assms(1,2) ins]
  have "case outcome of Inserted \<Rightarrow> (if routable E t c then ct_peer_id c \<in> rt_ids t' else t' = t)
       | Full lru \<Rightarrow> t' = t \<and> ct_peer_id lru \<in> rt_ids t \<and> ct_peer_id c \<notin> rt_ids t"
    using assms(1,2)
  proof (cases rule: rt_insert_cases[where c = c])
    case ignored
    with ins show ?thesis by simp
  next
    case (offered i)
    with ins obtain b where b: "bucket_offer (rt_buckets t ! i) c = Some (outcome, b)"
      "t' = t\<lparr>rt_buckets := (rt_buckets t)[i := b]\<rparr>" by auto
    have il: "i < length (rt_buckets t)" using offered(1) assms(2) by (simp add: rt_wf_def)
    have other: "ct_peer_id c \<notin> bucket_ids (rt_buckets t ! j)" if "j < length (rt_buckets t)" "j \<noteq> i" for j
      using id_bucket_wf[OF assms(2), of j] contact_in_bucket_id[OF offered(3)] that assms(2)
      by (auto simp: rt_wf_def)
    from b(1) show ?thesis
    proof (cases rule: bucket_offer_cases)
      case (full lru rest)
      with b(2) il other show ?thesis
        by (auto simp: rt_ids_split[OF il] bucket_ids_def)
    qed (use ids offered(2) in auto)
  qed
  with ins wf' ids show ?thesis by auto
qed

theorem rt_insert_never_evicts_witness:
  "\<exists>outcome t'. rt_insert sample_externs (rt_new (replicate 32 0) 2)
       \<lparr>ct_peer_id = ''zz'', ct_addresses = []\<rparr> = Some (outcome, t') \<and> rt_wf sample_externs t'"
  using rt_insert_never_evicts[OF sample_externs_ok rt_new_wf[of "replicate 32 0" sample_externs 2],
      of "\<lparr>ct_peer_id = ''zz'', ct_addresses = []\<rparr>"]
  by (auto simp: rt_new_def)

lemma rt_closest_facts:
  assumes "externs_ok E" "rt_wf E t"
  shows "length (rt_closest E t target) = min (rt_k t) (rt_len t)
    \<and> distinct (map ct_peer_id (rt_closest E t target))
    \<and> set (rt_closest E t target) \<subseteq> set (rt_contacts t)
    \<and> sorted (map (contact_distance E target) (rt_closest E t target))
    \<and> (\<forall>c\<in>set (rt_closest E t target). \<forall>c'\<in>set (rt_contacts t) - set (rt_closest E t target).
         contact_distance E target c \<le> contact_distance E target c')"
proof -
  let ?cs = "rt_contacts t" and ?d = "contact_distance E target"
  have keyed: "keyed_contacts E target ?cs = map (\<lambda>c. (c, ?d c)) ?cs"
    using rt_contacts_routable[OF assms]
    by (intro keyed_contacts_map) (fastforce simp: routable_def split: option.splits)
  let ?ch = "take (rt_k t) (sort_key snd (keyed_contacts E target ?cs))"
  have sub: "set ?ch \<subseteq> (\<lambda>c. (c, ?d c)) ` set ?cs"
    using nearest.chosen_subset[of "(E, t, target)"] by (simp add: keyed)
  have r: "rt_closest E t target = map fst ?ch" by (simp add: rt_closest_def)
  have snd_d: "snd p = ?d (fst p)" if "p \<in> set ?ch" for p using sub that by auto
  have "distinct (map (\<lambda>p. ct_peer_id (fst p)) (keyed_contacts E target ?cs))"
    using rt_contacts_distinct[OF assms(2)] by (simp add: keyed comp_def)
  then have dist: "distinct (map (\<lambda>p. ct_peer_id (fst p)) ?ch)"
    using nearest.chosen_distinct[of "\<lambda>p. ct_peer_id (fst p)" "(E, t, target)"] by simp
  have "sorted (map snd ?ch)" using nearest.chosen_sorted[of "(E, t, target)"] by simp
  moreover have "map snd ?ch = map ?d (map fst ?ch)" using snd_d by (auto simp: comp_def)
  ultimately have sorted: "sorted (map ?d (map fst ?ch))" by simp
  have near: "?d c \<le> ?d c'" if "c \<in> fst ` set ?ch" "c' \<in> set ?cs" "c' \<notin> fst ` set ?ch" for c c'
  proof -
    have "(c, ?d c) \<in> set ?ch" using that(1) sub by auto
    moreover have "(c', ?d c') \<in> set (keyed_contacts E target ?cs)" using that(2) by (simp add: keyed)
    moreover have "(c', ?d c') \<notin> set ?ch" using that(3) by force
    ultimately show ?thesis using nearest.chosen_nearest[of "(c, ?d c)" "(E, t, target)" "(c', ?d c')"] by simp
  qed
  have "length ?ch = min (rt_k t) (rt_len t)"
    by (simp add: keyed rt_len_contacts min.commute)
  with dist sorted near sub show ?thesis unfolding r by (auto simp: comp_def)
qed

text \<open>C25. The closest-contacts query answers with the k nearest contacts of the whole table:
  k of them (or all, when fewer are known), no peer twice, closest first, and no contact left out
  is nearer to the target than one returned.\<close>

theorem rt_closest_nearest:
  assumes "externs_ok E" "rt_wf E t"
  shows "length (rt_closest E t target) = min (rt_k t) (rt_len t)
    \<and> distinct (map ct_peer_id (rt_closest E t target))
    \<and> set (rt_closest E t target) \<subseteq> set (rt_contacts t)
    \<and> sorted (map (contact_distance E target) (rt_closest E t target))
    \<and> (\<forall>c\<in>set (rt_closest E t target). \<forall>c'\<in>set (rt_contacts t) - set (rt_closest E t target).
         contact_distance E target c \<le> contact_distance E target c')"
  using assms by (rule rt_closest_facts)

theorem rt_closest_nearest_witness:
  "length (rt_closest sample_externs (rt_new (replicate 32 0) 2) (replicate 32 7)) = 0"
  using rt_closest_nearest[OF sample_externs_ok rt_new_wf[of "replicate 32 0" sample_externs 2],
      of "replicate 32 7"]
  by (simp add: rt_new_def rt_len_def kbucket_new_def sum_list_triv comp_def del: upt_rec_numeral)

text \<open>Removing a peer removes exactly that peer and reports whether it was there; it never
  panics on a well-formed table and keeps the table well-formed.\<close>

theorem rt_remove_exact:
  assumes "externs_ok E" "rt_wf E t"
  shows "\<exists>r t'. rt_remove E t p = Some (r, t') \<and> rt_wf E t' \<and> rt_ids t' = rt_ids t - {p}
           \<and> (r \<longleftrightarrow> p \<in> rt_ids t)"
  using assms by (rule rt_remove_correct_aux)

theorem rt_remove_exact_witness:
  "\<exists>r t'. rt_remove sample_externs (rt_new (replicate 32 0) 2) ''zz'' = Some (r, t')
     \<and> rt_ids t' = rt_ids (rt_new (replicate 32 0) 2) - {''zz''}"
  using rt_remove_exact[OF sample_externs_ok rt_new_wf[of "replicate 32 0" sample_externs 2]]
  by fastforce

text \<open>Completing a ping-and-replace keeps the table well-formed when the candidate is not in
  it yet: it swaps the named contact for the candidate only if that contact is still at the front
  of the candidate's bucket, and otherwise changes nothing.\<close>

theorem rt_replace_guarded:
  assumes "externs_ok E" "rt_wf E t" "ct_peer_id c \<notin> rt_ids t"
  shows "\<exists>r t'. rt_replace E t lru c = Some (r, t') \<and> rt_wf E t'
    \<and> (if r then ct_peer_id lru \<in> rt_ids t \<and> rt_ids t' = insert (ct_peer_id c) (rt_ids t - {ct_peer_id lru})
       else t' = t)"
  using assms(1,2)
proof (cases rule: rt_replace_cases[where lru = lru and c = c])
  case ignored
  with assms show ?thesis by auto
next
  case (swapped i front rest)
  let ?b = "rt_buckets t ! i" and ?p = "ct_peer_id lru"
  let ?b' = "?b\<lparr>kb_contacts := rest @ [c]\<rparr>"
  have il: "i < length (rt_buckets t)" "length (rt_buckets t) = 256"
    using swapped(1) assms(2) by (simp_all add: rt_wf_def)
  note wf = rt_wf_bucket[OF assms(2) swapped(1)]
  have nin: "ct_peer_id c \<notin> bucket_ids ?b" using assms(3) by (simp add: rt_ids_split[OF il(1)])
  have "snd (bucket_replace ?b ?p c) = ?b'" using swapped by (simp add: bucket_replace_def)
  then have wf': "bucket_wf E (rt_local_key t) (rt_k t) i ?b'"
    using bucket_replace_wf[OF wf swapped(2) nin, of ?p] by simp
  have p: "?p \<in> bucket_ids ?b" using swapped by (force simp: bucket_ids_def)
  have other: "?p \<notin> bucket_ids (rt_buckets t ! j)" if "j < 256" "j \<noteq> i" for j
    using id_bucket_wf[OF assms(2) that(1)] id_bucket_wf[OF assms(2) swapped(1) p] that(2) by auto
  have "bucket_ids ?b' = insert (ct_peer_id c) (bucket_ids ?b - {?p})"
    using wf swapped(3,4) nin by (auto simp: bucket_ids_def bucket_wf_def image_iff)
  with swapped(5) wf' rt_wf_update[OF assms(2)] p other il nin show ?thesis
    by (auto simp: rt_ids_update[OF il(1)] rt_ids_split[OF il(1)])
qed

theorem rt_replace_guarded_witness:
  "\<exists>r t'. rt_replace sample_externs (rt_new (replicate 32 0) 2)
       \<lparr>ct_peer_id = ''a'', ct_addresses = []\<rparr> \<lparr>ct_peer_id = ''b'', ct_addresses = []\<rparr> = Some (r, t')
     \<and> rt_wf sample_externs t'"
proof -
  have "rt_ids (rt_new (replicate 32 0) 2) = {}"
    by (auto simp: rt_ids_def rt_contacts_def rt_new_def kbucket_new_def)
  then show ?thesis
    using rt_replace_guarded[OF sample_externs_ok rt_new_wf[of "replicate 32 0" sample_externs 2],
        of "\<lparr>ct_peer_id = ''b'', ct_addresses = []\<rparr>" "\<lparr>ct_peer_id = ''a'', ct_addresses = []\<rparr>"]
    by fastforce
qed

text \<open>Without that precondition a replacement double-counts a peer: a bucket that already
  holds the candidate behind the evicted front ends up listing the candidate twice.\<close>

theorem bucket_replace_duplicates_present_candidate:
  "bucket_replace \<lparr>kb_contacts = [a, c], kb_capacity = 2\<rparr> (ct_peer_id a) c
     = (True, \<lparr>kb_contacts = [c, c], kb_capacity = 2\<rparr>)"
  by (simp add: bucket_replace_def)

subsection \<open>Contents\<close>

lemma rt_contacts_update:
  assumes "i < length (rt_buckets t)"
  shows "set (rt_contacts (t\<lparr>rt_buckets := (rt_buckets t)[i := b]\<rparr>)) \<subseteq> set (kb_contacts b) \<union> set (rt_contacts t)"
  using set_update_subset_insert[of "rt_buckets t" i b] by (auto simp: rt_contacts_def)

lemma bucket_contacts_subset:
  "i < length (rt_buckets t) \<Longrightarrow> set (kb_contacts (rt_buckets t ! i)) \<subseteq> set (rt_contacts t)"
  using nth_mem[of i "rt_buckets t"] by (force simp: rt_contacts_def)

lemma rt_insert_contacts:
  assumes "rt_insert E t c = Some (outcome, t')"
  shows "set (rt_contacts t') \<subseteq> insert c (set (rt_contacts t))
    \<and> rt_local_key t' = rt_local_key t \<and> rt_k t' = rt_k t"
proof -
  consider "t' = t"
    | i b where "i < length (rt_buckets t)" "bucket_offer (rt_buckets t ! i) c = Some (outcome, b)"
      "t' = t\<lparr>rt_buckets := (rt_buckets t)[i := b]\<rparr>"
  proof (cases "Option.bind (contact_key E c) (bucket_for t)")
    case None
    with assms that(1) show ?thesis by (cases "contact_key E c") (simp_all add: rt_insert_def)
  next
    case (Some i)
    then obtain key where "contact_key E c = Some key" "bucket_for t key = Some i"
      by (auto simp: bind_eq_Some_conv)
    with assms that(2)[of i] show ?thesis
      by (cases "bucket_offer (rt_buckets t ! i) c") (auto simp: rt_insert_def split: if_splits)
  qed
  then show ?thesis
  proof cases
    case (2 i b)
    have "set (kb_contacts b) \<subseteq> insert c (set (kb_contacts (rt_buckets t ! i)))"
      using 2(2) by (cases rule: bucket_offer_cases) auto
    with bucket_contacts_subset[OF 2(1)] rt_contacts_update[OF 2(1), of b] 2(3) show ?thesis by auto
  qed auto
qed

lemma rt_remove_contacts:
  assumes "rt_remove E t p = Some (r, t')"
  shows "set (rt_contacts t') \<subseteq> set (rt_contacts t) \<and> rt_local_key t' = rt_local_key t \<and> rt_k t' = rt_k t"
proof -
  consider "t' = t"
    | i where "i < length (rt_buckets t)"
      "t' = t\<lparr>rt_buckets := (rt_buckets t)[i := snd (bucket_remove (rt_buckets t ! i) p)]\<rparr>"
  proof (cases "Option.bind (pid_from_hex E p) (\<lambda>pid. bucket_for t (key_from_peer_id pid))")
    case None
    with assms that(1) show ?thesis by (cases "pid_from_hex E p") (simp_all add: rt_remove_def)
  next
    case (Some i)
    then obtain pid where "pid_from_hex E p = Some pid" "bucket_for t (key_from_peer_id pid) = Some i"
      by (auto simp: bind_eq_Some_conv)
    with assms that(2)[of i] show ?thesis
      by (cases "bucket_remove (rt_buckets t ! i) p") (auto simp: rt_remove_def split: if_splits)
  qed
  then show ?thesis
  proof cases
    case (2 i)
    have "set (kb_contacts (snd (bucket_remove (rt_buckets t ! i) p))) \<subseteq> set (kb_contacts (rt_buckets t ! i))"
      by (cases rule: bucket_remove_cases[of "rt_buckets t ! i" p]) auto
    with bucket_contacts_subset[OF 2(1)] rt_contacts_update[OF 2(1)] 2(2) show ?thesis by fastforce
  qed auto
qed

lemma rt_closest_subset: "set (rt_closest E t target) \<subseteq> set (rt_contacts t)"
  by (auto simp: rt_closest_def keyed_contacts_def map_filter_def dest!: in_set_takeD split: option.splits)

end
