(* ===== verification/Dht_Error.thy ===== *)
theory Dht_Error
  imports Dht_Prelude
begin

text \<open>
  \<^verbatim>\<open>src/error.rs\<close>: the error type and its constructors. The text it carries is a
  \<open>dig_nat::SafeText\<close>, a type of another crate: its constructors and its rendering are the fields
  of the record \<open>safe_text\<close>, and its documented promise (the rendering has no control
  character) is \<open>safe_text_ok\<close>.
\<close>

datatype 't dht_error =
    Transport 't
  | MalformedResponse 't
  | InvalidHex 't
  | NoPeers
  | Timeout

record ('t, 'j) safe_text =
  st_from_static :: "string \<Rightarrow> 't"
  st_from_untrusted :: "string \<Rightarrow> 't"
  st_describing_json_error :: "'j \<Rightarrow> 't"
  st_display :: "'t \<Rightarrow> string"

definition control_free :: "string \<Rightarrow> bool" where
  "control_free s \<longleftrightarrow> list_all (\<lambda>c. 32 \<le> (of_char c :: nat) \<and> of_char c \<noteq> (127 :: nat)) s"

definition safe_text_ok :: "('t, 'j) safe_text \<Rightarrow> bool" where
  "safe_text_ok T \<longleftrightarrow> (\<forall>t. control_free (st_display T t))"

definition transport :: "'t \<Rightarrow> 't dht_error" where
  "transport text = Transport text"

definition transport_from_untrusted :: "('t, 'j) safe_text \<Rightarrow> string \<Rightarrow> 't dht_error" where
  "transport_from_untrusted T reason = Transport (st_from_untrusted T reason)"

definition malformed_response :: "('t, 'j) safe_text \<Rightarrow> 'j \<Rightarrow> 't dht_error" where
  "malformed_response T e = MalformedResponse (st_describing_json_error T e)"

definition invalid_hex :: "('t, 'j) safe_text \<Rightarrow> string \<Rightarrow> 't dht_error" where
  "invalid_hex T which = InvalidHex (st_from_static T which)"

fun error_display :: "('t, 'j) safe_text \<Rightarrow> 't dht_error \<Rightarrow> string" where
  "error_display T (Transport t) = ''transport error: '' @ st_display T t"
| "error_display T (MalformedResponse t) = ''malformed response: '' @ st_display T t"
| "error_display T (InvalidHex t) = ''invalid hex identifier: '' @ st_display T t"
| "error_display T NoPeers = ''no peers to query (routing table + bootstrap set are empty)''"
| "error_display T Timeout = ''rpc timed out''"

subsection \<open>Properties\<close>

text \<open>No error, whatever remote text it was built from, renders with a control character: a
  peer cannot break a log line through this type.\<close>

theorem error_display_control_free:
  assumes "safe_text_ok T"
  shows "control_free (error_display T e)"
  using assms by (cases e) (simp_all add: safe_text_ok_def control_free_def)

definition sample_safe_text :: "(string, string) safe_text" where
  "sample_safe_text =
     \<lparr>st_from_static = (\<lambda>s. s), st_from_untrusted = (\<lambda>s. s), st_describing_json_error = (\<lambda>e. e),
      st_display = filter (\<lambda>c. 32 \<le> (of_char c :: nat) \<and> of_char c \<noteq> (127 :: nat))\<rparr>"

theorem error_display_control_free_witness:
  "control_free (error_display sample_safe_text
     (transport_from_untrusted sample_safe_text (''refused'' @ [CHR 0x0A] @ ''ERROR forged'')))"
  by (rule error_display_control_free)
    (auto simp: safe_text_ok_def sample_safe_text_def control_free_def list_all_iff)

end
