(* ===== verification/Wire_Frame.thy ===== *)
theory Wire_Frame
  imports Routing_Table Dht_Error
begin

text \<open>
  \<^verbatim>\<open>src/wire.rs\<close>: the four requests, their responses, and the framing: a big-endian 32-bit
  length, then the JSON body. The JSON codec (\<open>serde_json\<close> on the derived implementations) is a
  parameter: \<open>to_vec\<close> (\<open>None\<close> where the code's \<open>expect\<close> panics) and \<open>from_slice\<close>. A reader is
  the list of bytes it will deliver before it closes; decoding returns what it leaves unread.
\<close>

datatype dht_request =
    FindNode string
  | FindProviders string
  | AddProvider provider_record
  | Ping u64

datatype dht_response =
    Nodes "contact list"
  | Providers "provider_record list" "contact list"
  | AddProviderOk
  | Pong u64
  | ErrorResponse u32 string

definition MAX_FRAMED_BODY :: nat where "MAX_FRAMED_BODY = 256 * 1024"

datatype io_error_kind = InvalidData | UnexpectedEof

type_synonym io_error = "io_error_kind \<times> string"

definition u32_to_be_bytes :: "u32 \<Rightarrow> u8 list" where
  "u32_to_be_bytes w = [ucast (drop_bit 24 w), ucast (drop_bit 16 w), ucast (drop_bit 8 w), ucast w]"

definition u32_from_be_bytes :: "u8 list \<Rightarrow> u32" where
  "u32_from_be_bytes bs = foldl (\<lambda>acc b. push_bit 8 acc OR ucast b) 0 bs"

definition encode_framed :: "('m \<Rightarrow> u8 list option) \<Rightarrow> 'm \<Rightarrow> u8 list option" where
  "encode_framed to_vec value =
     (case to_vec value of
        None \<Rightarrow> None
      | Some body \<Rightarrow> Some (u32_to_be_bytes (word_of_nat (length body)) @ body))"

text \<open>\<open>read_exact\<close>: all the bytes asked for, or an end-of-file error with the stream exhausted.\<close>

definition read_exact :: "nat \<Rightarrow> u8 list \<Rightarrow> (io_error + u8 list) \<times> u8 list" where
  "read_exact n r =
     (if n \<le> length r then (Inr (take n r), drop n r) else (Inl (UnexpectedEof, ''early eof''), []))"

definition malformed_message :: "('t, 'j) safe_text \<Rightarrow> 'j \<Rightarrow> io_error" where
  "malformed_message T e =
     (InvalidData, ''malformed dht message: '' @ st_display T (st_describing_json_error T e))"

definition decode_framed ::
  "('t, 'j) safe_text \<Rightarrow> (u8 list \<Rightarrow> 'j + 'm) \<Rightarrow> u8 list \<Rightarrow> (io_error + 'm) \<times> u8 list" where
  "decode_framed T from_slice r =
     (case read_exact 4 r of
        (Inl e, r1) \<Rightarrow> (Inl e, r1)
      | (Inr len_buf, r1) \<Rightarrow>
          (let len = unat (u32_from_be_bytes len_buf)
           in if len > MAX_FRAMED_BODY then (Inl (InvalidData, ''dht message too large''), r1)
              else (case read_exact len r1 of
                      (Inl e, r2) \<Rightarrow> (Inl e, r2)
                    | (Inr body, r2) \<Rightarrow>
                        (case from_slice body of
                           Inl e \<Rightarrow> (Inl (malformed_message T e), r2)
                         | Inr m \<Rightarrow> (Inr m, r2)))))"

definition request_encode :: "(dht_request \<Rightarrow> u8 list option) \<Rightarrow> dht_request \<Rightarrow> u8 list option" where
  "request_encode to_vec req = encode_framed to_vec req"

definition request_decode ::
  "('t, 'j) safe_text \<Rightarrow> (u8 list \<Rightarrow> 'j + dht_request) \<Rightarrow> u8 list \<Rightarrow> (io_error + dht_request) \<times> u8 list" where
  "request_decode T from_slice r = decode_framed T from_slice r"

definition response_encode :: "(dht_response \<Rightarrow> u8 list option) \<Rightarrow> dht_response \<Rightarrow> u8 list option" where
  "response_encode to_vec resp = encode_framed to_vec resp"

definition response_decode ::
  "('t, 'j) safe_text \<Rightarrow> (u8 list \<Rightarrow> 'j + dht_response) \<Rightarrow> u8 list \<Rightarrow> (io_error + dht_response) \<times> u8 list" where
  "response_decode T from_slice r = decode_framed T from_slice r"

subsection \<open>The length prefix\<close>

lemma length_u32_to_be_bytes [simp]: "length (u32_to_be_bytes w) = 4"
  by (simp add: u32_to_be_bytes_def)

lemma u32_be_round_trip [simp]: "u32_from_be_bytes (u32_to_be_bytes w) = w"
proof (rule bit_word_eqI)
  fix n
  assume n: "n < LENGTH(32)"
  consider "n < 8" | "8 \<le> n" "n < 16" | "16 \<le> n" "n < 24" | "24 \<le> n" by linarith
  then show "bit (u32_from_be_bytes (u32_to_be_bytes w)) n = bit w n"
    using n unfolding u32_to_be_bytes_def u32_from_be_bytes_def
    by cases (auto simp: bit_simps)
qed

lemma u32_be_four:
  assumes "length bs = 4"
  shows "u32_to_be_bytes (u32_from_be_bytes bs) = bs"
proof -
  from assms obtain a b c d where bs: "bs = [a, b, c, d]"
    by (auto simp: numeral_eq_Suc length_Suc_conv)
  have high: "\<not> bit x (8 + n)" "\<not> bit x (16 + n)" "\<not> bit x (24 + n)" for x :: u8 and n
    by (auto dest: bit_imp_le_length)
  show ?thesis
    unfolding bs u32_to_be_bytes_def u32_from_be_bytes_def
    by (auto intro!: bit_word_eqI simp: bit_simps high)
qed

lemma frame_length:
  "length body \<le> MAX_FRAMED_BODY \<Longrightarrow>
   unat (u32_from_be_bytes (u32_to_be_bytes (word_of_nat (length body)))) = length body"
  by (simp add: MAX_FRAMED_BODY_def unat_of_nat take_bit_nat_eq_self_iff)

lemma decode_frame:
  assumes "length body \<le> MAX_FRAMED_BODY"
  shows "decode_framed T from_slice (u32_to_be_bytes (word_of_nat (length body)) @ body @ rest) =
    ((case from_slice body of Inl e \<Rightarrow> Inl (malformed_message T e) | Inr m \<Rightarrow> Inr m), rest)"
  using frame_length[OF assms] assms
  by (simp add: decode_framed_def read_exact_def split: sum.split)

text \<open>What a successful decode has read.\<close>

lemma decode_framed_cases:
  assumes "decode_framed T from_slice r = (res, rest)"
  obtains (eof) "res = Inl (UnexpectedEof, ''early eof'')" "rest = []"
  | (large) len_buf where "length len_buf = 4" "r = len_buf @ rest"
      "MAX_FRAMED_BODY < unat (u32_from_be_bytes len_buf)" "res = Inl (InvalidData, ''dht message too large'')"
  | (body) body where "length body \<le> MAX_FRAMED_BODY"
      "r = u32_to_be_bytes (word_of_nat (length body)) @ body @ rest"
      "res = (case from_slice body of Inl e \<Rightarrow> Inl (malformed_message T e) | Inr m \<Rightarrow> Inr m)"
proof (cases "4 \<le> length r")
  case False
  with assms show thesis by (intro eof) (auto simp: decode_framed_def read_exact_def)
next
  case four: True
  let ?lb = "take 4 r" and ?r1 = "drop 4 r"
  let ?len = "unat (u32_from_be_bytes ?lb)"
  have lb: "length ?lb = 4" using four by simp
  show thesis
  proof (cases "MAX_FRAMED_BODY < ?len")
    case True
    with assms four show thesis
      by (intro large[of ?lb]) (auto simp: decode_framed_def read_exact_def Let_def)
  next
    case small: False
    show thesis
    proof (cases "?len \<le> length ?r1")
      case False
      with assms four small show thesis
        by (intro eof) (auto simp: decode_framed_def read_exact_def Let_def)
    next
      case True
      let ?body = "take ?len ?r1"
      have len: "length ?body = ?len" using True by simp
      have "u32_to_be_bytes (word_of_nat (length ?body)) = ?lb"
        unfolding len by (simp add: u32_be_four[OF lb])
      moreover have "rest = drop ?len ?r1" "res =
          (case from_slice ?body of Inl e \<Rightarrow> Inl (malformed_message T e) | Inr m \<Rightarrow> Inr m)"
        using assms four small True
        by (auto simp: decode_framed_def read_exact_def Let_def split: sum.splits)
      moreover have "r = ?lb @ ?body @ drop ?len ?r1" by (simp only: append_take_drop_id)
      moreover have "length ?body \<le> MAX_FRAMED_BODY" using small len by simp
      ultimately show thesis by (intro body[of ?body]) metis+
    qed
  qed
qed

subsection \<open>Properties\<close>

text \<open>C32. Decoding accepts exactly the well-formed frames: a result \<open>m\<close> with \<open>rest\<close> unread means
  that the stream began with the length and the bytes of a body within the bound which the JSON
  codec reads as \<open>m\<close>, and every such stream is accepted, consuming that frame and no byte more.\<close>

theorem decode_framed_iff:
  "decode_framed T from_slice r = (Inr m, rest) \<longleftrightarrow>
    (\<exists>body. length body \<le> MAX_FRAMED_BODY
       \<and> r = u32_to_be_bytes (word_of_nat (length body)) @ body @ rest \<and> from_slice body = Inr m)"
proof
  assume "decode_framed T from_slice r = (Inr m, rest)"
  then show "\<exists>body. length body \<le> MAX_FRAMED_BODY
       \<and> r = u32_to_be_bytes (word_of_nat (length body)) @ body @ rest \<and> from_slice body = Inr m"
    by (cases rule: decode_framed_cases) (auto split: sum.splits)
qed (auto simp: decode_frame)

text \<open>The framing adds and loses nothing: what \<open>encode\<close> writes, followed by anything, decodes to
  what the codec reads back from the body, and the reader is left at the next frame. The hypotheses
  are that the message serializes and that its body is within the bound (an encoder does not check
  it; a larger body is refused by every receiver, see the next property).\<close>

theorem request_frame_round_trip:
  assumes "to_vec req = Some body" "length body \<le> MAX_FRAMED_BODY" "from_slice body = Inr req'"
  shows "\<exists>frame. request_encode to_vec req = Some frame
    \<and> request_decode T from_slice (frame @ rest) = (Inr req', rest)"
  using assms by (simp add: request_encode_def request_decode_def encode_framed_def decode_frame)

theorem request_frame_round_trip_witness:
  "\<exists>frame. request_encode (\<lambda>_. Some [0x7b, 0x7d]) (Ping 7) = Some frame
    \<and> request_decode sample_safe_text (\<lambda>b. if b = [0x7b, 0x7d] then Inr (Ping 7) else Inl ''bad'')
        (frame @ [1, 2]) = (Inr (Ping 7), [1, 2])"
  by (rule request_frame_round_trip) (simp_all add: MAX_FRAMED_BODY_def)

text \<open>A hostile length prefix is refused before anything is read or allocated for it: when the
  announced length is above the bound the answer is an invalid-data error and the reader stands right
  after the prefix; when fewer bytes follow than announced, it is an end-of-file error; and no text
  of the peer appears in the error of a body that does not parse.\<close>

theorem hostile_frames_refused:
  "(length len_buf = 4 \<and> MAX_FRAMED_BODY < unat (u32_from_be_bytes len_buf) \<longrightarrow>
      decode_framed T from_slice (len_buf @ r) = (Inl (InvalidData, ''dht message too large''), r))
   \<and> (length len_buf = 4 \<and> length r < unat (u32_from_be_bytes len_buf)
        \<and> unat (u32_from_be_bytes len_buf) \<le> MAX_FRAMED_BODY \<longrightarrow>
      decode_framed T from_slice (len_buf @ r) = (Inl (UnexpectedEof, ''early eof''), []))
   \<and> (length len_buf < 4 \<longrightarrow>
      decode_framed T from_slice len_buf = (Inl (UnexpectedEof, ''early eof''), []))
   \<and> (length body \<le> MAX_FRAMED_BODY \<and> from_slice body = Inl e \<longrightarrow>
      decode_framed T from_slice (u32_to_be_bytes (word_of_nat (length body)) @ body @ r) =
        (Inl (InvalidData, ''malformed dht message: '' @ st_display T (st_describing_json_error T e)), r))"
  by (auto simp: decode_frame malformed_message_def) (simp_all add: decode_framed_def read_exact_def)

theorem hostile_frames_refused_witness:
  "decode_framed sample_safe_text (\<lambda>_. Inr (Ping 0)) ([0xFF, 0xFF, 0xFF, 0xFF] @ [1, 2]) =
     (Inl (InvalidData, ''dht message too large''), [1, 2])"
proof -
  have "unat (u32_from_be_bytes [0xFF, 0xFF, 0xFF, 0xFF]) = 4294967295"
    by (simp add: u32_from_be_bytes_def)
  then show ?thesis
    using hostile_frames_refused[of "[0xFF, 0xFF, 0xFF, 0xFF]" sample_safe_text
        "\<lambda>_. Inr (Ping 0)" "[1, 2]" "[]" "''x''"]
    by (simp add: MAX_FRAMED_BODY_def)
qed

end
