(* ===== verification/Iterative_Lookup.thy ===== *)
theory Iterative_Lookup
  imports Routing_Table "HOL-Library.Monad_Syntax"
begin

text \<open>
  \<^verbatim>\<open>src/lookup.rs\<close>: the iterative lookup. What the network answers is a parameter, the record
  \<open>lookup_env\<close>: \<open>le_query r c\<close> is what the task spawned for contact \<open>c\<close> in round \<open>r\<close> yields
  (an outcome, an error, or a join error when the task panicked or was cancelled) and
  \<open>le_order r batch\<close> is the order in which the tasks of the round complete. The loop is a recursion
  on the rounds left, which start at \<open>MAX_LOOKUP_ROUNDS\<close>; the code stops there too, so the bound is
  the code's own; \<open>ls_rounds\<close> counts the rounds that queried somebody. Two fields of the state are
  traces and influence nothing: \<open>ls_asked\<close> lists the contacts queried, \<open>ls_answers\<close> the outcomes
  folded in. The value \<open>None\<close> is the panic of a
  checked multiplication or addition of \<open>k\<close> and \<open>alpha\<close>.
\<close>

definition MAX_LOOKUP_ROUNDS :: nat where "MAX_LOOKUP_ROUNDS = 64"
definition MAX_PROVIDERS_PER_RESPONSE :: nat where "MAX_PROVIDERS_PER_RESPONSE = 64"
definition MAX_CLOSER_PER_RESPONSE :: nat where "MAX_CLOSER_PER_RESPONSE = 64"

record query_outcome =
  qo_closer :: "contact list"
  qo_providers :: "provider_record list"

record lookup_result =
  lr_closest :: "contact list"
  lr_providers :: "provider_record list"

record shortlist_entry =
  sl_contact :: contact
  sl_distance :: distance
  sl_queried :: bool
  sl_failed :: bool

datatype task_result = JoinFailed | Joined "query_outcome option"

record lookup_env =
  le_query :: "nat \<Rightarrow> contact \<Rightarrow> task_result"
  le_order :: "nat \<Rightarrow> contact list \<Rightarrow> contact list"

type_synonym answer = "contact \<times> query_outcome option"

record lookup_state =
  ls_shortlist :: "shortlist_entry list"
  ls_seen :: "string set"
  ls_providers :: "(string \<times> provider_record) list"
  ls_asked :: "contact list"
  ls_answers :: "answer list"
  ls_rounds :: nat

definition merge_contact ::
  "externs \<Rightarrow> key \<Rightarrow> contact \<Rightarrow> shortlist_entry list \<times> string set \<Rightarrow> shortlist_entry list \<times> string set" where
  "merge_contact E target c s =
     (case s of (shortlist, seen) \<Rightarrow>
        if ct_peer_id c \<in> seen then (shortlist, seen)
        else (case contact_key E c of
                None \<Rightarrow> (shortlist, seen)
              | Some key \<Rightarrow>
                  (shortlist @ [\<lparr>sl_contact = c, sl_distance = distance target key,
                                 sl_queried = False, sl_failed = False\<rparr>],
                   insert (ct_peer_id c) seen)))"

fun mark_queried :: "string \<Rightarrow> bool \<Rightarrow> shortlist_entry list \<Rightarrow> shortlist_entry list" where
  "mark_queried pid fl [] = []"
| "mark_queried pid fl (e # es) =
     (if ct_peer_id (sl_contact e) = pid then e\<lparr>sl_queried := True, sl_failed := fl\<rparr> # es
      else e # mark_queried pid fl es)"

definition shortlist_cap :: "nat \<Rightarrow> nat \<Rightarrow> nat option" where
  "shortlist_cap k al =
     do { a \<leftarrow> checked_usize (k * 3);
          b \<leftarrow> checked_usize (al * 2);
          c \<leftarrow> checked_usize (k + b);
          Some (max a c) }"

definition sort_and_cap :: "nat \<Rightarrow> nat \<Rightarrow> shortlist_entry list \<Rightarrow> shortlist_entry list option" where
  "sort_and_cap k al shortlist =
     do { cap \<leftarrow> shortlist_cap k al;
          let ordered = sort_key sl_distance shortlist;
          Some (if length ordered > cap then take cap ordered else ordered) }"

definition entry_or_insert :: "'k \<Rightarrow> 'v \<Rightarrow> ('k \<times> 'v) list \<Rightarrow> ('k \<times> 'v) list" where
  "entry_or_insert key v m = (if map_of m key = None then m @ [(key, v)] else m)"

definition max_providers_per_response :: "nat \<Rightarrow> nat" where
  "max_providers_per_response k = max MAX_PROVIDERS_PER_RESPONSE (saturating_usize (k * 2))"

definition max_closer_per_response :: "nat \<Rightarrow> nat" where
  "max_closer_per_response k = max MAX_CLOSER_PER_RESPONSE (saturating_usize (k * 2))"

text \<open>The \<open>alpha\<close> nearest entries not asked yet, and what their tasks return, in completion order.\<close>

definition next_batch :: "nat \<Rightarrow> shortlist_entry list \<Rightarrow> contact list" where
  "next_batch al shortlist =
     map sl_contact (take al (filter (\<lambda>e. \<not> sl_queried e \<and> \<not> sl_failed e) shortlist))"

definition join_results :: "lookup_env \<Rightarrow> nat \<Rightarrow> contact list \<Rightarrow> answer list" where
  "join_results env r batch =
     List.map_filter (\<lambda>c. case le_query env r c of JoinFailed \<Rightarrow> None | Joined res \<Rightarrow> Some (c, res))
       (le_order env r batch)"

definition fold_answer :: "externs \<Rightarrow> key \<Rightarrow> nat \<Rightarrow> answer \<Rightarrow> lookup_state \<Rightarrow> lookup_state" where
  "fold_answer E target k ans st =
     (let marked = mark_queried (ct_peer_id (fst ans)) (snd ans = None) (ls_shortlist st);
          st1 = st\<lparr>ls_shortlist := marked, ls_answers := ls_answers st @ [ans]\<rparr>
      in case snd ans of
           None \<Rightarrow> st1
         | Some outcome \<Rightarrow>
             (let ps = take (max_providers_per_response k) (qo_providers outcome);
                  cs = take (max_closer_per_response k) (qo_closer outcome);
                  merged = fold (merge_contact E target) cs (marked, ls_seen st)
              in st1\<lparr>ls_providers := fold (\<lambda>p m. entry_or_insert (provider_peer_id p) p m) ps (ls_providers st),
                     ls_shortlist := fst merged, ls_seen := snd merged\<rparr>))"

fun lookup_loop ::
  "externs \<Rightarrow> lookup_env \<Rightarrow> key \<Rightarrow> nat \<Rightarrow> nat \<Rightarrow> bool \<Rightarrow> nat \<Rightarrow> lookup_state \<Rightarrow> lookup_state option" where
  "lookup_loop E env target k al stop 0 st = Some st"
| "lookup_loop E env target k al stop (Suc left) st =
     (let batch = next_batch al (ls_shortlist st) in
      if batch = [] then Some st
      else
        let results = join_results env (ls_rounds st) batch;
            st1 = fold (fold_answer E target k) results
                    (st\<lparr>ls_asked := ls_asked st @ batch, ls_rounds := ls_rounds st + 1\<rparr>)
        in do { shortlist \<leftarrow> sort_and_cap k al (ls_shortlist st1);
                let st2 = st1\<lparr>ls_shortlist := shortlist\<rparr>;
                if stop \<and> ls_providers st2 \<noteq> [] then Some st2
                else if list_ex (\<lambda>e. \<not> sl_queried e \<and> \<not> sl_failed e) (take k shortlist)
                then lookup_loop E env target k al stop left st2
                else Some st2 })"

definition lookup_start :: "externs \<Rightarrow> key \<Rightarrow> contact list \<Rightarrow> nat \<Rightarrow> nat \<Rightarrow> lookup_state option" where
  "lookup_start E target seeds k al =
     (let seeded = fold (merge_contact E target) seeds ([], {})
      in do { shortlist \<leftarrow> sort_and_cap k al (fst seeded);
              Some \<lparr>ls_shortlist = shortlist, ls_seen = snd seeded, ls_providers = [],
                    ls_asked = [], ls_answers = [], ls_rounds = 0\<rparr> })"

definition lookup_finish :: "nat \<Rightarrow> lookup_state \<Rightarrow> lookup_result" where
  "lookup_finish k st =
     \<lparr>lr_closest = map sl_contact (take k (filter (\<lambda>e. \<not> sl_failed e) (ls_shortlist st))),
      lr_providers = map snd (ls_providers st)\<rparr>"

definition iterative_find ::
  "externs \<Rightarrow> lookup_env \<Rightarrow> key \<Rightarrow> contact list \<Rightarrow> nat \<Rightarrow> nat \<Rightarrow> bool \<Rightarrow>
     (lookup_result \<times> lookup_state) option" where
  "iterative_find E env target seeds k al stop =
     do { st \<leftarrow> lookup_start E target seeds k al;
          st' \<leftarrow> lookup_loop E env target k al stop MAX_LOOKUP_ROUNDS st;
          Some (lookup_finish k st', st') }"

subsection \<open>The shortlist\<close>

abbreviation sid :: "shortlist_entry \<Rightarrow> string" where
  "sid e \<equiv> ct_peer_id (sl_contact e)"

definition decodes :: "externs \<Rightarrow> string \<Rightarrow> bool" where
  "decodes E pid \<longleftrightarrow> pid_from_hex E pid \<noteq> None"

definition pid_distance :: "externs \<Rightarrow> key \<Rightarrow> string \<Rightarrow> distance" where
  "pid_distance E target pid = distance target (key_from_peer_id (the (pid_from_hex E pid)))"

text \<open>The shortlist lists peers it has seen, once each, at their true distance; a peer it has seen
  and dropped is no nearer than \<open>cap\<close> of those it kept.\<close>

definition shortlist_ok :: "externs \<Rightarrow> key \<Rightarrow> nat \<Rightarrow> shortlist_entry list \<times> string set \<Rightarrow> bool" where
  "shortlist_ok E target cap s \<longleftrightarrow>
     (case s of (sl, seen) \<Rightarrow>
        distinct (map sid sl) \<and> sid ` set sl \<subseteq> seen
        \<and> (\<forall>e\<in>set sl. sl_distance e = pid_distance E target (sid e))
        \<and> (\<forall>pid\<in>seen. decodes E pid)
        \<and> (\<forall>pid\<in>seen - sid ` set sl.
             cap \<le> length (filter (\<lambda>e. sl_distance e \<le> pid_distance E target pid) sl)))"

definition flags_ok :: "string set \<Rightarrow> string set \<Rightarrow> shortlist_entry list \<Rightarrow> bool" where
  "flags_ok answered failed sl \<longleftrightarrow>
     (\<forall>e\<in>set sl. sl_queried e = (sid e \<in> answered) \<and> sl_failed e = (sid e \<in> failed))"

definition valid_ids :: "externs \<Rightarrow> contact list \<Rightarrow> string set" where
  "valid_ids E cs = {ct_peer_id c | c. c \<in> set cs \<and> decodes E (ct_peer_id c)}"

lemma valid_ids_simps [simp]:
  "valid_ids E [] = {}"
  "valid_ids E (c # cs) = (if decodes E (ct_peer_id c) then {ct_peer_id c} else {}) \<union> valid_ids E cs"
  by (auto simp: valid_ids_def)

lemma contact_key_cases:
  obtains (bad) "contact_key E c = None" "\<not> decodes E (ct_peer_id c)"
  | (good) key where "contact_key E c = Some key" "decodes E (ct_peer_id c)"
      "distance target key = pid_distance E target (ct_peer_id c)"
  by (cases "pid_from_hex E (ct_peer_id c)")
    (auto simp: contact_key_def contact_peer_id_def decodes_def pid_distance_def)

lemma merge_contact_ok:
  assumes "shortlist_ok E target cap s" "flags_ok A F (fst s)" "A \<subseteq> snd s" "F \<subseteq> snd s"
    "merge_contact E target c s = s'"
  shows "shortlist_ok E target cap s' \<and> flags_ok A F (fst s') \<and> snd s' = snd s \<union> valid_ids E [c]"
proof (cases rule: contact_key_cases[where E = E and c = c and target = target])
  case bad
  then have "s' = s" using assms(5) by (cases s) (simp add: merge_contact_def split: if_splits)
  with bad(2) assms show ?thesis by simp
next
  case (good key)
  obtain sl seen where s: "s = (sl, seen)" by fastforce
  show ?thesis
  proof (cases "ct_peer_id c \<in> seen")
    case True
    with assms good show ?thesis by (auto simp: merge_contact_def s)
  next
    case False
    let ?e = "\<lparr>sl_contact = c, sl_distance = distance target key, sl_queried = False, sl_failed = False\<rparr>"
    have s': "s' = (sl @ [?e], insert (ct_peer_id c) seen)"
      using assms(5) good False by (simp add: merge_contact_def s)
    have "cap \<le> length (filter (\<lambda>e. sl_distance e \<le> pid_distance E target pid) (sl @ [?e]))"
      if "pid \<in> insert (ct_peer_id c) seen - sid ` set (sl @ [?e])" for pid
    proof -
      from that have "pid \<in> seen - sid ` set sl" by auto
      with assms(1) have "cap \<le> length (filter (\<lambda>e. sl_distance e \<le> pid_distance E target pid) sl)"
        unfolding shortlist_ok_def s prod.case by blast
      then show ?thesis by simp
    qed
    then have count: "\<forall>pid\<in>insert (ct_peer_id c) seen - sid ` set (sl @ [?e]).
        cap \<le> length (filter (\<lambda>e. sl_distance e \<le> pid_distance E target pid) (sl @ [?e]))" by blast
    have ok: "distinct (map sid sl)" "sid ` set sl \<subseteq> seen"
      "\<forall>e\<in>set sl. sl_distance e = pid_distance E target (sid e)" "\<forall>pid\<in>seen. decodes E pid"
      using assms(1) by (simp_all add: shortlist_ok_def s)
    have fl: "\<forall>e\<in>set sl. sl_queried e = (sid e \<in> A) \<and> sl_failed e = (sid e \<in> F)"
      "ct_peer_id c \<notin> A" "ct_peer_id c \<notin> F"
      using assms(2-4) False by (auto simp: flags_ok_def s)
    have "distinct (map sid (sl @ [?e]))" using ok(1) subsetD[OF ok(2)] False by auto
    moreover have "sid ` set (sl @ [?e]) \<subseteq> insert (ct_peer_id c) seen" using ok(2) by (simp add: subset_insertI2)
    ultimately have "shortlist_ok E target cap s'"
      using count ok(3,4) good unfolding shortlist_ok_def s' prod.case by simp
    moreover have "flags_ok A F (fst s')" using fl by (simp add: flags_ok_def s')
    ultimately show ?thesis using good by (simp add: s s')
  qed
qed

lemma merge_contacts_ok:
  assumes "shortlist_ok E target cap s" "flags_ok A F (fst s)" "A \<subseteq> snd s" "F \<subseteq> snd s"
  shows "shortlist_ok E target cap (fold (merge_contact E target) cs s)
    \<and> flags_ok A F (fst (fold (merge_contact E target) cs s))
    \<and> snd (fold (merge_contact E target) cs s) = snd s \<union> valid_ids E cs"
  using assms
proof (induction cs arbitrary: s)
  case (Cons c cs)
  from merge_contact_ok[OF Cons.prems refl, of c]
  have step: "shortlist_ok E target cap (merge_contact E target c s)"
    "flags_ok A F (fst (merge_contact E target c s))"
    "snd (merge_contact E target c s) = snd s \<union> valid_ids E [c]" by auto
  with Cons.prems(3,4) have "A \<subseteq> snd (merge_contact E target c s)" "F \<subseteq> snd (merge_contact E target c s)"
    by auto
  from Cons.IH[OF step(1,2) this] step(3) show ?case by auto
qed simp

lemma mark_queried_sid: "map sid (mark_queried pid fl sl) = map sid sl"
  by (induction sl) auto

lemma mark_queried_distance:
  "map (\<lambda>e. (sid e, sl_distance e)) (mark_queried pid fl sl) = map (\<lambda>e. (sid e, sl_distance e)) sl"
  by (induction sl) auto

text \<open>What the invariant says of a list depends on its peers and distances only.\<close>

lemma shortlist_ok_cong:
  assumes "map (\<lambda>e. (sid e, sl_distance e)) sl = map (\<lambda>e. (sid e, sl_distance e)) sl'"
  shows "shortlist_ok E target cap (sl, seen) = shortlist_ok E target cap (sl', seen)"
proof -
  have ids: "map sid xs = map fst (map (\<lambda>e. (sid e, sl_distance e)) xs)" for xs by simp
  have ds: "(\<forall>e\<in>set xs. sl_distance e = pid_distance E target (sid e)) \<longleftrightarrow>
      (\<forall>p\<in>set (map (\<lambda>e. (sid e, sl_distance e)) xs). snd p = pid_distance E target (fst p))" for xs by simp
  have cnt: "length (filter (\<lambda>e. sl_distance e \<le> d) xs) =
      length (filter (\<lambda>p. snd p \<le> d) (map (\<lambda>e. (sid e, sl_distance e)) xs))" for d xs
    by (simp add: filter_map comp_def)
  have st: "sid ` set xs = fst ` set (map (\<lambda>e. (sid e, sl_distance e)) xs)" for xs
    by (simp add: image_image)
  show ?thesis unfolding shortlist_ok_def prod.case cnt st ds ids assms ..
qed

lemma mark_queried_ok:
  assumes "shortlist_ok E target cap (sl, seen)" "flags_ok A F sl" "pid \<notin> F"
  shows "shortlist_ok E target cap (mark_queried pid fl sl, seen)
    \<and> flags_ok (insert pid A) (if fl then insert pid F else F) (mark_queried pid fl sl)"
proof
  show "shortlist_ok E target cap (mark_queried pid fl sl, seen)"
    using assms(1) shortlist_ok_cong[OF mark_queried_distance] by blast
  have "distinct (map sid sl)" using assms(1) by (simp add: shortlist_ok_def)
  with assms(2) show "flags_ok (insert pid A) (if fl then insert pid F else F) (mark_queried pid fl sl)"
  proof (induction sl)
    case (Cons e sl)
    have tail: "flags_ok A F sl" "distinct (map sid sl)"
      using Cons.prems by (simp_all add: flags_ok_def)
    show ?case
    proof (cases "sid e = pid")
      case True
      have other: "sid x \<noteq> pid" if "x \<in> set sl" for x
      proof
        assume "sid x = pid"
        moreover have "sid x \<in> sid ` set sl" using that by (rule imageI)
        ultimately show False using Cons.prems(2) True by simp
      qed
      have "flags_ok (insert pid A) (if fl then insert pid F else F) sl"
        unfolding flags_ok_def
      proof
        fix x assume x: "x \<in> set sl"
        with tail(1) other[OF x]
        show "sl_queried x = (sid x \<in> insert pid A) \<and>
            sl_failed x = (sid x \<in> (if fl then insert pid F else F))"
          by (simp add: flags_ok_def)
      qed
      with True assms(3) show ?thesis by (simp add: flags_ok_def)
    next
      case False
      have "flags_ok (insert pid A) (if fl then insert pid F else F) (mark_queried pid fl sl)"
        using Cons.IH tail by simp
      with False Cons.prems(1) show ?thesis by (simp add: flags_ok_def)
    qed
  qed (simp add: flags_ok_def)
qed

lemma flags_ok_subset: "flags_ok A F sl \<Longrightarrow> set sl' \<subseteq> set sl \<Longrightarrow> flags_ok A F sl'"
  by (auto simp: flags_ok_def)

text \<open>The least elements of a list under a bound survive a cut of the sorted list.\<close>

lemma sorted_take_count:
  "sorted (map f xs) \<Longrightarrow> length (filter (\<lambda>x. f x \<le> b) (take n xs)) = min n (length (filter (\<lambda>x. f x \<le> b) xs))"
proof (induction xs arbitrary: n)
  case (Cons x xs)
  show ?case
  proof (cases "f x \<le> b")
    case True
    with Cons show ?thesis by (cases n) auto
  next
    case False
    with Cons.prems have "\<forall>y\<in>set (x # xs). \<not> f y \<le> b" by auto
    then have "filter (\<lambda>x. f x \<le> b) ys = []" if "set ys \<subseteq> set (x # xs)" for ys
      using that by (auto simp: filter_empty_conv)
    from this[OF set_take_subset] this[OF subset_refl] show ?thesis by simp
  qed
qed simp

lemma sort_key_count:
  "length (filter P (sort_key f xs)) = length (filter P xs)"
  by (metis mset_filter mset_sort size_mset)

lemma sort_and_cap_take:
  "shortlist_cap k al = Some cap \<Longrightarrow>
   sort_and_cap k al sl = Some (take cap (sort_key sl_distance sl))"
  by (simp add: sort_and_cap_def Let_def)

lemma sort_and_cap_ok:
  assumes "shortlist_ok E target cap (sl, seen)" "flags_ok A F sl"
  shows "shortlist_ok E target cap (take cap (sort_key sl_distance sl), seen)
    \<and> flags_ok A F (take cap (sort_key sl_distance sl))
    \<and> sorted (map sl_distance (take cap (sort_key sl_distance sl)))"
proof -
  let ?o = "sort_key sl_distance sl"
  let ?t = "take cap ?o"
  have sub: "set ?t \<subseteq> set sl" by (metis set_sort set_take_subset)
  have ok: "distinct (map sid sl)" "sid ` set sl \<subseteq> seen"
    "\<forall>e\<in>set sl. sl_distance e = pid_distance E target (sid e)" "\<forall>pid\<in>seen. decodes E pid"
    "\<forall>pid\<in>seen - sid ` set sl. cap \<le> length (filter (\<lambda>e. sl_distance e \<le> pid_distance E target pid) sl)"
    using assms(1) by (simp_all add: shortlist_ok_def)
  have "cap \<le> length (filter (\<lambda>e. sl_distance e \<le> pid_distance E target pid) ?t)"
    if pid: "pid \<in> seen - sid ` set ?t" for pid
  proof (cases "pid \<in> sid ` set sl")
    case False
    with pid ok(5) have "cap \<le> length (filter (\<lambda>e. sl_distance e \<le> pid_distance E target pid) ?o)"
      by (simp add: sort_key_count)
    then show ?thesis by (simp add: sorted_take_count[OF sorted_sort_key])
  next
    case True
    then obtain d where d: "d \<in> set sl" "sid d = pid" by auto
    with pid have "d \<notin> set ?t" by auto
    with d(1) have drop: "d \<in> set (drop cap ?o)" using set_take_drop[of cap ?o] by auto
    then have "cap < length ?o" by (cases "cap < length ?o") auto
    moreover have "sl_distance e \<le> pid_distance E target pid" if "e \<in> set ?t" for e
      using sort_key_take_drop_le[OF that drop] ok(3) d by simp
    then have "filter (\<lambda>e. sl_distance e \<le> pid_distance E target pid) ?t = ?t" by simp
    ultimately show ?thesis by simp
  qed
  moreover have "distinct (map sid ?t)"
    using ok(1) unfolding take_map[symmetric] by (intro distinct_take) (metis distinct_map distinct_sort set_sort)
  moreover have "sid ` set ?t \<subseteq> seen" using sub ok(2) by blast
  moreover have "\<forall>e\<in>set ?t. sl_distance e = pid_distance E target (sid e)" using sub ok(3) by blast
  ultimately show ?thesis
    using ok(4) flags_ok_subset[OF assms(2) sub]
    by (simp add: shortlist_ok_def sorted_take_map del: sort_key_simps)
qed

subsection \<open>The state of a walk\<close>

definition answer_id :: "answer \<Rightarrow> string" where
  "answer_id a = ct_peer_id (fst a)"

definition answered_ids :: "answer list \<Rightarrow> string set" where
  "answered_ids as = answer_id ` set as"

definition failed_ids :: "answer list \<Rightarrow> string set" where
  "failed_ids as = answer_id ` {a \<in> set as. snd a = None}"

text \<open>What the walk was told: the contacts and the records of the answers, each cut at the
  per-response ceiling.\<close>

definition told_contacts :: "nat \<Rightarrow> answer list \<Rightarrow> contact list" where
  "told_contacts k as =
     concat (map (\<lambda>a. case snd a of None \<Rightarrow> [] | Some q \<Rightarrow> take (max_closer_per_response k) (qo_closer q)) as)"

definition told_providers :: "nat \<Rightarrow> answer list \<Rightarrow> provider_record list" where
  "told_providers k as =
     concat (map (\<lambda>a. case snd a of None \<Rightarrow> [] | Some q \<Rightarrow> take (max_providers_per_response k) (qo_providers q)) as)"

definition collected_ok :: "(string \<times> provider_record) list \<Rightarrow> provider_record list \<Rightarrow> bool" where
  "collected_ok m told \<longleftrightarrow>
     distinct (map fst m) \<and> fst ` set m = provider_peer_id ` set told
     \<and> (\<forall>p\<in>set m. provider_peer_id (snd p) = fst p \<and> snd p \<in> set told) \<and> length m \<le> length told"

definition lookup_inv :: "externs \<Rightarrow> key \<Rightarrow> contact list \<Rightarrow> nat \<Rightarrow> nat \<Rightarrow> lookup_state \<Rightarrow> bool" where
  "lookup_inv E target seeds k cap st \<longleftrightarrow>
     shortlist_ok E target cap (ls_shortlist st, ls_seen st)
     \<and> flags_ok (answered_ids (ls_answers st)) (failed_ids (ls_answers st)) (ls_shortlist st)
     \<and> ls_seen st = valid_ids E (seeds @ told_contacts k (ls_answers st))
     \<and> answered_ids (ls_answers st) \<subseteq> ls_seen st
     \<and> distinct (map answer_id (ls_answers st))
     \<and> collected_ok (ls_providers st) (told_providers k (ls_answers st))
     \<and> fst ` set (ls_answers st) \<subseteq> set (ls_asked st) \<and> length (ls_answers st) \<le> length (ls_asked st)"

lemma valid_ids_append: "valid_ids E (xs @ ys) = valid_ids E xs \<union> valid_ids E ys"
  by (auto simp: valid_ids_def)

lemma failed_subset_answered: "failed_ids as \<subseteq> answered_ids as"
  by (auto simp: failed_ids_def answered_ids_def)

lemma ids_snoc:
  "answered_ids (as @ [a]) = insert (answer_id a) (answered_ids as)"
  "failed_ids (as @ [a]) = (if snd a = None then insert (answer_id a) (failed_ids as) else failed_ids as)"
  by (auto simp: answered_ids_def failed_ids_def)

lemma told_snoc:
  "told_contacts k (as @ [a]) = told_contacts k as @
     (case snd a of None \<Rightarrow> [] | Some q \<Rightarrow> take (max_closer_per_response k) (qo_closer q))"
  "told_providers k (as @ [a]) = told_providers k as @
     (case snd a of None \<Rightarrow> [] | Some q \<Rightarrow> take (max_providers_per_response k) (qo_providers q))"
  by (simp_all add: told_contacts_def told_providers_def)

lemma collected_step:
  assumes "collected_ok m told"
  shows "collected_ok (entry_or_insert (provider_peer_id p) p m) (told @ [p])"
proof (cases "map_of m (provider_peer_id p)")
  case None
  then have "provider_peer_id p \<notin> fst ` set m" by (simp add: map_of_eq_None_iff)
  with None assms show ?thesis by (auto simp: collected_ok_def entry_or_insert_def)
next
  case (Some q)
  then have "provider_peer_id p \<in> fst ` set m" by (force dest: map_of_SomeD)
  with Some assms show ?thesis by (auto simp: collected_ok_def entry_or_insert_def)
qed

lemma collected_fold:
  "collected_ok m told \<Longrightarrow>
   collected_ok (fold (\<lambda>p m. entry_or_insert (provider_peer_id p) p m) ps m) (told @ ps)"
proof (induction ps arbitrary: m told)
  case (Cons p ps)
  from Cons.IH[OF collected_step[OF Cons.prems, of p]] show ?case by simp
qed simp

lemma fold_answer_asked [simp]:
  "ls_asked (fold_answer E target k a st) = ls_asked st"
  "ls_rounds (fold_answer E target k a st) = ls_rounds st"
  "ls_answers (fold_answer E target k a st) = ls_answers st @ [a]"
  by (simp_all add: fold_answer_def Let_def split: option.split)

lemma fold_answers_asked [simp]:
  "ls_asked (fold (fold_answer E target k) as st) = ls_asked st"
  "ls_rounds (fold (fold_answer E target k) as st) = ls_rounds st"
  "ls_answers (fold (fold_answer E target k) as st) = ls_answers st @ as"
  by (induction as arbitrary: st) simp_all

text \<open>The part of the invariant that folding an answer keeps; the counts of queries are separate.\<close>

definition walk_ok :: "externs \<Rightarrow> key \<Rightarrow> contact list \<Rightarrow> nat \<Rightarrow> nat \<Rightarrow> lookup_state \<Rightarrow> bool" where
  "walk_ok E target seeds k cap st \<longleftrightarrow>
     shortlist_ok E target cap (ls_shortlist st, ls_seen st)
     \<and> flags_ok (answered_ids (ls_answers st)) (failed_ids (ls_answers st)) (ls_shortlist st)
     \<and> ls_seen st = valid_ids E (seeds @ told_contacts k (ls_answers st))
     \<and> answered_ids (ls_answers st) \<subseteq> ls_seen st
     \<and> distinct (map answer_id (ls_answers st))
     \<and> collected_ok (ls_providers st) (told_providers k (ls_answers st))"

lemma lookup_inv_walk:
  "lookup_inv E target seeds k cap st \<longleftrightarrow> walk_ok E target seeds k cap st
     \<and> fst ` set (ls_answers st) \<subseteq> set (ls_asked st) \<and> length (ls_answers st) \<le> length (ls_asked st)"
  by (simp add: lookup_inv_def walk_ok_def)

lemma fold_answer_ok:
  assumes "walk_ok E target seeds k cap st" "answer_id a \<in> ls_seen st"
    "answer_id a \<notin> answered_ids (ls_answers st)"
  shows "walk_ok E target seeds k cap (fold_answer E target k a st)
    \<and> ls_seen st \<subseteq> ls_seen (fold_answer E target k a st)"
proof -
  let ?A = "answered_ids (ls_answers st)" and ?F = "failed_ids (ls_answers st)"
  let ?fl = "snd a = None"
  let ?A' = "answered_ids (ls_answers st @ [a])" and ?F' = "failed_ids (ls_answers st @ [a])"
  let ?m = "mark_queried (ct_peer_id (fst a)) ?fl (ls_shortlist st)"
  have w: "shortlist_ok E target cap (ls_shortlist st, ls_seen st)" "flags_ok ?A ?F (ls_shortlist st)"
    "ls_seen st = valid_ids E (seeds @ told_contacts k (ls_answers st))" "?A \<subseteq> ls_seen st"
    "distinct (map answer_id (ls_answers st))"
    "collected_ok (ls_providers st) (told_providers k (ls_answers st))"
    using assms(1) unfolding walk_ok_def by blast+
  have nf: "ct_peer_id (fst a) \<notin> ?F"
    using assms(3) failed_subset_answered by (auto simp: answer_id_def)
  from mark_queried_ok[OF w(1,2) nf, of ?fl]
  have marked: "shortlist_ok E target cap (?m, ls_seen st)" "flags_ok ?A' ?F' ?m"
    unfolding ids_snoc answer_id_def by blast+
  have A': "?A' \<subseteq> ls_seen st" using w(4) assms(2) by (simp add: ids_snoc)
  then have F': "?F' \<subseteq> ls_seen st" using failed_subset_answered by blast
  have d': "distinct (map answer_id (ls_answers st @ [a]))"
    using w(5) assms(3) by (simp add: answered_ids_def)
  show ?thesis
  proof (cases "snd a")
    case None
    then show ?thesis using marked A' d' w(3,6)
      by (simp add: walk_ok_def fold_answer_def Let_def told_snoc)
  next
    case (Some q)
    let ?cs = "take (max_closer_per_response k) (qo_closer q)"
    let ?ps = "take (max_providers_per_response k) (qo_providers q)"
    let ?r = "fold (merge_contact E target) ?cs (?m, ls_seen st)"
    have "flags_ok ?A' ?F' (fst (?m, ls_seen st))" "?A' \<subseteq> snd (?m, ls_seen st)"
      "?F' \<subseteq> snd (?m, ls_seen st)" using marked(2) A' F' by simp_all
    note merged = merge_contacts_ok[OF marked(1) this, of ?cs]
    have r: "shortlist_ok E target cap (fst ?r, snd ?r)" "flags_ok ?A' ?F' (fst ?r)"
      "snd ?r = ls_seen st \<union> valid_ids E ?cs"
      using merged unfolding surjective_pairing[symmetric] snd_conv by blast+
    have st': "fold_answer E target k a st = st\<lparr>ls_answers := ls_answers st @ [a],
        ls_providers := fold (\<lambda>p m. entry_or_insert (provider_peer_id p) p m) ?ps (ls_providers st),
        ls_shortlist := fst ?r, ls_seen := snd ?r\<rparr>"
      using Some by (simp add: fold_answer_def Let_def)
    have "snd ?r = valid_ids E (seeds @ told_contacts k (ls_answers st @ [a]))"
      using Some w(3) r(3) by (simp add: told_snoc valid_ids_append Un_assoc)
    moreover have "?A' \<subseteq> snd ?r" using A' r(3) by blast
    ultimately show ?thesis
      using r d' collected_fold[OF w(6), of ?ps] Some
      by (simp add: walk_ok_def st' told_snoc)
  qed
qed

lemma fold_answers_ok:
  assumes "walk_ok E target seeds k cap st" "answer_id ` set as \<subseteq> ls_seen st"
    "answer_id ` set as \<inter> answered_ids (ls_answers st) = {}" "distinct (map answer_id as)"
  shows "walk_ok E target seeds k cap (fold (fold_answer E target k) as st)"
  using assms
proof (induction as arbitrary: st)
  case (Cons a as)
  have a: "answer_id a \<in> ls_seen st" "answer_id a \<notin> answered_ids (ls_answers st)"
    using Cons.prems(2,3) by auto
  from fold_answer_ok[OF Cons.prems(1) a]
  have step: "walk_ok E target seeds k cap (fold_answer E target k a st)"
    "ls_seen st \<subseteq> ls_seen (fold_answer E target k a st)" by auto
  have "walk_ok E target seeds k cap (fold (fold_answer E target k) as (fold_answer E target k a st))"
  proof (rule Cons.IH[OF step(1)])
    show "answer_id ` set as \<subseteq> ls_seen (fold_answer E target k a st)"
      using Cons.prems(2) step(2) by auto
    show "answer_id ` set as \<inter> answered_ids (ls_answers (fold_answer E target k a st)) = {}"
      using Cons.prems(3,4) by (auto simp: ids_snoc)
  qed (use Cons.prems(4) in simp)
  then show ?case by simp
qed simp

subsection \<open>One round\<close>

definition env_ok :: "lookup_env \<Rightarrow> bool" where
  "env_ok env \<longleftrightarrow> (\<forall>r cs. mset (le_order env r cs) = mset cs)"

lemma next_batch_facts:
  assumes "shortlist_ok E target cap (sl, seen)" "flags_ok A F sl"
  shows "distinct (map ct_peer_id (next_batch al sl))" "ct_peer_id ` set (next_batch al sl) \<subseteq> seen - A"
    "length (next_batch al sl) \<le> al"
proof -
  let ?u = "filter (\<lambda>e. \<not> sl_queried e \<and> \<not> sl_failed e) sl"
  have d: "distinct (map sid sl)" and s: "sid ` set sl \<subseteq> seen"
    using assms(1) by (simp_all add: shortlist_ok_def)
  have "distinct (map sid (take al ?u))"
    unfolding take_map[symmetric] by (intro distinct_take distinct_map_filter d)
  then show "distinct (map ct_peer_id (next_batch al sl))"
    by (simp add: next_batch_def comp_def)
  show "ct_peer_id ` set (next_batch al sl) \<subseteq> seen - A"
    using assms(2) s by (auto simp: next_batch_def flags_ok_def dest!: in_set_takeD)
qed (simp add: next_batch_def)

lemma join_results_facts:
  assumes "env_ok env" "distinct (map ct_peer_id batch)"
  shows "distinct (map answer_id (join_results env r batch))"
    "answer_id ` set (join_results env r batch) \<subseteq> ct_peer_id ` set batch"
    "fst ` set (join_results env r batch) \<subseteq> set batch"
    "length (join_results env r batch) \<le> length batch"
proof -
  have ms: "mset (le_order env r batch) = mset batch" using assms(1) by (simp add: env_ok_def)
  then have set: "set (le_order env r batch) = set batch" by (rule mset_eq_setD)
  have "mset (map ct_peer_id (le_order env r batch)) = mset (map ct_peer_id batch)" using ms by simp
  with assms(2) have d: "distinct (map ct_peer_id (le_order env r batch))"
    by (metis mset_eq_imp_distinct_iff)
  let ?f = "\<lambda>c. case le_query env r c of JoinFailed \<Rightarrow> None | Joined res \<Rightarrow> Some (c, res)"
  have f: "answer_id a = ct_peer_id c \<and> fst a = c" if "?f c = Some a" for c a
    using that by (auto simp: answer_id_def split: task_result.splits)
  have sub: "\<exists>c\<in>set cs. ?f c = Some a" if "a \<in> set (List.map_filter ?f cs)" for a cs
    using that by (induction cs) (auto simp: map_filter_simps split: option.splits)
  have "distinct (map ct_peer_id cs) \<Longrightarrow> distinct (map answer_id (List.map_filter ?f cs))" for cs
  proof (induction cs)
    case (Cons c cs)
    have other: "answer_id a \<noteq> ct_peer_id c" if a: "a \<in> set (List.map_filter ?f cs)" for a
    proof -
      obtain c' where c': "c' \<in> set cs" "?f c' = Some a" using sub[OF a] by blast
      then have "answer_id a \<in> ct_peer_id ` set cs" using f[OF c'(2)] by simp
      with Cons.prems show ?thesis by auto
    qed
    show ?case
    proof (cases "?f c")
      case None
      with Cons show ?thesis by (simp add: map_filter_simps)
    next
      case (Some a)
      have "answer_id a \<notin> answer_id ` set (List.map_filter ?f cs)"
        using other f[OF Some] by fastforce
      with Some Cons show ?thesis by (simp add: map_filter_simps)
    qed
  qed (simp add: map_filter_simps)
  with d show "distinct (map answer_id (join_results env r batch))" by (simp add: join_results_def)
  show "answer_id ` set (join_results env r batch) \<subseteq> ct_peer_id ` set batch"
    "fst ` set (join_results env r batch) \<subseteq> set batch"
  proof -
    have "fst a \<in> set batch \<and> answer_id a = ct_peer_id (fst a)" if "a \<in> set (join_results env r batch)" for a
    proof -
      from that obtain c where c: "c \<in> set (le_order env r batch)" "?f c = Some a"
        using sub unfolding join_results_def by blast
      with f[OF c(2)] set show ?thesis by simp
    qed
    then show "answer_id ` set (join_results env r batch) \<subseteq> ct_peer_id ` set batch"
      "fst ` set (join_results env r batch) \<subseteq> set batch" by auto
  qed
  have "length (List.map_filter ?f cs) \<le> length cs" for cs
    by (induction cs) (auto simp: map_filter_simps split: option.split)
  then show "length (join_results env r batch) \<le> length batch"
    unfolding join_results_def mset_eq_length[OF ms, symmetric] .
qed

subsection \<open>The walk\<close>

lemma walk_ok_asked:
  "walk_ok E target seeds k cap (st\<lparr>ls_asked := x, ls_rounds := n\<rparr>) = walk_ok E target seeds k cap st"
  by (simp add: walk_ok_def)

lemma round_ok:
  assumes "env_ok env" "lookup_inv E target seeds k cap st"
    "batch = next_batch al (ls_shortlist st)"
  shows "lookup_inv E target seeds k cap (fold (fold_answer E target k)
      (join_results env r batch) (st\<lparr>ls_asked := ls_asked st @ batch, ls_rounds := n\<rparr>))"
proof -
  let ?as = "join_results env r batch"
  let ?st = "st\<lparr>ls_asked := ls_asked st @ batch, ls_rounds := n\<rparr>"
  have w: "walk_ok E target seeds k cap st" "fst ` set (ls_answers st) \<subseteq> set (ls_asked st)"
    "length (ls_answers st) \<le> length (ls_asked st)"
    using assms(2) unfolding lookup_inv_walk by blast+
  have sl: "shortlist_ok E target cap (ls_shortlist st, ls_seen st)"
    "flags_ok (answered_ids (ls_answers st)) (failed_ids (ls_answers st)) (ls_shortlist st)"
    using w(1) unfolding walk_ok_def by blast+
  note b = next_batch_facts[OF sl, of al, folded assms(3)]
  note j = join_results_facts[OF assms(1) b(1), of r]
  have "walk_ok E target seeds k cap (fold (fold_answer E target k) ?as ?st)"
  proof (rule fold_answers_ok)
    show "walk_ok E target seeds k cap ?st" using w(1) by (simp add: walk_ok_asked)
    show "answer_id ` set ?as \<subseteq> ls_seen ?st" "answer_id ` set ?as \<inter> answered_ids (ls_answers ?st) = {}"
      using subset_trans[OF j(2) b(2)] by (simp_all, blast+)
  qed (rule j(1))
  moreover have "fst ` set (ls_answers st @ ?as) \<subseteq> set (ls_asked st @ batch)"
    using w(2) j(3) by auto
  moreover have "length (ls_answers st @ ?as) \<le> length (ls_asked st @ batch)"
    using w(3) j(4) by simp
  ultimately show ?thesis unfolding lookup_inv_walk by simp
qed

lemma lookup_inv_shortlist:
  "lookup_inv E target seeds k cap (st\<lparr>ls_shortlist := sl\<rparr>) \<longleftrightarrow>
     shortlist_ok E target cap (sl, ls_seen st)
     \<and> flags_ok (answered_ids (ls_answers st)) (failed_ids (ls_answers st)) sl
     \<and> ls_seen st = valid_ids E (seeds @ told_contacts k (ls_answers st))
     \<and> answered_ids (ls_answers st) \<subseteq> ls_seen st
     \<and> distinct (map answer_id (ls_answers st))
     \<and> collected_ok (ls_providers st) (told_providers k (ls_answers st))
     \<and> fst ` set (ls_answers st) \<subseteq> set (ls_asked st) \<and> length (ls_answers st) \<le> length (ls_asked st)"
  by (simp add: lookup_inv_def)

lemma cut_ok:
  assumes "lookup_inv E target seeds k cap st"
  shows "lookup_inv E target seeds k cap
      (st\<lparr>ls_shortlist := take cap (sort_key sl_distance (ls_shortlist st))\<rparr>)"
proof -
  have "shortlist_ok E target cap (ls_shortlist st, ls_seen st)"
    "flags_ok (answered_ids (ls_answers st)) (failed_ids (ls_answers st)) (ls_shortlist st)"
    using assms unfolding lookup_inv_def by blast+
  note cut = sort_and_cap_ok[OF this]
  have rest: "ls_seen st = valid_ids E (seeds @ told_contacts k (ls_answers st))"
    "answered_ids (ls_answers st) \<subseteq> ls_seen st" "distinct (map answer_id (ls_answers st))"
    "collected_ok (ls_providers st) (told_providers k (ls_answers st))"
    "fst ` set (ls_answers st) \<subseteq> set (ls_asked st)" "length (ls_answers st) \<le> length (ls_asked st)"
    using assms unfolding lookup_inv_def by blast+
  show ?thesis
    unfolding lookup_inv_shortlist
    by (intro conjI rest cut[THEN conjunct1] cut[THEN conjunct2, THEN conjunct1])
qed

text \<open>Why a walk ended: nothing unasked among the nearest, or nobody left to ask.\<close>

definition converged :: "nat \<Rightarrow> nat \<Rightarrow> lookup_state \<Rightarrow> bool" where
  "converged k al st \<longleftrightarrow>
     next_batch al (ls_shortlist st) = []
     \<or> list_all (\<lambda>e. sl_queried e \<or> sl_failed e) (take k (ls_shortlist st))"

lemma lookup_loop_facts:
  assumes "env_ok env" "shortlist_cap k al = Some cap" "lookup_inv E target seeds k cap st"
    "sorted (map sl_distance (ls_shortlist st))"
  shows "\<exists>st'. lookup_loop E env target k al stop left st = Some st'
    \<and> lookup_inv E target seeds k cap st' \<and> sorted (map sl_distance (ls_shortlist st'))
    \<and> length (ls_asked st') \<le> length (ls_asked st) + left * al
    \<and> ls_rounds st' \<le> ls_rounds st + left
    \<and> (converged k al st' \<or> (stop \<and> ls_providers st' \<noteq> []) \<or> ls_rounds st' = ls_rounds st + left)"
  using assms(3,4)
proof (induction left arbitrary: st)
  case (Suc left)
  let ?b = "next_batch al (ls_shortlist st)"
  show ?case
  proof (cases "?b = []")
    case True
    with Suc.prems show ?thesis by (simp add: converged_def)
  next
    case False
    define st1 where "st1 = fold (fold_answer E target k) (join_results env (ls_rounds st) ?b)
      (st\<lparr>ls_asked := ls_asked st @ ?b, ls_rounds := Suc (ls_rounds st)\<rparr>)"
    define sl where "sl = take cap (sort_key sl_distance (ls_shortlist st1))"
    define st2 where "st2 = st1\<lparr>ls_shortlist := sl\<rparr>"
    have inv1: "lookup_inv E target seeds k cap st1"
      unfolding st1_def by (rule round_ok[OF assms(1) Suc.prems(1) refl])
    have inv2: "lookup_inv E target seeds k cap st2" unfolding st2_def sl_def by (rule cut_ok[OF inv1])
    have sorted2: "sorted (map sl_distance (ls_shortlist st2))"
      by (simp add: st2_def sl_def sorted_take_map)
    have cap: "sort_and_cap k al (ls_shortlist st1) = Some sl"
      by (simp add: sort_and_cap_take[OF assms(2)] sl_def)
    have "length ?b \<le> al" by (simp add: next_batch_def)
    then have asked: "length (ls_asked st2) \<le> length (ls_asked st) + al" "ls_rounds st2 = ls_rounds st + 1"
      by (simp_all add: st2_def st1_def)
    have loop: "lookup_loop E env target k al stop (Suc left) st =
       (if stop \<and> ls_providers st2 \<noteq> [] then Some st2
        else if list_ex (\<lambda>e. \<not> sl_queried e \<and> \<not> sl_failed e) (take k sl)
        then lookup_loop E env target k al stop left st2 else Some st2)"
      using False cap by (simp add: Let_def st1_def[symmetric] st2_def)
    show ?thesis
    proof (cases "(stop \<and> ls_providers st2 \<noteq> []) \<or> \<not> list_ex (\<lambda>e. \<not> sl_queried e \<and> \<not> sl_failed e) (take k sl)")
      case True
      then have "lookup_loop E env target k al stop (Suc left) st = Some st2"
        "converged k al st2 \<or> (stop \<and> ls_providers st2 \<noteq> [])"
        using loop by (auto simp: converged_def st2_def list_ex_iff list_all_iff)
      with inv2 sorted2 asked show ?thesis by auto
    next
      case more: False
      from Suc.IH[OF inv2 sorted2] loop more asked show ?thesis
        by (auto intro: order_trans)
    qed
  qed
qed simp

lemma lookup_start_facts:
  assumes "shortlist_cap k al = Some cap"
  shows "\<exists>st. lookup_start E target seeds k al = Some st \<and> lookup_inv E target seeds k cap st
    \<and> sorted (map sl_distance (ls_shortlist st)) \<and> ls_asked st = [] \<and> ls_rounds st = 0"
proof -
  obtain sl seen where eq: "fold (merge_contact E target) seeds ([], {}) = (sl, seen)" by fastforce
  have "shortlist_ok E target cap ([], {})" "flags_ok {} {} (fst ([], {}))"
    by (simp_all add: shortlist_ok_def flags_ok_def)
  from merge_contacts_ok[OF this, of seeds]
  have "shortlist_ok E target cap (sl, seen) \<and> flags_ok {} {} sl \<and> seen = valid_ids E seeds"
    unfolding eq fst_conv snd_conv Un_empty_left by blast
  then have s: "shortlist_ok E target cap (sl, seen)" "flags_ok {} {} sl" "seen = valid_ids E seeds"
    by blast+
  from sort_and_cap_ok[OF s(1,2)] s(3) show ?thesis
    by (simp add: lookup_start_def eq sort_and_cap_take[OF assms] Let_def lookup_inv_def answered_ids_def
        failed_ids_def told_contacts_def told_providers_def collected_ok_def)
qed

lemma iterative_find_facts:
  assumes "env_ok env" "iterative_find E env target seeds k al stop = Some (res, st)"
  obtains cap where "shortlist_cap k al = Some cap" "res = lookup_finish k st"
    "lookup_inv E target seeds k cap st" "sorted (map sl_distance (ls_shortlist st))"
    "length (ls_asked st) \<le> MAX_LOOKUP_ROUNDS * al" "ls_rounds st \<le> MAX_LOOKUP_ROUNDS"
    "converged k al st \<or> (stop \<and> ls_providers st \<noteq> []) \<or> ls_rounds st = MAX_LOOKUP_ROUNDS"
proof (cases "shortlist_cap k al")
  case None
  with assms(2) show thesis by (simp add: iterative_find_def lookup_start_def sort_and_cap_def)
next
  case (Some cap)
  from lookup_start_facts[OF Some, of E target seeds] obtain st0 where
    st0: "lookup_start E target seeds k al = Some st0" "lookup_inv E target seeds k cap st0"
    "sorted (map sl_distance (ls_shortlist st0))" "ls_asked st0 = []" "ls_rounds st0 = 0" by blast
  from lookup_loop_facts[OF assms(1) Some st0(2,3), of stop MAX_LOOKUP_ROUNDS] assms(2) st0 Some
  show thesis by (intro that[of cap]) (auto simp: iterative_find_def)
qed

end
