(* ===== verification/Lookup_Facts.thy ===== *)
theory Lookup_Facts
  imports Iterative_Lookup
begin

text \<open>
  What an iterative lookup guarantees whatever the network answers: it ends, its work and its
  result are bounded, the result is the nearest of what was learned, and when nothing failed
  everything in it was asked. The last theorem shows what the stopping rule does when peers fail.
\<close>

lemma max_closer: "max_closer_per_response k \<le> max 64 (2 * k)"
  by (simp add: max_closer_per_response_def MAX_CLOSER_PER_RESPONSE_def saturating_usize_def)

lemma max_providers: "max_providers_per_response k \<le> max 64 (2 * k)"
  by (simp add: max_providers_per_response_def MAX_PROVIDERS_PER_RESPONSE_def saturating_usize_def)

lemma told_providers_length:
  "length (told_providers k as) \<le> max_providers_per_response k * length as"
proof (induction as)
  case (Cons a as)
  have "length (told_providers k (a # as)) \<le>
      max_providers_per_response k + length (told_providers k as)"
    by (auto simp: told_providers_def split: option.split)
  with Cons show ?case by simp
qed (simp add: told_providers_def)

lemma shortlist_cap_None:
  "shortlist_cap k al = None \<longleftrightarrow> \<not> (k * 3 < 2 ^ 64 \<and> al * 2 < 2 ^ 64 \<and> k + al * 2 < 2 ^ 64)"
  by (auto simp: shortlist_cap_def checked_usize_def usize_limit_def Let_def split: if_splits)

lemma shortlist_cap_Some:
  "shortlist_cap k al = Some cap \<Longrightarrow> cap = max (k * 3) (k + al * 2)"
  by (auto simp: shortlist_cap_def checked_usize_def Let_def split: if_splits)

lemma iterative_find_None:
  assumes "env_ok env"
  shows "iterative_find E env target seeds k al stop = None \<longleftrightarrow> shortlist_cap k al = None"
proof (cases "shortlist_cap k al")
  case None
  then show ?thesis by (simp add: iterative_find_def lookup_start_def sort_and_cap_def)
next
  case (Some cap)
  from lookup_start_facts[OF Some, of E target seeds] obtain st0 where
    st0: "lookup_start E target seeds k al = Some st0" "lookup_inv E target seeds k cap st0"
    "sorted (map sl_distance (ls_shortlist st0))" by blast
  from lookup_loop_facts[OF assms Some st0(2,3), of stop MAX_LOOKUP_ROUNDS] obtain st' where
    "lookup_loop E env target k al stop MAX_LOOKUP_ROUNDS st0 = Some st'" by blast
  with st0(1) Some show ?thesis by (simp add: iterative_find_def)
qed

text \<open>Every answer folded in is what the task of a queried peer returned.\<close>

definition answers_real :: "lookup_env \<Rightarrow> answer list \<Rightarrow> bool" where
  "answers_real env as \<longleftrightarrow> (\<forall>a\<in>set as. \<exists>r. le_query env r (fst a) = Joined (snd a))"

lemma join_results_real: "answers_real env (join_results env r batch)"
proof -
  have "answers_real env (List.map_filter (\<lambda>c. case le_query env r c of JoinFailed \<Rightarrow> None
      | Joined res \<Rightarrow> Some (c, res)) cs)" for cs
    by (induction cs) (auto simp: answers_real_def map_filter_simps split: task_result.split)
  then show ?thesis by (simp add: join_results_def)
qed

lemma lookup_loop_real:
  "lookup_loop E env target k al stop left st = Some st' \<Longrightarrow> answers_real env (ls_answers st) \<Longrightarrow>
   answers_real env (ls_answers st')"
proof (induction left arbitrary: st)
  case (Suc left)
  let ?b = "next_batch al (ls_shortlist st)"
  define st1 where "st1 = fold (fold_answer E target k) (join_results env (ls_rounds st) ?b)
      (st\<lparr>ls_asked := ls_asked st @ ?b, ls_rounds := Suc (ls_rounds st)\<rparr>)"
  have "ls_answers st1 = ls_answers st @ join_results env (ls_rounds st) ?b" by (simp add: st1_def)
  with Suc.prems(2) join_results_real[of env "ls_rounds st" ?b]
  have real: "answers_real env (ls_answers (st1\<lparr>ls_shortlist := sl\<rparr>))" for sl
    by (auto simp: answers_real_def)
  show ?case
  proof (cases "?b = []")
    case True
    with Suc.prems show ?thesis by simp
  next
    case False
    have "lookup_loop E env target k al stop (Suc left) st =
       Option.bind (sort_and_cap k al (ls_shortlist st1)) (\<lambda>sl.
        if stop \<and> ls_providers (st1\<lparr>ls_shortlist := sl\<rparr>) \<noteq> [] then Some (st1\<lparr>ls_shortlist := sl\<rparr>)
        else if list_ex (\<lambda>e. \<not> sl_queried e \<and> \<not> sl_failed e) (take k sl)
        then lookup_loop E env target k al stop left (st1\<lparr>ls_shortlist := sl\<rparr>)
        else Some (st1\<lparr>ls_shortlist := sl\<rparr>))"
      using False by (simp add: Let_def st1_def[symmetric] cong: if_cong)
    with Suc.prems(1) obtain sl where sl: "sort_and_cap k al (ls_shortlist st1) = Some sl"
      "(if stop \<and> ls_providers (st1\<lparr>ls_shortlist := sl\<rparr>) \<noteq> [] then Some (st1\<lparr>ls_shortlist := sl\<rparr>)
        else if list_ex (\<lambda>e. \<not> sl_queried e \<and> \<not> sl_failed e) (take k sl)
        then lookup_loop E env target k al stop left (st1\<lparr>ls_shortlist := sl\<rparr>)
        else Some (st1\<lparr>ls_shortlist := sl\<rparr>)) = Some st'"
      by (auto simp only: bind_eq_Some_conv)
    with Suc.IH[of "st1\<lparr>ls_shortlist := sl\<rparr>"] real[of sl] show ?thesis
      by (auto simp del: lookup_loop.simps split: if_splits)
  qed
qed simp

lemma iterative_find_real:
  assumes "iterative_find E env target seeds k al stop = Some (res, st)"
  shows "answers_real env (ls_answers st)"
proof -
  from assms obtain st0 where "lookup_start E target seeds k al = Some st0"
    "lookup_loop E env target k al stop MAX_LOOKUP_ROUNDS st0 = Some st"
    by (auto simp: iterative_find_def bind_eq_Some_conv)
  moreover from this(1) have "ls_answers st0 = []"
    by (auto simp: lookup_start_def Let_def bind_eq_Some_conv)
  ultimately show ?thesis using lookup_loop_real by (fastforce simp: answers_real_def)
qed

subsection \<open>The contacts returned\<close>

lemma inv_shortlist:
  assumes "lookup_inv E target seeds k cap st"
  shows "distinct (map sid (ls_shortlist st))"
    and "sid ` set (ls_shortlist st) \<subseteq> ls_seen st"
    and "\<forall>e\<in>set (ls_shortlist st). sl_distance e = pid_distance E target (sid e)"
    and "\<forall>pid\<in>ls_seen st - sid ` set (ls_shortlist st).
       cap \<le> length (filter (\<lambda>e. sl_distance e \<le> pid_distance E target pid) (ls_shortlist st))"
proof -
  have "shortlist_ok E target cap (ls_shortlist st, ls_seen st)"
    using assms unfolding lookup_inv_def by (elim conjE)
  note ok = this[unfolded shortlist_ok_def prod.case]
  show "distinct (map sid (ls_shortlist st))" using ok by (elim conjE)
  show "sid ` set (ls_shortlist st) \<subseteq> ls_seen st" using ok by (elim conjE)
  show "\<forall>e\<in>set (ls_shortlist st). sl_distance e = pid_distance E target (sid e)"
    using ok by (elim conjE)
  show "\<forall>pid\<in>ls_seen st - sid ` set (ls_shortlist st).
       cap \<le> length (filter (\<lambda>e. sl_distance e \<le> pid_distance E target pid) (ls_shortlist st))"
    using ok by (elim conjE)
qed

lemma inv_flags:
  assumes "lookup_inv E target seeds k cap st"
  shows "\<forall>e\<in>set (ls_shortlist st). sl_queried e = (sid e \<in> answered_ids (ls_answers st))
      \<and> sl_failed e = (sid e \<in> failed_ids (ls_answers st))"
    and "ls_seen st = valid_ids E (seeds @ told_contacts k (ls_answers st))"
proof -
  have "flags_ok (answered_ids (ls_answers st)) (failed_ids (ls_answers st)) (ls_shortlist st)"
    using assms unfolding lookup_inv_def by (elim conjE)
  then show "\<forall>e\<in>set (ls_shortlist st). sl_queried e = (sid e \<in> answered_ids (ls_answers st))
      \<and> sl_failed e = (sid e \<in> failed_ids (ls_answers st))" by (simp add: flags_ok_def)
  show "ls_seen st = valid_ids E (seeds @ told_contacts k (ls_answers st))"
    using assms unfolding lookup_inv_def by (elim conjE)
qed

lemma closest_entries:
  "lr_closest (lookup_finish k st) = map sl_contact (take k (filter (\<lambda>e. \<not> sl_failed e) (ls_shortlist st)))"
  by (simp add: lookup_finish_def)

lemma closest_facts:
  assumes "lookup_inv E target seeds k cap st" "sorted (map sl_distance (ls_shortlist st))"
  shows "sorted (map (\<lambda>c. pid_distance E target (ct_peer_id c)) (lr_closest (lookup_finish k st)))"
    "distinct (map ct_peer_id (lr_closest (lookup_finish k st)))"
    "ct_peer_id ` set (lr_closest (lookup_finish k st)) \<subseteq>
       valid_ids E (seeds @ told_contacts k (ls_answers st)) - failed_ids (ls_answers st)"
    "length (lr_closest (lookup_finish k st)) \<le> k"
proof -
  let ?sl = "ls_shortlist st"
  let ?c = "take k (filter (\<lambda>e. \<not> sl_failed e) ?sl)"
  note ok = inv_shortlist[OF assms(1)]
  have fl: "\<forall>e\<in>set ?sl. sl_failed e = (sid e \<in> failed_ids (ls_answers st))"
    "ls_seen st = valid_ids E (seeds @ told_contacts k (ls_answers st))"
    using inv_flags[OF assms(1)] by blast+
  have sub: "set ?c \<subseteq> {e \<in> set ?sl. \<not> sl_failed e}" by (auto dest: in_set_takeD)
  have "sorted (map sl_distance ?c)"
    by (intro sorted_take_map sorted_filter assms(2))
  moreover have "map sl_distance ?c = map (\<lambda>e. pid_distance E target (sid e)) ?c"
    using sub ok(3) by (intro map_cong) auto
  ultimately have "sorted (map (\<lambda>e. pid_distance E target (sid e)) ?c)" by (simp only:)
  then show "sorted (map (\<lambda>c. pid_distance E target (ct_peer_id c)) (lr_closest (lookup_finish k st)))"
    unfolding closest_entries map_map comp_def .
  have "distinct (map sid ?c)"
    unfolding take_map[symmetric] by (intro distinct_take distinct_map_filter ok(1))
  then show "distinct (map ct_peer_id (lr_closest (lookup_finish k st)))"
    by (simp add: closest_entries comp_def)
  show "ct_peer_id ` set (lr_closest (lookup_finish k st)) \<subseteq>
       valid_ids E (seeds @ told_contacts k (ls_answers st)) - failed_ids (ls_answers st)"
    using sub ok(2) fl by (fastforce simp: closest_entries)
qed (simp add: closest_entries)

text \<open>An entry of a list that is not among its first elements comes after all of them.\<close>

lemma after_take:
  assumes "sorted (map f xs)" "x \<in> set xs" "x \<notin> set (take k xs)"
  shows "length (take k xs) = k \<and> (\<forall>y\<in>set (take k xs). f y \<le> f x)"
proof -
  from assms(2,3) have drop: "x \<in> set (drop k xs)" using set_take_drop[of k xs] by auto
  then have "k < length xs" by (cases "k < length xs") auto
  moreover have "sorted (map f (take k xs) @ map f (drop k xs))"
    using assms(1) by (metis append_take_drop_id map_append)
  then have "\<forall>y\<in>set (take k xs). f y \<le> f x"
    using drop by (simp add: sorted_append)
  ultimately show ?thesis by simp
qed

subsection \<open>Properties\<close>

text \<open>C13. A lookup always ends. It returns unless the shortlist bound overflows 64 bits (a
  configuration of astronomical \<open>k\<close> or \<open>alpha\<close>), whatever peers answer and in whatever order;
  it runs at most 64 rounds and sends at most \<open>64 * alpha\<close> queries, folds in at most one answer per
  peer, and returns at most \<open>k\<close> contacts and at most \<open>max 64 (2 k)\<close> records per query sent.\<close>

theorem lookup_terminates_bounded:
  assumes "env_ok env"
  shows "(iterative_find E env target seeds k al stop \<noteq> None \<longleftrightarrow>
       k * 3 < 2 ^ 64 \<and> al * 2 < 2 ^ 64 \<and> k + al * 2 < 2 ^ 64)
    \<and> (\<forall>res st. iterative_find E env target seeds k al stop = Some (res, st) \<longrightarrow>
         ls_rounds st \<le> 64 \<and> length (ls_asked st) \<le> 64 * al
         \<and> distinct (map answer_id (ls_answers st))
         \<and> length (lr_closest res) \<le> k
         \<and> length (lr_providers res) \<le> max 64 (2 * k) * length (ls_asked st))"
proof (intro conjI allI impI)
  show "iterative_find E env target seeds k al stop \<noteq> None \<longleftrightarrow>
       k * 3 < 2 ^ 64 \<and> al * 2 < 2 ^ 64 \<and> k + al * 2 < 2 ^ 64"
    using iterative_find_None[OF assms] shortlist_cap_None by metis
next
  fix res st
  assume "iterative_find E env target seeds k al stop = Some (res, st)"
  from iterative_find_facts[OF assms this] obtain cap where f: "res = lookup_finish k st"
    "lookup_inv E target seeds k cap st" "length (ls_asked st) \<le> 64 * al" "ls_rounds st \<le> 64"
    unfolding MAX_LOOKUP_ROUNDS_def by metis
  show "length (ls_asked st) \<le> 64 * al" "ls_rounds st \<le> 64" by (fact f(3), fact f(4))
  show "distinct (map answer_id (ls_answers st))" using f(2) unfolding lookup_inv_def by blast
  show "length (lr_closest res) \<le> k" by (simp add: f(1) closest_entries)
  have "length (ls_providers st) \<le> length (told_providers k (ls_answers st))"
    "length (ls_answers st) \<le> length (ls_asked st)"
    using f(2) unfolding lookup_inv_def collected_ok_def by blast+
  then have "length (ls_providers st) \<le> max 64 (2 * k) * length (ls_asked st)"
    using told_providers_length[of k "ls_answers st"] mult_le_mono[OF max_providers]
    by (meson order_trans)
  then show "length (lr_providers res) \<le> max 64 (2 * k) * length (ls_asked st)"
    by (simp add: f(1) lookup_finish_def)
qed

definition silent_env :: lookup_env where
  "silent_env = \<lparr>le_query = (\<lambda>r c. Joined (Some \<lparr>qo_closer = [], qo_providers = []\<rparr>)),
                 le_order = (\<lambda>r cs. cs)\<rparr>"

lemma silent_env_ok: "env_ok silent_env"
  by (simp add: env_ok_def silent_env_def)

text \<open>A small run, evaluated: one seed, which answers with nothing.\<close>

definition sample_peer :: "u8 \<Rightarrow> contact" where
  "sample_peer n = \<lparr>ct_peer_id = to_hex (replicate 31 0 @ [n]), ct_addresses = []\<rparr>"

definition sample_target :: key where
  "sample_target = replicate 32 0"

lemma sample_peer_pid: "pid_from_hex sample_externs (ct_peer_id (sample_peer n)) = Some (replicate 31 0 @ [n])"
  by (simp add: sample_peer_def hex64_to_hex)

lemma sample_peer_hex [simp]: "hex64_to_bytes (ct_peer_id (sample_peer n)) = Some (replicate 31 0 @ [n])"
  using sample_peer_pid[of n] by simp

lemma sample_peer_key: "contact_key sample_externs (sample_peer n) = Some (replicate 31 0 @ [n])"
  using sample_peer_pid[of n] by (simp add: contact_key_def contact_peer_id_def key_from_peer_id_def)

lemma sample_peer_inject [simp]:
  "sample_peer n = sample_peer m \<longleftrightarrow> n = m"
  "ct_peer_id (sample_peer n) = ct_peer_id (sample_peer m) \<longleftrightarrow> n = m"
proof -
  have eq: "n = m" if "ct_peer_id (sample_peer n) = ct_peer_id (sample_peer m)"
    using sample_peer_pid[of n] unfolding that sample_peer_pid by simp
  then show "ct_peer_id (sample_peer n) = ct_peer_id (sample_peer m) \<longleftrightarrow> n = m" by blast
  from eq show "sample_peer n = sample_peer m \<longleftrightarrow> n = m" by metis
qed

lemma sample_distance: "distance sample_target (replicate 31 0 @ [n]) = replicate 31 0 @ [n]"
proof -
  have "distance sample_target (replicate 31 0 @ [n]) = map2 (XOR) sample_target (replicate 31 0 @ [n])"
    by (rule distance_Cons_zip) (simp_all add: wf_key_def sample_target_def)
  also have "\<dots> = map2 (XOR) (replicate 31 0 @ [0]) (replicate 31 0 @ [n])"
    by (simp add: sample_target_def replicate_append_same flip: replicate_Suc)
  also have "\<dots> = replicate 31 0 @ [n]" by (simp add: zip_append map_replicate zip_replicate)
  finally show ?thesis .
qed

lemmas lookup_loop_numeral =
  lookup_loop.simps(2)[of _ _ _ _ _ _ "pred_numeral n" for n, folded numeral_eq_Suc]

lemma append_le_cancel [simp]: "xs @ ys \<le> xs @ zs \<longleftrightarrow> ys \<le> (zs :: u8 list)"
  by (induction xs) auto

lemma silent_run:
  "\<exists>st. iterative_find sample_externs silent_env sample_target [sample_peer 5] 20 3 False =
     Some (\<lparr>lr_closest = [sample_peer 5], lr_providers = []\<rparr>, st)
   \<and> ls_answers st = [(sample_peer 5, Some \<lparr>qo_closer = [], qo_providers = []\<rparr>)] \<and> ls_rounds st = 1"
proof -
  have cap: "shortlist_cap 20 3 = Some 60" by (simp add: shortlist_cap_def checked_usize_def usize_limit_def)
  show ?thesis
    by (simp add: iterative_find_def MAX_LOOKUP_ROUNDS_def lookup_loop_numeral lookup_start_def merge_contact_def sample_peer_key
        sample_distance sort_and_cap_take[OF cap] next_batch_def join_results_def silent_env_def
        map_filter_simps fold_answer_def lookup_finish_def Let_def)
qed

theorem lookup_terminates_bounded_witness:
  "iterative_find sample_externs silent_env sample_target [sample_peer 5] 20 3 False \<noteq> None"
  using lookup_terminates_bounded[OF silent_env_ok, of sample_externs sample_target "[sample_peer 5]" 20 3 False]
  by simp

lemma lookup_sound_facts:
  assumes "env_ok env" "iterative_find E env target seeds k al stop = Some (res, st)"
  shows "sorted (map (\<lambda>c. pid_distance E target (ct_peer_id c)) (lr_closest res))
    \<and> distinct (map ct_peer_id (lr_closest res))
    \<and> ct_peer_id ` set (lr_closest res) \<subseteq>
        valid_ids E (seeds @ told_contacts k (ls_answers st)) - failed_ids (ls_answers st)
    \<and> distinct (map provider_peer_id (lr_providers res))
    \<and> provider_peer_id ` set (lr_providers res) = provider_peer_id ` set (told_providers k (ls_answers st))
    \<and> set (lr_providers res) \<subseteq> set (told_providers k (ls_answers st))
    \<and> fst ` set (ls_answers st) \<subseteq> set (ls_asked st) \<and> answers_real env (ls_answers st)"
proof -
  from iterative_find_facts[OF assms] obtain cap where f: "res = lookup_finish k st"
    "lookup_inv E target seeds k cap st" "sorted (map sl_distance (ls_shortlist st))" by metis
  note c = closest_facts[OF f(2,3), folded f(1)]
  let ?m = "ls_providers st" and ?told = "told_providers k (ls_answers st)"
  have m: "distinct (map fst ?m)" "fst ` set ?m = provider_peer_id ` set ?told"
    "\<forall>p\<in>set ?m. provider_peer_id (snd p) = fst p \<and> snd p \<in> set ?told"
    and asked: "fst ` set (ls_answers st) \<subseteq> set (ls_asked st)"
    using f(2) unfolding lookup_inv_def collected_ok_def by blast+
  have pr: "lr_providers res = map snd ?m" by (simp add: f(1) lookup_finish_def)
  have ids: "map provider_peer_id (lr_providers res) = map fst ?m"
    unfolding pr map_map comp_def using m(3) by (intro map_cong) auto
  have "provider_peer_id ` set (lr_providers res) = fst ` set ?m"
    using ids by (metis list.set_map)
  then have provs: "provider_peer_id ` set (lr_providers res) = provider_peer_id ` set ?told"
    unfolding m(2) .
  have dist: "distinct (map provider_peer_id (lr_providers res))" unfolding ids by (rule m(1))
  have sub: "set (lr_providers res) \<subseteq> set ?told" unfolding pr using m(3) by auto
  show ?thesis by (intro conjI c(1-3) dist provs sub asked iterative_find_real[OF assms(2)])
qed

text \<open>C14. What a lookup returns is what it was told. The contacts are in order of distance, no peer
  twice, each a seed or named by an answer, its identity decoding, and none that failed to answer;
  the records are exactly one per provider named in the answers (each cut at the ceiling), each one
  of those records itself; and every answer folded in came from a peer that was queried.\<close>

theorem lookup_result_sound:
  assumes "env_ok env" "iterative_find E env target seeds k al stop = Some (res, st)"
  shows "sorted (map (\<lambda>c. pid_distance E target (ct_peer_id c)) (lr_closest res))
    \<and> distinct (map ct_peer_id (lr_closest res))
    \<and> ct_peer_id ` set (lr_closest res) \<subseteq>
        valid_ids E (seeds @ told_contacts k (ls_answers st)) - failed_ids (ls_answers st)
    \<and> distinct (map provider_peer_id (lr_providers res))
    \<and> provider_peer_id ` set (lr_providers res) = provider_peer_id ` set (told_providers k (ls_answers st))
    \<and> set (lr_providers res) \<subseteq> set (told_providers k (ls_answers st))
    \<and> fst ` set (ls_answers st) \<subseteq> set (ls_asked st) \<and> answers_real env (ls_answers st)"
  using assms by (rule lookup_sound_facts)

theorem lookup_result_sound_witness:
  "\<exists>res st. iterative_find sample_externs silent_env sample_target [sample_peer 5] 20 3 False = Some (res, st)
     \<and> distinct (map ct_peer_id (lr_closest res)) \<and> answers_real silent_env (ls_answers st)"
  using silent_run lookup_result_sound[OF silent_env_ok] by blast

lemma lookup_nearest_facts:
  assumes "env_ok env" "iterative_find E env target seeds k al stop = Some (res, st)"
    "card (failed_ids (ls_answers st)) \<le> max (2 * k) (2 * al)"
    "pid \<in> valid_ids E (seeds @ told_contacts k (ls_answers st)) - failed_ids (ls_answers st)"
    "pid \<notin> ct_peer_id ` set (lr_closest res)"
  shows "length (lr_closest res) = k
    \<and> (\<forall>c\<in>set (lr_closest res). pid_distance E target (ct_peer_id c) \<le> pid_distance E target pid)"
proof -
  from iterative_find_facts[OF assms(1,2)] obtain cap where f: "shortlist_cap k al = Some cap"
    "res = lookup_finish k st" "lookup_inv E target seeds k cap st"
    "sorted (map sl_distance (ls_shortlist st))" by metis
  let ?sl = "ls_shortlist st" and ?F = "failed_ids (ls_answers st)"
  let ?live = "filter (\<lambda>e. \<not> sl_failed e) ?sl"
  note ok = inv_shortlist(1,3,4)[OF f(3)]
  have fl: "\<forall>e\<in>set ?sl. sl_failed e = (sid e \<in> ?F)" "pid \<in> ls_seen st"
    using inv_flags[OF f(3)] assms(4) by blast+
  have live_sorted: "sorted (map sl_distance ?live)" by (intro sorted_filter f(4))
  have res: "lr_closest res = map sl_contact (take k ?live)" by (simp add: f(2) closest_entries)
  have near: "length (take k ?live) = k \<and> (\<forall>e\<in>set (take k ?live). sl_distance e \<le> pid_distance E target pid)"
  proof (cases "pid \<in> sid ` set ?sl")
    case True
    then obtain x where x: "x \<in> set ?sl" "sid x = pid" by auto
    then have "x \<in> set ?live" using fl(1) assms(4) by auto
    moreover have "x \<notin> set (take k ?live)" using assms(5) x(2) by (auto simp: res)
    ultimately show ?thesis using after_take[OF live_sorted] ok(2) x by fastforce
  next
    case False
    let ?near = "filter (\<lambda>e. sl_distance e \<le> pid_distance E target pid) ?sl"
    have "cap \<le> length ?near" using ok(3) fl(2) False by blast
    moreover have "length (filter sl_failed ?near) \<le> card ?F"
    proof -
      have d: "distinct (map sid (filter sl_failed ?near))" by (intro distinct_map_filter ok(1))
      have "set (map sid (filter sl_failed ?near)) \<subseteq> ?F" using fl(1) by auto
      moreover have "finite ?F" by (simp add: failed_ids_def)
      ultimately have "card (set (map sid (filter sl_failed ?near))) \<le> card ?F" by (intro card_mono)
      then show ?thesis unfolding distinct_card[OF d] by simp
    qed
    moreover have "k + max (2 * k) (2 * al) \<le> cap" using shortlist_cap_Some[OF f(1)] by simp
    moreover have "length ?near = length (filter sl_failed ?near) + length (filter (\<lambda>e. \<not> sl_failed e) ?near)"
      by (rule sum_length_filter_compl[symmetric])
    ultimately have "k \<le> length (filter (\<lambda>e. \<not> sl_failed e) ?near)" using assms(3) by linarith
    moreover have "filter (\<lambda>e. \<not> sl_failed e) ?near = filter (\<lambda>e. sl_distance e \<le> pid_distance E target pid) ?live"
      by (simp add: conj_commute)
    ultimately have k: "k \<le> length (filter (\<lambda>e. sl_distance e \<le> pid_distance E target pid) ?live)"
      by metis
    then have "k \<le> length ?live" by (meson length_filter_le order_trans)
    moreover have "length (filter (\<lambda>e. sl_distance e \<le> pid_distance E target pid) (take k ?live)) = k"
      using sorted_take_count[OF live_sorted] k by simp
    moreover have "length (take k ?live) = k" using \<open>k \<le> length ?live\<close> by simp
    ultimately have "\<forall>e\<in>set (take k ?live). sl_distance e \<le> pid_distance E target pid"
      using length_filter_less[of _ "take k ?live" "\<lambda>e. sl_distance e \<le> pid_distance E target pid"]
      by (metis less_irrefl)
    with \<open>length (take k ?live) = k\<close> show ?thesis by blast
  qed
  have "pid_distance E target (sid e) \<le> pid_distance E target pid" if "e \<in> set (take k ?live)" for e
  proof -
    have "e \<in> set ?sl" using that by (auto dest: in_set_takeD)
    with near that ok(2) show ?thesis by fastforce
  qed
  with near show ?thesis by (simp add: res)
qed

text \<open>C15. The contacts returned are the nearest live ones the walk learned of. A peer it was told of
  whose identity decodes, that did not fail, and that is not returned, was left out because \<open>k\<close>
  contacts at least as near were returned. The bound on failures is what the shortlist's headroom
  pays for: with more failures than that, a live contact may have been cut from it.\<close>

theorem lookup_result_nearest:
  assumes "env_ok env" "iterative_find E env target seeds k al stop = Some (res, st)"
    "card (failed_ids (ls_answers st)) \<le> max (2 * k) (2 * al)"
    "pid \<in> valid_ids E (seeds @ told_contacts k (ls_answers st)) - failed_ids (ls_answers st)"
    "pid \<notin> ct_peer_id ` set (lr_closest res)"
  shows "length (lr_closest res) = k
    \<and> (\<forall>c\<in>set (lr_closest res). pid_distance E target (ct_peer_id c) \<le> pid_distance E target pid)"
  using assms by (rule lookup_nearest_facts)

theorem lookup_result_nearest_witness:
  "\<exists>res st. iterative_find sample_externs silent_env sample_target
       [sample_peer 5, sample_peer 6] 1 1 False = Some (res, st)
     \<and> length (lr_closest res) = 1
     \<and> (\<forall>c\<in>set (lr_closest res). pid_distance sample_externs sample_target (ct_peer_id c)
          \<le> pid_distance sample_externs sample_target (ct_peer_id (sample_peer 6)))"
proof -
  have cap: "shortlist_cap (Suc 0) (Suc 0) = Some 3" by (simp add: shortlist_cap_def checked_usize_def usize_limit_def)
  have "\<exists>st. iterative_find sample_externs silent_env sample_target [sample_peer 5, sample_peer 6] 1 1 False =
     Some (\<lparr>lr_closest = [sample_peer 5], lr_providers = []\<rparr>, st)
     \<and> ls_answers st = [(sample_peer 5, Some \<lparr>qo_closer = [], qo_providers = []\<rparr>)]"
    by (simp add: iterative_find_def MAX_LOOKUP_ROUNDS_def lookup_loop_numeral lookup_start_def merge_contact_def sample_peer_key
        sample_distance sort_and_cap_take[OF cap] next_batch_def join_results_def silent_env_def
        map_filter_simps fold_answer_def lookup_finish_def Let_def)
  then obtain st where st: "iterative_find sample_externs silent_env sample_target
      [sample_peer 5, sample_peer 6] 1 1 False = Some (\<lparr>lr_closest = [sample_peer 5], lr_providers = []\<rparr>, st)"
    "ls_answers st = [(sample_peer 5, Some \<lparr>qo_closer = [], qo_providers = []\<rparr>)]" by blast
  have none: "failed_ids (ls_answers st) = {}" by (simp add: st(2) failed_ids_def)
  show ?thesis
    by (rule exI, rule exI, rule conjI[OF st(1)],
        rule lookup_result_nearest[OF silent_env_ok st(1), where pid = "ct_peer_id (sample_peer 6)"])
      (simp_all add: none valid_ids_append decodes_def sample_peer_pid)
qed

lemma lookup_converged_facts:
  assumes "env_ok env" "iterative_find E env target seeds k al stop = Some (res, st)"
    "failed_ids (ls_answers st) = {}" "0 < al" "ls_rounds st < 64" "\<not> stop \<or> lr_providers res = []"
  shows "ct_peer_id ` set (lr_closest res) \<subseteq> answered_ids (ls_answers st)"
proof -
  from iterative_find_facts[OF assms(1,2)] obtain cap where f: "res = lookup_finish k st"
    "lookup_inv E target seeds k cap st"
    "converged k al st \<or> (stop \<and> ls_providers st \<noteq> []) \<or> ls_rounds st = MAX_LOOKUP_ROUNDS" by metis
  from f(3) have conv: "converged k al st"
    using assms(5,6) by (auto simp: f(1) lookup_finish_def MAX_LOOKUP_ROUNDS_def)
  have flags: "sl_failed e = False" "sl_queried e = (sid e \<in> answered_ids (ls_answers st))"
    if "e \<in> set (ls_shortlist st)" for e
    using inv_flags(1)[OF f(2)] that assms(3) by auto
  then have live: "filter (\<lambda>e. \<not> sl_failed e) (ls_shortlist st) = ls_shortlist st" by simp
  have "sl_queried e" if e: "e \<in> set (take k (ls_shortlist st))" for e
  proof (cases "next_batch al (ls_shortlist st) = []")
    case True
    then have "filter (\<lambda>e. \<not> sl_queried e \<and> \<not> sl_failed e) (ls_shortlist st) = []"
      using assms(4) by (simp add: next_batch_def)
    then show ?thesis using flags in_set_takeD[OF e] by (auto simp: filter_empty_conv)
  next
    case False
    then show ?thesis using conv e flags(1)[OF in_set_takeD[OF e]]
      by (auto simp: converged_def list_all_iff)
  qed
  then show ?thesis using flags(2) in_set_takeD by (fastforce simp: f(1) closest_entries live)
qed

text \<open>C16. When no peer fails, a lookup that was not cut short converges: if nobody answered with an
  error, the walk ended neither by the round guard nor by an early stop on providers, and queries are
  sent at all, then every contact it returns was itself asked and answered, so none of the returned
  contacts is hearsay.\<close>

theorem lookup_converged_all_answered:
  assumes "env_ok env" "iterative_find E env target seeds k al stop = Some (res, st)"
    "failed_ids (ls_answers st) = {}" "0 < al" "ls_rounds st < 64" "\<not> stop \<or> lr_providers res = []"
  shows "ct_peer_id ` set (lr_closest res) \<subseteq> answered_ids (ls_answers st)"
  using assms by (rule lookup_converged_facts)

theorem lookup_converged_all_answered_witness:
  "\<exists>res st. iterative_find sample_externs silent_env sample_target [sample_peer 5] 20 3 False = Some (res, st)
     \<and> ct_peer_id ` set (lr_closest res) \<subseteq> answered_ids (ls_answers st)"
proof -
  obtain st where st: "iterative_find sample_externs silent_env sample_target [sample_peer 5] 20 3 False =
     Some (\<lparr>lr_closest = [sample_peer 5], lr_providers = []\<rparr>, st)"
    "ls_answers st = [(sample_peer 5, Some \<lparr>qo_closer = [], qo_providers = []\<rparr>)]" "ls_rounds st = 1"
    using silent_run by blast
  have "failed_ids (ls_answers st) = {}" by (simp add: st(2) failed_ids_def)
  from lookup_converged_all_answered[OF silent_env_ok st(1) this] st(1,3) show ?thesis by auto
qed

end
