(* ===== verification/Dht_Service.thy ===== *)
theory Dht_Service
  imports Content_Id Provider_Store_Facts Dht_Config Wire_Frame Lookup_Facts
begin

text \<open>
  \<^verbatim>\<open>src/service.rs\<close>: the service, one definition per method. The state is the node's identity,
  its addresses, its configuration, the routing table and the two provider stores; each of the last
  three sits behind a mutex. What a method takes from outside is an argument: the readings of the
  clock in the order the method makes them (\<open>clock 0\<close>, \<open>clock 1\<close>, ...), the random bytes it
  draws, and the network. A network is the transport's \<open>rpc\<close> (from, peer, request), indexed by a
  moment so that a peer may answer differently each time, with the completion order and the
  failures of the tasks a lookup spawns. A method that can panic returns an option. The definitions
  run a method with nothing in between its critical sections; \<open>Service_Steps\<close> has the interleavings.
\<close>

record bootstrap_peer =
  bp_peer_id :: peer_id
  bp_addresses :: "candidate_addr list"

definition bootstrap_peer_direct :: "peer_id \<Rightarrow> string \<Rightarrow> u16 \<Rightarrow> bootstrap_peer" where
  "bootstrap_peer_direct pid host port =
     \<lparr>bp_peer_id = pid, bp_addresses = [candidate_direct host port]\<rparr>"

definition to_contact :: "externs \<Rightarrow> bootstrap_peer \<Rightarrow> contact" where
  "to_contact E p = contact_new E (bp_peer_id p) (bp_addresses p)"

record dht_service =
  local_id :: peer_id
  local_addresses :: "candidate_addr list"
  config :: dht_config
  routing :: routing_table
  authoritative :: provider_store
  discovered :: provider_store

record 't network =
  net_rpc :: "nat \<Rightarrow> contact \<Rightarrow> contact \<Rightarrow> dht_request \<Rightarrow> 't dht_error + dht_response"
  net_order :: "nat \<Rightarrow> contact list \<Rightarrow> contact list"
  net_task_fails :: "nat \<Rightarrow> contact \<Rightarrow> bool"

definition service_new :: "peer_id \<Rightarrow> candidate_addr list \<Rightarrow> dht_config \<Rightarrow> dht_service" where
  "service_new pid addrs cfg =
     \<lparr>local_id = pid, local_addresses = addrs, config = cfg,
      routing = rt_new pid (cfg_k cfg),
      authoritative = ps_with_limits (provider_store_limits cfg),
      discovered = ps_with_limits (discovery_cache_limits cfg)\<rparr>"

definition local_id_hex :: "externs \<Rightarrow> dht_service \<Rightarrow> string" where
  "local_id_hex E s = pid_to_hex E (local_id s)"

definition local_contact :: "externs \<Rightarrow> dht_service \<Rightarrow> contact" where
  "local_contact E s = contact_new E (local_id s) (local_addresses s)"

subsection \<open>Internals\<close>

definition build_local_record :: "externs \<Rightarrow> dht_service \<Rightarrow> key \<Rightarrow> u64 \<Rightarrow> provider_record" where
  "build_local_record E s target now =
     provider_record_new E target (local_id s) (local_addresses s)
       (saturating_add now (provider_ttl_secs (config s)))"

definition seed_contacts :: "externs \<Rightarrow> dht_service \<Rightarrow> key \<Rightarrow> contact list" where
  "seed_contacts E s target = rt_closest E (routing s) target"

text \<open>The query closure of a lookup, and the lookup.\<close>

definition query_outcome_of :: "string \<Rightarrow> 't dht_error + dht_response \<Rightarrow> query_outcome option" where
  "query_outcome_of key_hex resp =
     (case resp of
        Inr (Providers ps closer) \<Rightarrow>
          Some \<lparr>qo_closer = closer, qo_providers = filter (\<lambda>r. content_key r = key_hex) ps\<rparr>
      | Inr (Nodes nodes) \<Rightarrow> Some \<lparr>qo_closer = nodes, qo_providers = []\<rparr>
      | _ \<Rightarrow> None)"

definition lookup_env_of :: "externs \<Rightarrow> dht_service \<Rightarrow> 't network \<Rightarrow> key \<Rightarrow> lookup_env" where
  "lookup_env_of E s net target =
     \<lparr>le_query = (\<lambda>r c. if net_task_fails net r c then JoinFailed
        else Joined (query_outcome_of (to_hex target)
               (net_rpc net r (local_contact E s) c (FindProviders (to_hex target))))),
      le_order = net_order net\<rparr>"

definition run_lookup ::
  "externs \<Rightarrow> dht_service \<Rightarrow> 't network \<Rightarrow> key \<Rightarrow> contact list \<Rightarrow> bool \<Rightarrow> (lookup_result \<times> lookup_state) option" where
  "run_lookup E s net target seeds stop_on_providers =
     iterative_find E (lookup_env_of E s net target) target seeds
       (cfg_k (config s)) (alpha (config s)) stop_on_providers"

fun insert_contacts :: "externs \<Rightarrow> routing_table \<Rightarrow> contact list \<Rightarrow> routing_table option" where
  "insert_contacts E t [] = Some t"
| "insert_contacts E t (c # cs) =
     do { (_, t') \<leftarrow> rt_insert E t c;
          insert_contacts E t' cs }"

definition cap_contact :: "externs \<Rightarrow> contact \<Rightarrow> contact" where
  "cap_contact E c = c\<lparr>ct_addresses := sort_and_cap_addresses E (ct_addresses c)\<rparr>"

definition absorb_contacts :: "externs \<Rightarrow> dht_service \<Rightarrow> contact list \<Rightarrow> dht_service option" where
  "absorb_contacts E s cs =
     do { t \<leftarrow> insert_contacts E (routing s) (map (cap_contact E) cs);
          Some (s\<lparr>routing := t\<rparr>) }"

text \<open>\<open>put_record_at\<close>: the requests it makes, as (moment, peer, request), which follow the lookup's rounds
  in time; and how many of them are accepted.\<close>

type_synonym sent_request = "nat \<times> contact \<times> dht_request"

definition put_requests :: "externs \<Rightarrow> dht_service \<Rightarrow> contact list \<Rightarrow> provider_record \<Rightarrow> sent_request list" where
  "put_requests E s peers record =
     map (\<lambda>(i, p). (MAX_LOOKUP_ROUNDS + i, p, AddProvider record))
       (filter (\<lambda>(i, p). ct_peer_id p \<noteq> local_id_hex E s) (List.enumerate 0 peers))"

definition put_record_at :: "externs \<Rightarrow> dht_service \<Rightarrow> 't network \<Rightarrow> contact list \<Rightarrow> provider_record \<Rightarrow> nat" where
  "put_record_at E s net peers record =
     length (filter (\<lambda>(moment, p, req). net_rpc net moment (local_contact E s) p req = Inr AddProviderOk)
       (put_requests E s peers record))"

definition admit_verified_record ::
  "externs \<Rightarrow> dht_service \<Rightarrow> u64 \<Rightarrow> provider_record \<Rightarrow> (put_outcome \<times> dht_service) option" where
  "admit_verified_record E s now r =
     (let r1 = r\<lparr>pr_addresses := sort_and_cap_addresses E (pr_addresses r)\<rparr>;
          r2 = r1\<lparr>unverified_mirror_coin_id := normalize_mirror_coin_id (unverified_mirror_coin_id r1)\<rparr>;
          clamp_ceiling = saturating_add now (provider_ttl_secs (config s));
          record = r2\<lparr>expires_at := min (expires_at r2) clamp_ceiling\<rparr>;
          (outcome, store) = ps_put_at (authoritative s) record now;
          s1 = s\<lparr>authoritative := store\<rparr>
      in if outcome = Accepted
         then (case record_peer_id E record of
                 None \<Rightarrow> Some (outcome, s1)
               | Some pid \<Rightarrow>
                   do { (_, t) \<leftarrow> rt_insert E (routing s1) (contact_new E pid (pr_addresses record));
                        Some (outcome, s1\<lparr>routing := t\<rparr>) })
         else Some (outcome, s1))"

text \<open>One record of a \<open>cache_discovered\<close> batch: the four admission rules, then the put.\<close>

definition cacheable :: "externs \<Rightarrow> dht_service \<Rightarrow> string \<Rightarrow> u64 \<Rightarrow> provider_record \<Rightarrow> provider_record option" where
  "cacheable E s key_hex now r =
     (if provider_peer_id r = local_id_hex E s \<or> content_key r \<noteq> key_hex then None
      else
        let e1 = r\<lparr>pr_addresses := sort_and_cap_addresses E (pr_addresses r)\<rparr>;
            e2 = e1\<lparr>unverified_mirror_coin_id := normalize_mirror_coin_id (unverified_mirror_coin_id e1)\<rparr>;
            ceiling = saturating_add now (discovery_cache_ttl_secs (config s));
            entry = e2\<lparr>expires_at := min (expires_at e2) ceiling\<rparr>
        in if is_expired entry now then None else Some entry)"

definition cache_discovered ::
  "externs \<Rightarrow> dht_service \<Rightarrow> string \<Rightarrow> u64 \<Rightarrow> provider_record list \<Rightarrow> dht_service" where
  "cache_discovered E s key_hex now rs =
     s\<lparr>discovered := fold (\<lambda>r store. case cacheable E s key_hex now r of
                              None \<Rightarrow> store | Some entry \<Rightarrow> snd (ps_put_at store entry now))
                      rs (discovered s)\<rparr>"

definition merge_dedup_by_provider ::
  "provider_record list \<Rightarrow> provider_record list \<Rightarrow> u64 \<Rightarrow> provider_record list" where
  "merge_dedup_by_provider auth extra now =
     retain_new provider_peer_id {} (filter (\<lambda>r. \<not> is_expired r now) (auth @ extra))"

definition random_key_in_bucket :: "dht_service \<Rightarrow> nat \<Rightarrow> (nat \<Rightarrow> u8) \<Rightarrow> key option" where
  "random_key_in_bucket s idx random =
     (if idx > 255 then None
      else
        let bit = 255 - idx;
            byte = bit div 8;
            bit_in_byte = 7 - bit mod 8;
            dist = map (\<lambda>i. if i < byte then 0
                            else if i = byte then push_bit bit_in_byte (1 :: u8)
                            else random i) [0..<32]
        in Some (key_from_bytes (map (\<lambda>i. local_id s ! i XOR dist ! i) [0..<32])))"

subsection \<open>Bootstrap and membership\<close>

definition bootstrap ::
  "externs \<Rightarrow> dht_service \<Rightarrow> 't network \<Rightarrow> bootstrap_peer list \<Rightarrow> (nat \<times> dht_service) option" where
  "bootstrap E s net peers =
     do { t \<leftarrow> insert_contacts E (routing s) (map (to_contact E) peers);
          let s1 = s\<lparr>routing := t\<rparr>;
          let self_key = key_from_peer_id (local_id s);
          let seeds = map (to_contact E) peers;
          (result, _) \<leftarrow> run_lookup E s1 net self_key seeds False;
          s2 \<leftarrow> absorb_contacts E s1 (lr_closest result);
          Some (rt_len (routing s2), s2) }"

definition add_peer ::
  "externs \<Rightarrow> dht_service \<Rightarrow> peer_id \<Rightarrow> candidate_addr list \<Rightarrow> dht_service option" where
  "add_peer E s pid addrs =
     do { (_, t) \<leftarrow> rt_insert E (routing s) (contact_new E pid addrs);
          Some (s\<lparr>routing := t\<rparr>) }"

definition remove_peer :: "externs \<Rightarrow> dht_service \<Rightarrow> string \<Rightarrow> (bool \<times> dht_service) option" where
  "remove_peer E s peer_id_hex =
     do { (was, t) \<leftarrow> rt_remove E (routing s) peer_id_hex;
          Some (was, s\<lparr>routing := t\<rparr>) }"

subsection \<open>Client operations\<close>

text \<open>The lookup and the absorption of its contacts, which four methods share.\<close>

definition lookup_and_absorb ::
  "externs \<Rightarrow> dht_service \<Rightarrow> 't network \<Rightarrow> key \<Rightarrow> contact list \<Rightarrow> bool \<Rightarrow>
     (lookup_result \<times> dht_service) option" where
  "lookup_and_absorb E s net target seeds stop =
     do { (result, _) \<leftarrow> run_lookup E s net target seeds stop;
          s' \<leftarrow> absorb_contacts E s (lr_closest result);
          Some (result, s') }"

definition find_node ::
  "externs \<Rightarrow> dht_service \<Rightarrow> 't network \<Rightarrow> peer_id \<Rightarrow> (('t dht_error + contact list) \<times> dht_service) option" where
  "find_node E s net pid =
     (let target = key_from_peer_id pid; seeds = seed_contacts E s target
      in if seeds = [] then Some (Inl NoPeers, s)
         else do { (result, s') \<leftarrow> lookup_and_absorb E s net target seeds False;
                   Some (Inr (lr_closest result), s') })"

text \<open>The pass over the records a lookup returned: both peer-controlled fields.\<close>

definition normalize_discovered :: "externs \<Rightarrow> provider_record \<Rightarrow> provider_record" where
  "normalize_discovered E r =
     (let r1 = r\<lparr>pr_addresses := sort_and_cap_addresses E (pr_addresses r)\<rparr>
      in r1\<lparr>unverified_mirror_coin_id := normalize_mirror_coin_id (unverified_mirror_coin_id r1)\<rparr>)"

definition find_providers ::
  "externs \<Rightarrow> dht_service \<Rightarrow> 't network \<Rightarrow> (nat \<Rightarrow> u64) \<Rightarrow> content_id \<Rightarrow>
     (('t dht_error + provider_record list) \<times> dht_service) option" where
  "find_providers E s net clock content =
     (let target = content_to_key E content;
          key_hex = to_hex target;
          now = clock 0;
          local = ps_get (authoritative s) key_hex now;
          cached = ps_get (discovered s) key_hex now
      in if cached \<noteq> [] then Some (Inr (merge_dedup_by_provider local cached now), s)
         else
           let seeds = seed_contacts E s target
           in if seeds = [] then Some (Inr local, s)
              else do { (result, s1) \<leftarrow> lookup_and_absorb E s net target seeds True;
                        let found = map (normalize_discovered E) (lr_providers result);
                        let s2 = cache_discovered E s1 key_hex (clock 1) found;
                        Some (Inr (merge_dedup_by_provider local found (clock 2)), s2) })"

definition cached_providers :: "externs \<Rightarrow> dht_service \<Rightarrow> u64 \<Rightarrow> content_id \<Rightarrow> provider_record list" where
  "cached_providers E s now content = ps_get (discovered s) (to_hex (content_to_key E content)) now"

definition forget_discovered :: "externs \<Rightarrow> dht_service \<Rightarrow> content_id \<Rightarrow> nat \<times> dht_service" where
  "forget_discovered E s content =
     (case ps_remove_key (discovered s) (to_hex (content_to_key E content)) of
        (n, store) \<Rightarrow> (n, s\<lparr>discovered := store\<rparr>))"

text \<open>Announcing, with the list of the PUTs it sends; the method returns their acceptances.\<close>

definition announce_traced ::
  "externs \<Rightarrow> dht_service \<Rightarrow> 't network \<Rightarrow> (nat \<Rightarrow> u64) \<Rightarrow> content_id \<Rightarrow> u8 list option \<Rightarrow>
     (('t dht_error + nat) \<times> sent_request list \<times> dht_service) option" where
  "announce_traced E s net clock content coin =
     (let target = content_to_key E content;
          record0 = build_local_record E s target (clock 0);
          record = (case coin of Some coin_id \<Rightarrow> with_unverified_mirror_coin_id record0 coin_id
                               | None \<Rightarrow> record0);
          store = snd (ps_put (\<lambda>_. clock 1) (authoritative s) record);
          s1 = s\<lparr>authoritative := ps_mark_announced_with_collateral store (to_hex target)
                                   (unverified_mirror_coin_id record)\<rparr>;
          seeds = seed_contacts E s1 target
      in if seeds = [] then Some (Inr 0, [], s1)
         else do { (result, s2) \<leftarrow> lookup_and_absorb E s1 net target seeds False;
                   let peers = lr_closest result;
                   Some (Inr (put_record_at E s2 net peers record), put_requests E s2 peers record, s2) })"

definition announce_provider_with_collateral ::
  "externs \<Rightarrow> dht_service \<Rightarrow> 't network \<Rightarrow> (nat \<Rightarrow> u64) \<Rightarrow> content_id \<Rightarrow> u8 list option \<Rightarrow>
     (('t dht_error + nat) \<times> dht_service) option" where
  "announce_provider_with_collateral E s net clock content coin =
     map_option (\<lambda>(accepted, _, s'). (accepted, s')) (announce_traced E s net clock content coin)"

lemma announce_provider_unfold:
  "announce_provider_with_collateral E s net clock content coin =
     (let target = content_to_key E content;
          record0 = build_local_record E s target (clock 0);
          record = (case coin of Some coin_id \<Rightarrow> with_unverified_mirror_coin_id record0 coin_id
                               | None \<Rightarrow> record0);
          store = snd (ps_put (\<lambda>_. clock 1) (authoritative s) record);
          s1 = s\<lparr>authoritative := ps_mark_announced_with_collateral store (to_hex target)
                                   (unverified_mirror_coin_id record)\<rparr>;
          seeds = seed_contacts E s1 target
      in if seeds = [] then Some (Inr 0, s1)
         else do { (result, s2) \<leftarrow> lookup_and_absorb E s1 net target seeds False;
                   Some (Inr (put_record_at E s2 net (lr_closest result) record), s2) })"
  by (simp add: announce_provider_with_collateral_def announce_traced_def Let_def map_option_bind comp_def split_def)

definition announce_provider ::
  "externs \<Rightarrow> dht_service \<Rightarrow> 't network \<Rightarrow> (nat \<Rightarrow> u64) \<Rightarrow> content_id \<Rightarrow>
     (('t dht_error + nat) \<times> dht_service) option" where
  "announce_provider E s net clock content =
     announce_provider_with_collateral E s net clock content None"

definition withdraw_provider :: "externs \<Rightarrow> dht_service \<Rightarrow> content_id \<Rightarrow> bool \<times> dht_service" where
  "withdraw_provider E s content =
     (case ps_unmark_announced (authoritative s) (to_hex (content_to_key E content)) of
        (was, store) \<Rightarrow> (was, s\<lparr>authoritative := store\<rparr>))"

subsection \<open>Holdings\<close>

definition ingest_verified_provider ::
  "externs \<Rightarrow> dht_service \<Rightarrow> u64 \<Rightarrow> provider_record \<Rightarrow> (put_outcome \<times> dht_service) option" where
  "ingest_verified_provider E s now r = admit_verified_record E s now r"

definition remove_provider_record :: "dht_service \<Rightarrow> string \<Rightarrow> string \<Rightarrow> bool \<times> dht_service" where
  "remove_provider_record s ck pid =
     (case ps_remove (authoritative s) ck pid of (removed, store) \<Rightarrow> (removed, s\<lparr>authoritative := store\<rparr>))"

definition service_snapshot :: "dht_service \<Rightarrow> u64 \<Rightarrow> nat \<Rightarrow> provider_snapshot" where
  "service_snapshot s now max_keys = ps_snapshot (authoritative s) now max_keys"

definition retract_own_provider :: "externs \<Rightarrow> dht_service \<Rightarrow> content_id \<Rightarrow> bool \<times> dht_service" where
  "retract_own_provider E s content =
     (let key = to_hex (content_to_key E content);
          (removed_record, store1) = ps_remove (authoritative s) key (local_id_hex E s);
          (was_announced, store2) = ps_unmark_announced store1 key
      in (removed_record \<or> was_announced, s\<lparr>authoritative := store2\<rparr>))"

definition holders_of ::
  "externs \<Rightarrow> dht_service \<Rightarrow> 't network \<Rightarrow> (nat \<Rightarrow> u64) \<Rightarrow> content_id \<Rightarrow>
     (('t dht_error + peer_id list) \<times> dht_service) option" where
  "holders_of E s net clock content =
     do { (res, s') \<leftarrow> find_providers E s net clock content;
          Some (case res of Inl e \<Rightarrow> Inl e
                          | Inr records \<Rightarrow> Inr (List.map_filter (record_peer_id E) records), s') }"

subsection \<open>Maintenance\<close>

text \<open>One key of \<open>republish\<close>, with the number of peers that accepted its PUT (which the loop ignores).
  The work list is read once, before the first key; \<open>nets i\<close> and
  \<open>clock (2 * i)\<close>, \<open>clock (2 * i + 1)\<close> are the network and the readings during key \<open>i\<close>.\<close>

definition republish_key ::
  "externs \<Rightarrow> dht_service \<Rightarrow> 't network \<Rightarrow> u64 \<Rightarrow> u64 \<Rightarrow> string \<Rightarrow> (nat \<times> dht_service) option" where
  "republish_key E s net now_build now_put hex =
     (case hex64_to_bytes hex of
        None \<Rightarrow> Some (0, s)
      | Some bytes \<Rightarrow>
          (let target = key_from_bytes bytes;
               record = (build_local_record E s target now_build)
                          \<lparr>unverified_mirror_coin_id := ps_announced_collateral (authoritative s) hex\<rparr>;
               s1 = s\<lparr>authoritative := snd (ps_put (\<lambda>_. now_put) (authoritative s) record)\<rparr>;
               seeds = seed_contacts E s1 target
           in if seeds = [] then Some (0, s1)
              else do { (result, s2) \<leftarrow> lookup_and_absorb E s1 net target seeds False;
                        Some (put_record_at E s2 net (lr_closest result) record, s2) }))"

fun republish_keys ::
  "externs \<Rightarrow> (nat \<Rightarrow> 't network) \<Rightarrow> (nat \<Rightarrow> u64) \<Rightarrow> nat \<Rightarrow> string list \<Rightarrow> dht_service \<Rightarrow> dht_service option" where
  "republish_keys E nets clock i [] s = Some s"
| "republish_keys E nets clock i (hex # hexes) s =
     do { (_, s') \<leftarrow> republish_key E s (nets i) (clock (2 * i)) (clock (2 * i + 1)) hex;
          republish_keys E nets clock (Suc i) hexes s' }"

definition republish ::
  "externs \<Rightarrow> dht_service \<Rightarrow> (nat \<Rightarrow> 't network) \<Rightarrow> (nat \<Rightarrow> u64) \<Rightarrow> (nat \<times> dht_service) option" where
  "republish E s nets clock =
     (let keys = ps_local_announcements (authoritative s)
      in do { s' \<leftarrow> republish_keys E nets clock 0 keys s;
              Some (length keys, s') })"

fun refresh_indices ::
  "externs \<Rightarrow> (nat \<Rightarrow> 't network) \<Rightarrow> (nat \<Rightarrow> nat \<Rightarrow> u8) \<Rightarrow> nat \<Rightarrow> nat list \<Rightarrow> dht_service \<Rightarrow> dht_service option" where
  "refresh_indices E nets random i [] s = Some s"
| "refresh_indices E nets random i (idx # idxs) s =
     do { target \<leftarrow> random_key_in_bucket s idx (random i);
          let seeds = seed_contacts E s target;
          s' \<leftarrow> (if seeds = [] then Some s
                 else do { (_, s1) \<leftarrow> lookup_and_absorb E s (nets i) target seeds False; Some s1 });
          refresh_indices E nets random (Suc i) idxs s' }"

definition refresh_buckets ::
  "externs \<Rightarrow> dht_service \<Rightarrow> (nat \<Rightarrow> 't network) \<Rightarrow> (nat \<Rightarrow> nat \<Rightarrow> u8) \<Rightarrow> (nat \<times> dht_service) option" where
  "refresh_buckets E s nets random =
     (let indices = non_empty_bucket_indices (routing s)
      in do { s' \<leftarrow> refresh_indices E nets random 0 indices s;
              Some (length indices, s') })"

definition service_gc :: "dht_service \<Rightarrow> u64 \<Rightarrow> nat \<times> dht_service" where
  "service_gc s now =
     (let (n, store) = ps_gc (authoritative s) now; (m, cache) = ps_gc (discovered s) now
      in (n + m, s\<lparr>authoritative := store, discovered := cache\<rparr>))"

definition ping ::
  "externs \<Rightarrow> dht_service \<Rightarrow> 't network \<Rightarrow> u64 \<Rightarrow> contact \<Rightarrow> (bool \<times> dht_service) option" where
  "ping E s net nonce peer =
     (if net_rpc net 0 (local_contact E s) peer (Ping nonce) = Inr (Pong nonce) then Some (True, s)
      else do { (_, t) \<leftarrow> rt_remove E (routing s) (ct_peer_id peer);
                Some (False, s\<lparr>routing := t\<rparr>) })"

subsection \<open>Serving side\<close>

definition learn_caller :: "externs \<Rightarrow> dht_service \<Rightarrow> contact option \<Rightarrow> dht_service option" where
  "learn_caller E s caller =
     (case caller of
        None \<Rightarrow> Some s
      | Some c \<Rightarrow>
          if ct_peer_id c \<noteq> local_id_hex E s
          then do { (_, t) \<leftarrow> rt_insert E (routing s) (cap_contact E c);
                    Some (s\<lparr>routing := t\<rparr>) }
          else Some s)"

fun answer_request ::
  "externs \<Rightarrow> dht_service \<Rightarrow> string option \<Rightarrow> dht_request \<Rightarrow> u64 \<Rightarrow> (dht_response \<times> dht_service) option" where
  "answer_request E s caller_id (Ping nonce) now = Some (Pong nonce, s)"
| "answer_request E s caller_id (FindNode target) now =
     Some (case parse_key target of
             None \<Rightarrow> ErrorResponse 2 ''bad target key''
           | Some key \<Rightarrow> Nodes (rt_closest E (routing s) key), s)"
| "answer_request E s caller_id (FindProviders ck) now =
     Some (case parse_key ck of
             None \<Rightarrow> ErrorResponse 2 ''bad content key''
           | Some key \<Rightarrow> Providers (ps_get (authoritative s) (to_hex key) now) (rt_closest E (routing s) key), s)"
| "answer_request E s caller_id (AddProvider record) now =
     (if caller_id \<noteq> None \<and> caller_id \<noteq> Some (provider_peer_id record)
      then Some (ErrorResponse 4 ''add_provider: provider_peer_id must match the authenticated caller'', s)
      else do { (outcome, s') \<leftarrow> admit_verified_record E s now record;
                Some (case outcome of Accepted \<Rightarrow> AddProviderOk
                        | RejectedOverCapacity \<Rightarrow> ErrorResponse 3 ''provider store over capacity'', s') })"

definition handle_request_from ::
  "externs \<Rightarrow> dht_service \<Rightarrow> contact option \<Rightarrow> dht_request \<Rightarrow> u64 \<Rightarrow> (dht_response \<times> dht_service) option" where
  "handle_request_from E s caller request now =
     do { s1 \<leftarrow> learn_caller E s caller;
          answer_request E s1 (map_option ct_peer_id caller) request now }"

definition handle_request ::
  "externs \<Rightarrow> dht_service \<Rightarrow> dht_request \<Rightarrow> u64 \<Rightarrow> (dht_response \<times> dht_service) option" where
  "handle_request E s request now = handle_request_from E s None request now"

definition known_closest :: "externs \<Rightarrow> dht_service \<Rightarrow> key \<Rightarrow> contact list" where
  "known_closest E s target = rt_closest E (routing s) target"

definition routing_len :: "dht_service \<Rightarrow> nat" where
  "routing_len s = rt_len (routing s)"

end
