(* ===== verification/Service_Steps.thy ===== *)
theory Service_Steps
  imports Dht_Service
begin

text \<open>
  The service as a transition system. A method of the service holds a mutex for one critical
  section at a time and lets other tasks run between them, so the unit that cannot be interleaved
  is the critical section: each rule of \<open>svc_step\<close> is one. \<open>hi\<close> bounds the clock readings made so
  far. Whatever the network said has no premise: a contact or record that came off the wire is
  arbitrary here, so an invariant of the relation holds against every peer. Every method of
  \<open>Dht_Service\<close> is shown to be a sequence of these steps.
\<close>

text \<open>What admission to the authoritative store makes of a record.\<close>

definition sanitized :: "externs \<Rightarrow> provider_record \<Rightarrow> u64 \<Rightarrow> provider_record" where
  "sanitized E r ceiling =
     r\<lparr>pr_addresses := sort_and_cap_addresses E (pr_addresses r),
       unverified_mirror_coin_id := normalize_mirror_coin_id (unverified_mirror_coin_id r),
       expires_at := min (expires_at r) ceiling\<rparr>"

definition own_record :: "externs \<Rightarrow> dht_service \<Rightarrow> key \<Rightarrow> u64 \<Rightarrow> string option \<Rightarrow> provider_record" where
  "own_record E s target now coin = (build_local_record E s target now)\<lparr>unverified_mirror_coin_id := coin\<rparr>"

inductive svc_step :: "externs \<Rightarrow> u64 \<Rightarrow> dht_service \<Rightarrow> dht_service \<Rightarrow> bool" for E hi where
  insert_contact:
    "rt_insert E (routing s) (cap_contact E c) = Some (outcome, t) \<Longrightarrow>
     svc_step E hi s (s\<lparr>routing := t\<rparr>)"
| drop_contact:
    "rt_remove E (routing s) pid = Some (was, t) \<Longrightarrow> svc_step E hi s (s\<lparr>routing := t\<rparr>)"
| announce_section:
    "now_build \<le> hi \<Longrightarrow> now \<le> hi \<Longrightarrow> canonical_coin coin \<Longrightarrow> wf_key target \<Longrightarrow>
     svc_step E hi s (s\<lparr>authoritative := ps_mark_announced_with_collateral
       (snd (ps_put_at (authoritative s) (own_record E s target now_build coin) now)) (to_hex target) coin\<rparr>)"
| republish_section:
    "now_build \<le> hi \<Longrightarrow> now \<le> hi \<Longrightarrow> canonical_coin coin \<Longrightarrow> wf_key target \<Longrightarrow>
     svc_step E hi s (s\<lparr>authoritative :=
       snd (ps_put_at (authoritative s) (own_record E s target now_build coin) now)\<rparr>)"
| unmark_section:
    "svc_step E hi s (s\<lparr>authoritative := snd (ps_unmark_announced (authoritative s) ck)\<rparr>)"
| remove_section:
    "svc_step E hi s (s\<lparr>authoritative := snd (ps_remove (authoritative s) ck pid)\<rparr>)"
| retract_section:
    "svc_step E hi s (s\<lparr>authoritative :=
       snd (ps_unmark_announced (snd (ps_remove (authoritative s) ck (local_id_hex E s))) ck)\<rparr>)"
| admit_section:
    "now \<le> hi \<Longrightarrow>
     svc_step E hi s (s\<lparr>authoritative := snd (ps_put_at (authoritative s)
       (sanitized E r (saturating_add now (provider_ttl_secs (config s)))) now)\<rparr>)"
| sweep_authoritative:
    "svc_step E hi s (s\<lparr>authoritative := snd (ps_gc (authoritative s) now)\<rparr>)"
| sweep_cache:
    "svc_step E hi s (s\<lparr>discovered := snd (ps_gc (discovered s) now)\<rparr>)"
| cache_section:
    "now \<le> hi \<Longrightarrow> svc_step E hi s (cache_discovered E s key_hex now rs)"
| forget_section:
    "svc_step E hi s (s\<lparr>discovered := snd (ps_remove_key (discovered s) ck)\<rparr>)"

inductive_cases svc_stepE: "svc_step E hi s s'"

inductive reachable :: "externs \<Rightarrow> u64 \<Rightarrow> dht_service \<Rightarrow> bool" for E where
  reach_new: "length pid = 32 \<Longrightarrow> reachable E hi (service_new pid addrs cfg)"
| reach_step: "reachable E hi s \<Longrightarrow> hi \<le> hi' \<Longrightarrow> svc_step E hi' s s' \<Longrightarrow> reachable E hi' s'"

subsection \<open>The invariant\<close>

definition bounded_record :: "u64 \<Rightarrow> provider_record \<Rightarrow> bool" where
  "bounded_record ceiling r \<longleftrightarrow>
     capped_addresses (pr_addresses r) \<and> canonical_coin (unverified_mirror_coin_id r)
     \<and> expires_at r \<le> ceiling"

definition routing_inv :: "externs \<Rightarrow> dht_service \<Rightarrow> bool" where
  "routing_inv E s \<longleftrightarrow>
     length (local_id s) = 32 \<and> rt_wf E (routing s)
     \<and> rt_local_key (routing s) = key_from_peer_id (local_id s) \<and> rt_k (routing s) = cfg_k (config s)
     \<and> (\<forall>c\<in>set (rt_contacts (routing s)). capped_addresses (ct_addresses c))"

definition authoritative_inv :: "u64 \<Rightarrow> dht_service \<Rightarrow> bool" where
  "authoritative_inv hi s \<longleftrightarrow>
     store_inv (authoritative s) \<and> limits (authoritative s) = provider_store_limits (config s)
     \<and> (\<forall>r\<in>ps_records (authoritative s). bounded_record (saturating_add hi (provider_ttl_secs (config s))) r)
     \<and> (\<forall>p\<in>set (announced (authoritative s)). canonical_hex (fst p) \<and> canonical_coin (snd p))"

definition cache_inv :: "externs \<Rightarrow> u64 \<Rightarrow> dht_service \<Rightarrow> bool" where
  "cache_inv E hi s \<longleftrightarrow>
     store_inv (discovered s) \<and> limits (discovered s) = discovery_cache_limits (config s)
     \<and> announced (discovered s) = []
     \<and> (\<forall>r\<in>ps_records (discovered s).
          bounded_record (saturating_add hi (discovery_cache_ttl_secs (config s))) r
          \<and> provider_peer_id r \<noteq> local_id_hex E s)"

definition svc_inv :: "externs \<Rightarrow> u64 \<Rightarrow> dht_service \<Rightarrow> bool" where
  "svc_inv E hi s \<longleftrightarrow> routing_inv E s \<and> authoritative_inv hi s \<and> cache_inv E hi s"

lemma sanitized_bounded: "bounded_record ceiling (sanitized E r ceiling)"
  by (simp add: bounded_record_def sanitized_def sort_and_cap_capped normalize_canonical)

lemma bounded_record_mono: "bounded_record a r \<Longrightarrow> a \<le> b \<Longrightarrow> bounded_record b r"
  by (auto simp: bounded_record_def)

lemma own_record_bounded:
  "now \<le> hi \<Longrightarrow> canonical_coin coin \<Longrightarrow>
   bounded_record (saturating_add hi (provider_ttl_secs (config s))) (own_record E s target now coin)"
  by (simp add: bounded_record_def own_record_def build_local_record_def provider_record_new_def
      sort_and_cap_capped saturating_add_mono)

subsection \<open>Preservation, one group of sections at a time\<close>

lemma inv_frame [simp]:
  "authoritative_inv hi (s\<lparr>routing := t\<rparr>) = authoritative_inv hi s"
  "authoritative_inv hi (s\<lparr>discovered := d\<rparr>) = authoritative_inv hi s"
  "cache_inv E hi (s\<lparr>routing := t\<rparr>) = cache_inv E hi s"
  "cache_inv E hi (s\<lparr>authoritative := a\<rparr>) = cache_inv E hi s"
  "routing_inv E (s\<lparr>authoritative := a\<rparr>) = routing_inv E s"
  "routing_inv E (s\<lparr>discovered := d\<rparr>) = routing_inv E s"
  by (simp_all add: authoritative_inv_def cache_inv_def routing_inv_def local_id_hex_def)

lemma routing_insert_inv:
  assumes "externs_ok E" "routing_inv E s" "rt_insert E (routing s) (cap_contact E c) = Some (outcome, t)"
  shows "routing_inv E (s\<lparr>routing := t\<rparr>)"
proof -
  have inv: "length (local_id s) = 32" "rt_wf E (routing s)"
    "rt_local_key (routing s) = key_from_peer_id (local_id s)" "rt_k (routing s) = cfg_k (config s)"
    "\<forall>c\<in>set (rt_contacts (routing s)). capped_addresses (ct_addresses c)"
    using assms(2) by (simp_all add: routing_inv_def)
  have "capped_addresses (ct_addresses (cap_contact E c))"
    by (simp add: cap_contact_def sort_and_cap_capped)
  with rt_insert_contacts[OF assms(3)] inv(5)
  have "\<forall>c\<in>set (rt_contacts t). capped_addresses (ct_addresses c)" by blast
  with inv rt_insert_wf[OF assms(1) inv(2) assms(3)] show ?thesis by (simp add: routing_inv_def)
qed

lemma routing_drop_inv:
  assumes "externs_ok E" "routing_inv E s" "rt_remove E (routing s) pid = Some (was, t)"
  shows "routing_inv E (s\<lparr>routing := t\<rparr>)"
proof -
  have inv: "length (local_id s) = 32" "rt_wf E (routing s)"
    "rt_local_key (routing s) = key_from_peer_id (local_id s)" "rt_k (routing s) = cfg_k (config s)"
    "\<forall>c\<in>set (rt_contacts (routing s)). capped_addresses (ct_addresses c)"
    using assms(2) by (simp_all add: routing_inv_def)
  have "rt_wf E t" using rt_remove_correct_aux[OF assms(1) inv(2), of pid] assms(3) by auto
  with inv rt_remove_contacts[OF assms(3)] show ?thesis by (auto simp: routing_inv_def)
qed

lemma authoritative_update_inv:
  assumes "authoritative_inv hi s" "store_inv A" "limits A = limits (authoritative s)"
    "ps_records A \<subseteq> ps_records (authoritative s) \<union>
       {r. bounded_record (saturating_add hi (provider_ttl_secs (config s))) r}"
    "\<forall>p\<in>set (announced A). canonical_hex (fst p) \<and> canonical_coin (snd p)"
  shows "authoritative_inv hi (s\<lparr>authoritative := A\<rparr>)"
  using assms by (auto simp: authoritative_inv_def)

lemma authoritative_put_inv:
  assumes "authoritative_inv hi s"
    "bounded_record (saturating_add hi (provider_ttl_secs (config s))) r"
  shows "authoritative_inv hi (s\<lparr>authoritative := snd (ps_put_at (authoritative s) r now)\<rparr>)"
proof -
  obtain o' A where put: "ps_put_at (authoritative s) r now = (o', A)" by fastforce
  have "store_inv (authoritative s)" "\<forall>p\<in>set (announced (authoritative s)). canonical_hex (fst p) \<and> canonical_coin (snd p)"
    using assms(1) by (simp_all add: authoritative_inv_def)
  with put_at_inv[of "authoritative s" r now] put put_at_limits[OF put] put_at_announced[OF put]
    put_at_records[OF put] assms show ?thesis
    by (auto intro!: authoritative_update_inv)
qed

lemma authoritative_mark_inv:
  assumes "authoritative_inv hi s" "canonical_coin coin" "canonical_hex ck"
  shows "authoritative_inv hi (s\<lparr>authoritative := ps_mark_announced_with_collateral (authoritative s) ck coin\<rparr>)"
  using assms set_update_subset[of ck coin "announced (authoritative s)"]
    mark_inv[of "authoritative s" ck coin]
  by (intro authoritative_update_inv)
    (auto simp: authoritative_inv_def ps_mark_announced_with_collateral_def)

lemma authoritative_unmark_inv:
  assumes "authoritative_inv hi s"
  shows "authoritative_inv hi (s\<lparr>authoritative := snd (ps_unmark_announced (authoritative s) ck)\<rparr>)"
  using assms unmark_inv[of "authoritative s" ck]
  by (intro authoritative_update_inv)
    (auto simp: authoritative_inv_def ps_unmark_announced_def set_delete)

lemma remove_records:
  assumes "store_ok s"
  shows "ps_records (snd (ps_remove s ck pid)) \<subseteq> ps_records s"
  using remove_effect[OF assms surjective_pairing, of ck pid]
  by (intro records_mono) (auto split: if_splits)

lemma gc_records:
  assumes "store_ok s"
  shows "ps_records (snd (ps_gc s now)) \<subseteq> ps_records s"
  using gc_effect[OF assms surjective_pairing, of now]
  by (intro records_mono) (auto split: option.splits if_splits)

lemma authoritative_remove_inv:
  assumes "authoritative_inv hi s"
  shows "authoritative_inv hi (s\<lparr>authoritative := snd (ps_remove (authoritative s) ck pid)\<rparr>)"
proof -
  have "store_inv (authoritative s)" using assms by (simp add: authoritative_inv_def)
  then have "store_inv (snd (ps_remove (authoritative s) ck pid))"
    "ps_records (snd (ps_remove (authoritative s) ck pid)) \<subseteq> ps_records (authoritative s)"
    by (simp_all add: remove_inv remove_records store_inv_def[of "authoritative s"])
  with assms remove_limits[of "authoritative s" ck pid] show ?thesis
    by (intro authoritative_update_inv) (auto simp: authoritative_inv_def)
qed

lemma authoritative_gc_inv:
  assumes "authoritative_inv hi s"
  shows "authoritative_inv hi (s\<lparr>authoritative := snd (ps_gc (authoritative s) now)\<rparr>)"
proof -
  have "store_inv (authoritative s)" using assms by (simp add: authoritative_inv_def)
  then have "store_inv (snd (ps_gc (authoritative s) now))"
    "ps_records (snd (ps_gc (authoritative s) now)) \<subseteq> ps_records (authoritative s)"
    by (simp_all add: gc_inv gc_records store_inv_def[of "authoritative s"])
  with assms gc_limits[of "authoritative s" now] show ?thesis
    by (intro authoritative_update_inv) (auto simp: authoritative_inv_def)
qed

lemma cacheable_facts:
  assumes "cacheable E s key_hex now r = Some e"
  shows "e = sanitized E r (saturating_add now (discovery_cache_ttl_secs (config s)))"
    "provider_peer_id e \<noteq> local_id_hex E s" "content_key e = key_hex" "\<not> is_expired e now"
  using assms by (auto simp: cacheable_def sanitized_def Let_def split: if_splits)

lemma cache_update_inv:
  assumes "cache_inv E hi s" "store_inv D" "limits D = limits (discovered s)" "announced D = announced (discovered s)"
    "ps_records D \<subseteq> ps_records (discovered s) \<union>
       {r. bounded_record (saturating_add hi (discovery_cache_ttl_secs (config s))) r
           \<and> provider_peer_id r \<noteq> local_id_hex E s}"
  shows "cache_inv E hi (s\<lparr>discovered := D\<rparr>)"
  using assms by (auto simp: cache_inv_def local_id_hex_def)

lemma cache_discovered_inv:
  assumes "cache_inv E hi s" "now \<le> hi"
  shows "cache_inv E hi (cache_discovered E s key_hex now rs)"
proof -
  let ?es = "List.map_filter (cacheable E s key_hex now) rs"
  let ?D = "fold (\<lambda>r store. snd (ps_put_at store r now)) ?es (discovered s)"
  have eq: "cache_discovered E s key_hex now rs = s\<lparr>discovered := ?D\<rparr>"
    by (simp add: cache_discovered_def batch_put_filtered)
  have "bounded_record (saturating_add hi (discovery_cache_ttl_secs (config s))) e
      \<and> provider_peer_id e \<noteq> local_id_hex E s" if e: "e \<in> set ?es" for e
  proof -
    obtain r where r: "cacheable E s key_hex now r = Some e"
      using e by (auto simp: map_filter_def)
    have "bounded_record (saturating_add now (discovery_cache_ttl_secs (config s))) e"
      unfolding cacheable_facts(1)[OF r] by (rule sanitized_bounded)
    with saturating_add_mono[OF assms(2)] cacheable_facts(2)[OF r] show ?thesis
      by (blast intro: bounded_record_mono)
  qed
  moreover have "ps_records ?D \<subseteq> set ?es \<union> ps_records (discovered s)"
    by (rule provider_admission.batch_stored)
  moreover have "store_inv ?D"
    using assms(1) by (intro provider_admission.batch_inv) (simp add: cache_inv_def)
  ultimately show ?thesis
    unfolding eq using assms(1) batch_put_limits[of now ?es "discovered s"]
    by (intro cache_update_inv) auto
qed

lemma cache_forget_inv:
  assumes "cache_inv E hi s"
  shows "cache_inv E hi (s\<lparr>discovered := snd (ps_remove_key (discovered s) ck)\<rparr>)"
  using assms remove_key_inv[of "discovered s" ck] remove_key_records[of "discovered s" ck]
  by (intro cache_update_inv) (auto simp: cache_inv_def ps_remove_key_def)

lemma cache_gc_inv:
  assumes "cache_inv E hi s"
  shows "cache_inv E hi (s\<lparr>discovered := snd (ps_gc (discovered s) now)\<rparr>)"
proof -
  have "store_inv (discovered s)" using assms by (simp add: cache_inv_def)
  then have "store_inv (snd (ps_gc (discovered s) now))"
    "ps_records (snd (ps_gc (discovered s) now)) \<subseteq> ps_records (discovered s)"
    by (simp_all add: gc_inv gc_records store_inv_def[of "discovered s"])
  with assms gc_limits[of "discovered s" now] show ?thesis
    by (intro cache_update_inv) auto
qed

lemma cache_discovered_frame [simp]:
  "authoritative (cache_discovered E s key_hex now rs) = authoritative s"
  "routing (cache_discovered E s key_hex now rs) = routing s"
  "config (cache_discovered E s key_hex now rs) = config s"
  "local_id (cache_discovered E s key_hex now rs) = local_id s"
  "local_addresses (cache_discovered E s key_hex now rs) = local_addresses s"
  "authoritative_inv hi (cache_discovered E s key_hex now rs) = authoritative_inv hi s"
  "routing_inv E (cache_discovered E s key_hex now rs) = routing_inv E s"
  by (simp_all add: cache_discovered_def)

lemma svc_step_frame:
  "svc_step E hi s s' \<Longrightarrow>
   local_id s' = local_id s \<and> config s' = config s \<and> local_addresses s' = local_addresses s"
  by (induction rule: svc_step.induct) simp_all

lemma svc_step_inv:
  assumes "externs_ok E" "svc_step E hi s s'" "svc_inv E hi s"
  shows "svc_inv E hi s'"
proof -
  have inv: "routing_inv E s" "authoritative_inv hi s" "cache_inv E hi s"
    using assms(3) by (simp_all add: svc_inv_def)
  from assms(2) show ?thesis
  proof cases
    case (insert_contact c outcome t)
    with inv routing_insert_inv[OF assms(1) inv(1)] show ?thesis by (simp add: svc_inv_def)
  next
    case (drop_contact pid was t)
    with inv routing_drop_inv[OF assms(1) inv(1)] show ?thesis by (simp add: svc_inv_def)
  next
    case (announce_section now_build now coin target)
    have "authoritative_inv hi (s\<lparr>authoritative :=
        snd (ps_put_at (authoritative s) (own_record E s target now_build coin) now)\<rparr>)"
      using inv(2) own_record_bounded announce_section by (intro authoritative_put_inv)
    from authoritative_mark_inv[OF this, of coin "to_hex target"] announce_section inv show ?thesis
      by (simp add: svc_inv_def canonical_to_hex wf_key_def)
  next
    case (republish_section now_build now coin target)
    with inv own_record_bounded authoritative_put_inv[OF inv(2)] show ?thesis by (simp add: svc_inv_def)
  next
    case (unmark_section ck)
    with inv authoritative_unmark_inv[OF inv(2)] show ?thesis by (simp add: svc_inv_def)
  next
    case (remove_section ck pid)
    with inv authoritative_remove_inv[OF inv(2)] show ?thesis by (simp add: svc_inv_def)
  next
    case (retract_section ck)
    from authoritative_unmark_inv[OF authoritative_remove_inv[OF inv(2), of ck "local_id_hex E s"], of ck]
      retract_section inv show ?thesis by (simp add: svc_inv_def)
  next
    case (admit_section now r)
    have "bounded_record (saturating_add hi (provider_ttl_secs (config s)))
        (sanitized E r (saturating_add now (provider_ttl_secs (config s))))"
      using bounded_record_mono[OF sanitized_bounded saturating_add_mono] admit_section(2) .
    from authoritative_put_inv[OF inv(2) this] admit_section inv show ?thesis by (simp add: svc_inv_def)
  next
    case (sweep_authoritative now)
    with inv authoritative_gc_inv[OF inv(2)] show ?thesis by (simp add: svc_inv_def)
  next
    case (sweep_cache now)
    with inv cache_gc_inv[OF inv(3)] show ?thesis by (simp add: svc_inv_def)
  next
    case (cache_section now key_hex rs)
    with inv cache_discovered_inv[OF inv(3)] show ?thesis by (simp add: svc_inv_def)
  next
    case (forget_section ck)
    with inv cache_forget_inv[OF inv(3)] show ?thesis by (simp add: svc_inv_def)
  qed
qed

lemma svc_inv_mono:
  assumes "svc_inv E hi s" "hi \<le> hi'"
  shows "svc_inv E hi' s"
  using assms bounded_record_mono[OF _ saturating_add_mono[OF assms(2)]]
  by (auto simp: svc_inv_def authoritative_inv_def cache_inv_def)

lemma service_new_inv:
  assumes "length pid = 32"
  shows "svc_inv E hi (service_new pid addrs cfg)"
proof -
  have "rt_contacts (rt_new pid k) = []" for k
    by (simp add: rt_contacts_def rt_new_def kbucket_new_def comp_def del: upt_rec_numeral)
  moreover have "ps_records (ps_with_limits l) = {}" "announced (ps_with_limits l) = []" for l
    by (simp_all add: ps_records_def ps_with_limits_def ps_lookup_def)
  moreover have "rt_local_key (rt_new pid k) = key_from_peer_id pid" "rt_k (rt_new pid k) = k" for k
    by (simp_all add: rt_new_def)
  ultimately show ?thesis
    using assms rt_new_wf empty_store_inv
    by (simp add: svc_inv_def routing_inv_def authoritative_inv_def cache_inv_def service_new_def)
qed

lemma reachable_inv:
  "externs_ok E \<Longrightarrow> reachable E hi s \<Longrightarrow> svc_inv E hi s"
proof (rotate_tac 1, induction rule: reachable.induct)
  case (reach_step hi s hi' s')
  then show ?case using svc_inv_mono svc_step_inv by blast
qed (rule service_new_inv)

text \<open>The invariant at a fixed bound, as the generic contract.\<close>

interpretation svc_run: inductive_invariant
  "\<lambda>s s'. svc_step (fst c) (snd c) s s'"
  "\<lambda>s. externs_ok (fst c) \<and> svc_inv (fst c) (snd c) s" for c :: "externs \<times> u64"
  by unfold_locales (auto intro: svc_step_inv)

end
