(* ===== verification/Service_Facts.thy ===== *)
theory Service_Facts
  imports Service_Steps
begin

text \<open>
  Every method of the service is a sequence of critical sections (the refinement lemmas), so the
  invariant of the step relation holds of it; then what each method does.
\<close>

subsection \<open>Methods as sequences of sections\<close>

abbreviation steps :: "externs \<Rightarrow> u64 \<Rightarrow> dht_service \<Rightarrow> dht_service \<Rightarrow> bool" where
  "steps E hi \<equiv> (svc_step E hi)\<^sup>*\<^sup>*"

lemma steps_one: "svc_step E hi s s' \<Longrightarrow> steps E hi s s'"
  by (rule r_into_rtranclp)

lemma cap_contact_new: "contact_new E pid addrs = cap_contact E \<lparr>ct_peer_id = pid_to_hex E pid, ct_addresses = addrs\<rparr>"
  by (simp add: contact_new_def cap_contact_def)

lemma insert_contacts_steps:
  "insert_contacts E (routing s) (map (cap_contact E) cs) = Some t \<Longrightarrow> steps E hi s (s\<lparr>routing := t\<rparr>)"
proof (induction cs arbitrary: s)
  case (Cons c cs)
  then obtain o1 t1 where t1: "rt_insert E (routing s) (cap_contact E c) = Some (o1, t1)"
    "insert_contacts E t1 (map (cap_contact E) cs) = Some t"
    by (auto simp: bind_eq_Some_conv)
  have "steps E hi (s\<lparr>routing := t1\<rparr>) (s\<lparr>routing := t\<rparr>)"
    using Cons.IH[of "s\<lparr>routing := t1\<rparr>"] t1(2) by simp
  with svc_step.insert_contact[OF t1(1)] show ?case by (rule converse_rtranclp_into_rtranclp)
next
  case Nil
  then have "s\<lparr>routing := t\<rparr> = s" by (cases s) simp
  then show ?case by simp
qed

lemma absorb_steps: "absorb_contacts E s cs = Some s' \<Longrightarrow> steps E hi s s'"
  by (auto simp: absorb_contacts_def bind_eq_Some_conv intro: insert_contacts_steps)

lemma lookup_and_absorb_steps:
  "lookup_and_absorb E s net target seeds stop = Some (res, s') \<Longrightarrow> steps E hi s s'"
  by (auto simp: lookup_and_absorb_def bind_eq_Some_conv split: prod.splits intro: absorb_steps)

lemma bootstrap_steps:
  assumes "bootstrap E s net peers = Some (n, s')"
  shows "steps E hi s s'"
proof -
  let ?cs = "map (\<lambda>p. \<lparr>ct_peer_id = pid_to_hex E (bp_peer_id p), ct_addresses = bp_addresses p\<rparr>) peers"
  have cs: "map (to_contact E) peers = map (cap_contact E) ?cs"
    by (simp add: to_contact_def cap_contact_new comp_def)
  from assms obtain t res where t: "insert_contacts E (routing s) (map (cap_contact E) ?cs) = Some t"
    "absorb_contacts E (s\<lparr>routing := t\<rparr>) res = Some s'"
    unfolding cs[symmetric] by (auto simp: bootstrap_def Let_def bind_eq_Some_conv split: prod.splits)
  from insert_contacts_steps[OF t(1)] absorb_steps[OF t(2)] show ?thesis by (rule rtranclp_trans)
qed

lemma add_peer_steps: "add_peer E s pid addrs = Some s' \<Longrightarrow> steps E hi s s'"
  by (auto simp: add_peer_def cap_contact_new bind_eq_Some_conv split: prod.splits
      intro: steps_one svc_step.insert_contact)

lemma remove_peer_steps: "remove_peer E s pid = Some (was, s') \<Longrightarrow> steps E hi s s'"
  by (auto simp: remove_peer_def bind_eq_Some_conv split: prod.splits
      intro: steps_one svc_step.drop_contact)

lemma find_node_steps: "find_node E s net pid = Some (res, s') \<Longrightarrow> steps E hi s s'"
  by (auto simp: find_node_def Let_def bind_eq_Some_conv split: if_splits prod.splits
      intro: lookup_and_absorb_steps)

lemma find_providers_steps:
  assumes "find_providers E s net clock content = Some (res, s')" "clock 1 \<le> hi"
  shows "steps E hi s s'"
proof -
  consider "s' = s"
    | r s1 rs where "lookup_and_absorb E s net (content_to_key E content) (seed_contacts E s (content_to_key E content)) True = Some (r, s1)"
      "s' = cache_discovered E s1 (to_hex (content_to_key E content)) (clock 1) rs"
    using assms(1) by (auto simp: find_providers_def Let_def bind_eq_Some_conv split: if_splits prod.splits)
  then show ?thesis
  proof cases
    case (2 r s1 rs)
    from lookup_and_absorb_steps[OF 2(1)] svc_step.cache_section[OF assms(2)] 2(2) show ?thesis
      by (metis rtranclp.rtrancl_into_rtrancl)
  qed simp
qed

lemma holders_of_steps:
  assumes "holders_of E s net clock content = Some (res, s')" "clock 1 \<le> hi"
  shows "steps E hi s s'"
  using assms by (auto simp: holders_of_def bind_eq_Some_conv intro: find_providers_steps)

lemma forget_steps: "steps E hi s (snd (forget_discovered E s content))"
  by (auto simp: forget_discovered_def split: prod.split
      intro!: steps_one svc_step.forget_section[of E hi s, simplified])
    (metis snd_conv svc_step.forget_section)

lemma own_record_none: "build_local_record E s target now = own_record E s target now None"
  by (simp add: own_record_def build_local_record_def provider_record_new_def)

lemma own_record_coin:
  "with_unverified_mirror_coin_id (build_local_record E s target now) c = own_record E s target now (Some (to_hex64 c))"
  by (simp add: own_record_def with_unverified_mirror_coin_id_def)

lemma announce_steps:
  assumes "announce_provider_with_collateral E s net clock content coin = Some (res, s')"
    "externs_ok E" "clock 0 \<le> hi" "clock 1 \<le> hi" "\<forall>c. coin = Some c \<longrightarrow> length c = 32"
  shows "steps E hi s s'"
proof -
  let ?t = "content_to_key E content" and ?coin = "map_option to_hex64 coin"
  let ?r = "own_record E s ?t (clock 0) ?coin"
  let ?s1 = "s\<lparr>authoritative := ps_mark_announced_with_collateral
       (snd (ps_put_at (authoritative s) ?r (clock 1))) (to_hex ?t) ?coin\<rparr>"
  have rec: "(case coin of Some c \<Rightarrow> with_unverified_mirror_coin_id (build_local_record E s ?t (clock 0)) c
      | None \<Rightarrow> build_local_record E s ?t (clock 0)) = ?r"
    by (cases coin) (simp_all add: own_record_coin, simp add: own_record_none)
  have coin: "unverified_mirror_coin_id ?r = ?coin" by (simp add: own_record_def)
  have "canonical_coin ?coin"
    using assms(5) canonical_to_hex by (auto simp: canonical_coin_def to_hex64_eq_to_hex split: option.split)
  then have step: "svc_step E hi s ?s1"
    using assms(3,4) wf_content_to_key[OF assms(2)] by (intro svc_step.announce_section)
  have "s' = ?s1 \<or> (\<exists>r seeds. lookup_and_absorb E ?s1 net ?t seeds False = Some (r, s'))"
    using assms(1) unfolding announce_provider_unfold Let_def rec coin ps_put_def
    by (auto simp: bind_eq_Some_conv split: if_splits)
  with step show ?thesis
    by (metis converse_rtranclp_into_rtranclp lookup_and_absorb_steps steps_one)
qed

lemma withdraw_steps: "steps E hi s (snd (withdraw_provider E s content))"
  using svc_step.unmark_section[of E hi s "to_hex (content_to_key E content)"]
  by (auto simp: withdraw_provider_def split: prod.split intro: steps_one)

lemma remove_provider_record_steps: "steps E hi s (snd (remove_provider_record s ck pid))"
  using svc_step.remove_section[of E hi s ck pid]
  by (auto simp: remove_provider_record_def split: prod.split intro: steps_one)

lemma retract_steps: "steps E hi s (snd (retract_own_provider E s content))"
  using svc_step.retract_section[of E hi s "to_hex (content_to_key E content)"]
  by (auto simp: retract_own_provider_def Let_def split: prod.split intro: steps_one)

lemma gc_steps: "steps E hi s (snd (service_gc s now))"
proof -
  have "svc_step E hi s (s\<lparr>authoritative := snd (ps_gc (authoritative s) now)\<rparr>)"
    by (rule svc_step.sweep_authoritative)
  moreover have "svc_step E hi (s\<lparr>authoritative := snd (ps_gc (authoritative s) now)\<rparr>)
      (s\<lparr>authoritative := snd (ps_gc (authoritative s) now), discovered := snd (ps_gc (discovered s) now)\<rparr>)"
    using svc_step.sweep_cache[of E hi "s\<lparr>authoritative := snd (ps_gc (authoritative s) now)\<rparr>" now] by simp
  ultimately show ?thesis
    by (auto simp: service_gc_def Let_def split: prod.split)
qed

lemma admit_eq:
  "admit_verified_record E s now r =
     (let record = sanitized E r (saturating_add now (provider_ttl_secs (config s)));
          (outcome, store) = ps_put_at (authoritative s) record now;
          s1 = s\<lparr>authoritative := store\<rparr>
      in if outcome = Accepted
         then (case record_peer_id E record of
                 None \<Rightarrow> Some (outcome, s1)
               | Some pid \<Rightarrow>
                   do { (_, t) \<leftarrow> rt_insert E (routing s1) (contact_new E pid (pr_addresses record));
                        Some (outcome, s1\<lparr>routing := t\<rparr>) })
         else Some (outcome, s1))"
proof -
  have rec: "(let r1 = r\<lparr>pr_addresses := sort_and_cap_addresses E (pr_addresses r)\<rparr>;
          r2 = r1\<lparr>unverified_mirror_coin_id := normalize_mirror_coin_id (unverified_mirror_coin_id r1)\<rparr>
      in r2\<lparr>expires_at := min (expires_at r2) ceiling\<rparr>) = sanitized E r ceiling" for ceiling
    by (simp add: sanitized_def)
  show ?thesis
    unfolding admit_verified_record_def rec[symmetric] Let_def ..
qed

lemma admit_cases:
  assumes "admit_verified_record E s now r = Some (outcome, s')"
  obtains store where
    "ps_put_at (authoritative s) (sanitized E r (saturating_add now (provider_ttl_secs (config s)))) now = (outcome, store)"
    "s' = s\<lparr>authoritative := store\<rparr> \<or>
     (\<exists>c o' t. outcome = Accepted \<and> rt_insert E (routing s) (cap_contact E c) = Some (o', t)
        \<and> record_peer_id E r \<noteq> None \<and> s' = s\<lparr>authoritative := store, routing := t\<rparr>)"
proof -
  let ?rec = "sanitized E r (saturating_add now (provider_ttl_secs (config s)))"
  obtain o1 store where put: "ps_put_at (authoritative s) ?rec now = (o1, store)" by fastforce
  have pid: "record_peer_id E ?rec = record_peer_id E r" by (simp add: record_peer_id_def sanitized_def)
  from assms put have "o1 = outcome \<and> (s' = s\<lparr>authoritative := store\<rparr> \<or>
     (\<exists>c o' t. outcome = Accepted \<and> rt_insert E (routing s) (cap_contact E c) = Some (o', t)
        \<and> record_peer_id E r \<noteq> None \<and> s' = s\<lparr>authoritative := store, routing := t\<rparr>))"
    unfolding admit_eq
    by (auto simp: Let_def pid cap_contact_new bind_eq_Some_conv split: if_splits option.splits prod.splits)
  with put show thesis by (intro that) auto
qed

lemma admit_steps:
  assumes "admit_verified_record E s now r = Some (outcome, s')" "now \<le> hi"
  shows "steps E hi s s'"
proof -
  let ?rec = "sanitized E r (saturating_add now (provider_ttl_secs (config s)))"
  from admit_cases[OF assms(1)] obtain store where store: "ps_put_at (authoritative s) ?rec now = (outcome, store)"
    "s' = s\<lparr>authoritative := store\<rparr> \<or>
     (\<exists>c o' t. outcome = Accepted \<and> rt_insert E (routing s) (cap_contact E c) = Some (o', t)
        \<and> record_peer_id E r \<noteq> None \<and> s' = s\<lparr>authoritative := store, routing := t\<rparr>)" .
  have step: "svc_step E hi s (s\<lparr>authoritative := store\<rparr>)"
    using svc_step.admit_section[OF assms(2), of E s r] store(1) by simp
  from store(2) show ?thesis
  proof (elim disjE exE conjE)
    fix c o' t
    assume "rt_insert E (routing s) (cap_contact E c) = Some (o', t)"
      "s' = s\<lparr>authoritative := store, routing := t\<rparr>"
    with svc_step.insert_contact[of E "s\<lparr>authoritative := store\<rparr>" c o' t hi]
    have "svc_step E hi (s\<lparr>authoritative := store\<rparr>) s'" by simp
    with step show ?thesis by (meson converse_rtranclp_into_rtranclp steps_one)
  qed (use step in \<open>simp add: steps_one\<close>)
qed

lemma learn_caller_steps: "learn_caller E s caller = Some s' \<Longrightarrow> steps E hi s s'"
  by (auto simp: learn_caller_def bind_eq_Some_conv split: option.splits if_splits prod.splits
      intro: steps_one svc_step.insert_contact)

lemma answer_request_steps:
  "answer_request E s caller_id req now = Some (resp, s') \<Longrightarrow> now \<le> hi \<Longrightarrow> steps E hi s s'"
  by (cases req) (auto simp: bind_eq_Some_conv split: if_splits intro: admit_steps)

lemma handle_request_steps:
  "handle_request_from E s caller req now = Some (resp, s') \<Longrightarrow> now \<le> hi \<Longrightarrow> steps E hi s s'"
  unfolding handle_request_from_def bind_eq_Some_conv
  by (blast intro: rtranclp_trans learn_caller_steps answer_request_steps)

lemma ping_steps: "ping E s net nonce peer = Some (alive, s') \<Longrightarrow> steps E hi s s'"
  by (auto simp: ping_def bind_eq_Some_conv split: if_splits prod.splits
      intro: steps_one svc_step.drop_contact)

lemma svc_steps_inv: "steps E hi s s' \<Longrightarrow> externs_ok E \<Longrightarrow> svc_inv E hi s \<Longrightarrow> svc_inv E hi s'"
  using svc_run.steps_inv[of "(E, hi)" s s'] by simp

lemma svc_steps_frame:
  "steps E hi s s' \<Longrightarrow>
   local_id s' = local_id s \<and> config s' = config s \<and> local_addresses s' = local_addresses s"
  by (induction rule: rtranclp_induct) (auto dest: svc_step_frame)

lemma republish_key_steps:
  assumes "republish_key E s net now_build now_put hex = Some (n, s')" "svc_inv E hi s"
    "now_build \<le> hi" "now_put \<le> hi"
  shows "steps E hi s s'"
proof (cases "hex64_to_bytes hex")
  case None
  with assms(1) show ?thesis by (simp add: republish_key_def)
next
  case (Some bytes)
  let ?coin = "ps_announced_collateral (authoritative s) hex"
  let ?r = "own_record E s (key_from_bytes bytes) now_build ?coin"
  let ?s1 = "s\<lparr>authoritative := snd (ps_put_at (authoritative s) ?r now_put)\<rparr>"
  have "\<forall>p\<in>set (announced (authoritative s)). canonical_coin (snd p)"
    using assms(2) by (simp add: svc_inv_def authoritative_inv_def)
  then have "canonical_coin ?coin"
    by (force simp: ps_announced_collateral_def canonical_coin_def bind_eq_Some_conv
        dest!: map_of_SomeD split: option.splits)
  moreover have "wf_key (key_from_bytes bytes)"
    using hex64_to_bytes_length[OF Some] by (simp add: wf_key_def key_from_bytes_def)
  ultimately have step: "svc_step E hi s ?s1"
    using assms(3,4) by (intro svc_step.republish_section)
  have "s' = ?s1 \<or> (\<exists>r seeds. lookup_and_absorb E ?s1 net (key_from_bytes bytes) seeds False = Some (r, s'))"
    using assms(1) Some unfolding republish_key_def Let_def ps_put_def own_record_def
    by (auto simp: bind_eq_Some_conv split: if_splits)
  with step show ?thesis
    by (metis converse_rtranclp_into_rtranclp lookup_and_absorb_steps steps_one)
qed

lemma republish_keys_steps:
  "republish_keys E nets clock i hexes s = Some s' \<Longrightarrow> externs_ok E \<Longrightarrow> svc_inv E hi s \<Longrightarrow>
   (\<And>j. clock j \<le> hi) \<Longrightarrow> steps E hi s s'"
proof (induction hexes arbitrary: i s)
  case (Cons hex hexes)
  then obtain n s1 where s1: "republish_key E s (nets i) (clock (2 * i)) (clock (2 * i + 1)) hex = Some (n, s1)"
    "republish_keys E nets clock (Suc i) hexes s1 = Some s'"
    by (auto simp: bind_eq_Some_conv)
  have one: "steps E hi s s1" by (rule republish_key_steps[OF s1(1) Cons.prems(3,4,4)])
  from Cons.IH[OF s1(2) Cons.prems(2) svc_steps_inv[OF one Cons.prems(2,3)] Cons.prems(4)] one
  show ?case by (rule rtranclp_trans[rotated])
qed simp

lemma republish_steps:
  "republish E s nets clock = Some (n, s') \<Longrightarrow> externs_ok E \<Longrightarrow> svc_inv E hi s \<Longrightarrow>
   (\<And>j. clock j \<le> hi) \<Longrightarrow> steps E hi s s'"
  by (auto simp: republish_def Let_def bind_eq_Some_conv intro: republish_keys_steps)

lemma refresh_indices_steps:
  "refresh_indices E nets random i idxs s = Some s' \<Longrightarrow> steps E hi s s'"
proof (induction idxs arbitrary: i s)
  case (Cons idx idxs)
  then obtain s1 where "s1 = s \<or> (\<exists>r t seeds. lookup_and_absorb E s (nets i) t seeds False = Some (r, s1))"
    "refresh_indices E nets random (Suc i) idxs s1 = Some s'"
    by (auto simp: bind_eq_Some_conv Let_def split: if_splits prod.splits)
  with Cons.IH show ?case by (metis lookup_and_absorb_steps rtranclp_trans)
qed simp

lemma refresh_steps: "refresh_buckets E s nets random = Some (n, s') \<Longrightarrow> steps E hi s s'"
  by (auto simp: refresh_buckets_def Let_def bind_eq_Some_conv intro: refresh_indices_steps)

end
