(* ===== verification/Service_Properties.thy ===== *)
theory Service_Properties
  imports Service_Facts
begin

text \<open>
  What the service guarantees: the invariant of every reachable state, the refinement of its
  methods to critical sections, and the contract of each of its operations.
\<close>

subsection \<open>Reachable states\<close>

text \<open>C1. In every state the service can reach, under any interleaving of its critical sections and
  whatever peers send: the routing table is well formed and every address list in it is capped; both
  stores are within their caps, the global one on the number of records and the per-key one on the
  providers of each key (which the code keeps at one at least); every record a query can return is capped, carries a canonical pointer
  or none, and expires no later than the applicable TTL after the latest clock reading; and the
  discovery cache never names this node.\<close>

theorem reachable_states_bounded:
  assumes "externs_ok E" "reachable E hi s"
  shows "rt_wf E (routing s) \<and> (\<forall>c\<in>set (rt_contacts (routing s)). capped_addresses (ct_addresses c))
   \<and> ps_len (authoritative s) \<le> max_total_records (provider_store_limits (config s))
   \<and> ps_len (discovered s) \<le> max_total_records (discovery_cache_limits (config s))
   \<and> (\<forall>p\<in>set (by_key (authoritative s)).
        length (snd p) \<le> max 1 (max_providers_per_key (provider_store_limits (config s))))
   \<and> (\<forall>p\<in>set (by_key (discovered s)).
        length (snd p) \<le> max 1 (max_providers_per_key (discovery_cache_limits (config s))))
   \<and> (\<forall>ck now. \<forall>r\<in>set (ps_get (authoritative s) ck now).
        bounded_record (saturating_add hi (provider_ttl_secs (config s))) r)
   \<and> (\<forall>ck now. \<forall>r\<in>set (ps_get (discovered s) ck now).
        bounded_record (saturating_add hi (discovery_cache_ttl_secs (config s))) r
        \<and> provider_peer_id r \<noteq> local_id_hex E s)"
proof -
  have inv: "svc_inv E hi s" using assms by (rule reachable_inv)
  then have ok: "store_ok (authoritative s)" "store_ok (discovered s)"
    by (simp_all add: svc_inv_def authoritative_inv_def cache_inv_def store_inv_def)
  show ?thesis
    using inv get_records[OF ok(1)] get_records[OF ok(2)]
    by (auto simp: svc_inv_def routing_inv_def authoritative_inv_def cache_inv_def store_inv_def
        store_bounded_def)
qed

definition sample_service :: dht_service where
  "sample_service = service_new (replicate 32 0) [] default_config"

lemma sample_service_reachable: "reachable sample_externs hi sample_service"
  unfolding sample_service_def by (rule reach_new) simp

lemma sample_service_inv: "svc_inv sample_externs hi sample_service"
  by (rule reachable_inv[OF sample_externs_ok sample_service_reachable])

lemma sample_service_sel [simp]:
  "local_id sample_service = replicate 32 0" "local_addresses sample_service = []"
  "config sample_service = default_config" "routing sample_service = rt_new (replicate 32 0) 20"
  "authoritative sample_service = ps_with_limits default_limits"
  "discovered sample_service = ps_with_limits \<lparr>max_providers_per_key = 8, max_total_records = 10000\<rparr>"
  by (simp_all add: sample_service_def service_new_def default_config_def del: upt_rec_numeral)

text \<open>C18. Every method of the service, run from a state of the invariant, is a sequence of the service's
  critical sections at clock readings up to the latest one it sees: bootstrap, the membership methods,
  the searches, announce, republish, refresh, the request handler, ingestion, ping, and the operations
  on the stores. What every section preserves, every method therefore preserves.\<close>

theorem methods_refine_sections:
  assumes "externs_ok E" "svc_inv E hi s" "\<forall>i. clock i \<le> hi" "now \<le> hi"
    "\<forall>c. coin = Some c \<longrightarrow> length c = 32"
  shows "(bootstrap E s net peers = Some (n, s') \<longrightarrow> steps E hi s s')
   \<and> (add_peer E s pid addrs = Some s' \<longrightarrow> steps E hi s s')
   \<and> (remove_peer E s hex = Some (was, s') \<longrightarrow> steps E hi s s')
   \<and> (find_node E s net pid = Some (nodes, s') \<longrightarrow> steps E hi s s')
   \<and> (find_providers E s net clock content = Some (found, s') \<longrightarrow> steps E hi s s')
   \<and> (holders_of E s net clock content = Some (holders, s') \<longrightarrow> steps E hi s s')
   \<and> (announce_provider_with_collateral E s net clock content coin = Some (accepted, s') \<longrightarrow> steps E hi s s')
   \<and> (republish E s nets clock = Some (n, s') \<longrightarrow> steps E hi s s')
   \<and> (refresh_buckets E s nets random = Some (n, s') \<longrightarrow> steps E hi s s')
   \<and> (handle_request_from E s caller req now = Some (resp, s') \<longrightarrow> steps E hi s s')
   \<and> (ingest_verified_provider E s now r = Some (outcome, s') \<longrightarrow> steps E hi s s')
   \<and> (ping E s net nonce peer = Some (alive, s') \<longrightarrow> steps E hi s s')
   \<and> steps E hi s (snd (forget_discovered E s content)) \<and> steps E hi s (snd (withdraw_provider E s content))
   \<and> steps E hi s (snd (retract_own_provider E s content))
   \<and> steps E hi s (snd (remove_provider_record s ck pidhex)) \<and> steps E hi s (snd (service_gc s now))"
proof -
  have clk: "clock i \<le> hi" for i using assms(3) by simp
  note walks = find_providers_steps[OF _ clk] holders_of_steps[OF _ clk]
    announce_steps[OF _ assms(1) clk clk assms(5)] republish_steps[OF _ assms(1,2) clk]
  note served = handle_request_steps[OF _ assms(4)]
    admit_steps[OF _ assms(4), folded ingest_verified_provider_def]
  note moves = bootstrap_steps add_peer_steps remove_peer_steps find_node_steps refresh_steps ping_steps
  note sections = forget_steps withdraw_steps retract_steps remove_provider_record_steps gc_steps
  show ?thesis
    by (intro conjI; (rule sections
      | (rule impI, (erule moves served walks | erule walks(2) | erule walks(3) | erule walks(4)))))
qed

lemma discovered_commute:
  "s\<lparr>discovered := d, routing := t\<rparr> = s\<lparr>routing := t, discovered := d\<rparr>"
  "s\<lparr>discovered := d, authoritative := a\<rparr> = s\<lparr>authoritative := a, discovered := d\<rparr>"
  by simp_all

lemma admit_frame:
  "admit_verified_record E (s\<lparr>discovered := d\<rparr>) now r =
     map_option (\<lambda>(o', s'). (o', s'\<lparr>discovered := d\<rparr>)) (admit_verified_record E s now r)"
  by (auto simp: admit_verified_record_def Let_def map_option_bind comp_def case_prod_unfold discovered_commute
      split: prod.split option.split)

lemma learn_frame:
  "learn_caller E (s\<lparr>discovered := d\<rparr>) caller =
     map_option (\<lambda>s'. s'\<lparr>discovered := d\<rparr>) (learn_caller E s caller)"
  by (auto simp: learn_caller_def local_id_hex_def map_option_bind comp_def case_prod_unfold discovered_commute
      split: option.split)

lemma answer_frame:
  "answer_request E (s\<lparr>discovered := d\<rparr>) caller_id req now =
     map_option (\<lambda>(resp, s'). (resp, s'\<lparr>discovered := d\<rparr>)) (answer_request E s caller_id req now)"
  by (cases req) (simp_all add: admit_frame map_option_bind comp_def case_prod_unfold bind_map_option
      split: option.split)

lemma handle_frame:
  "handle_request_from E (s\<lparr>discovered := d\<rparr>) caller req now =
     map_option (\<lambda>(resp, s'). (resp, s'\<lparr>discovered := d\<rparr>)) (handle_request_from E s caller req now)"
  by (simp add: handle_request_from_def learn_frame answer_frame map_option_bind bind_map_option comp_def)

text \<open>C6. Hearsay is never re-served. What a peer is answered, the aggregated snapshot, and every
  change a request makes to the state are the same whatever the discovery cache holds, and a request
  leaves the cache as it was.\<close>

theorem requests_ignore_discovery_cache:
  "handle_request_from E (s\<lparr>discovered := d\<rparr>) caller req now =
     map_option (\<lambda>(resp, s'). (resp, s'\<lparr>discovered := d\<rparr>)) (handle_request_from E s caller req now)
   \<and> (\<forall>resp s'. handle_request_from E s caller req now = Some (resp, s') \<longrightarrow> discovered s' = discovered s)
   \<and> service_snapshot (s\<lparr>discovered := d\<rparr>) now n = service_snapshot s now n"
proof (intro conjI allI impI)
  fix resp and s' :: dht_service
  assume h: "handle_request_from E s caller req now = Some (resp, s')"
  have "s\<lparr>discovered := discovered s\<rparr> = s" by simp
  with handle_frame[where E = E and s = s and d = "discovered s" and caller = caller and req = req
      and now = now] h
  have "s'\<lparr>discovered := discovered s\<rparr> = s'" by simp
  then have "discovered (s'\<lparr>discovered := discovered s\<rparr>) = discovered s'" by (rule arg_cong)
  then show "discovered s' = discovered s" by simp
qed (rule handle_frame, simp add: service_snapshot_def)

theorem requests_ignore_discovery_cache_witness:
  "handle_request_from sample_externs (sample_service\<lparr>discovered := ps_new\<rparr>) None (Ping 7) 0
     = Some (Pong 7, sample_service\<lparr>discovered := ps_new\<rparr>)"
  using requests_ignore_discovery_cache[where E = sample_externs and s = sample_service and d = ps_new
      and caller = None and req = "Ping 7" and now = 0]
  by (simp add: handle_request_from_def learn_caller_def)

subsection \<open>Announcements of others\<close>

lemma put_rejected_same: "ps_put_at s r now = (RejectedOverCapacity, s') \<Longrightarrow> s' = s"
  by (erule put_at_cases) simp_all

lemma learn_frame_stores:
  "learn_caller E s caller = Some s1 \<Longrightarrow>
   authoritative s1 = authoritative s \<and> discovered s1 = discovered s \<and> config s1 = config s \<and> local_id s1 = local_id s"
  by (auto simp: learn_caller_def bind_eq_Some_conv split: option.splits if_splits)

lemma admit_stores:
  assumes "admit_verified_record E s now r = Some (outcome, s')"
  shows "discovered s' = discovered s \<and> (outcome = RejectedOverCapacity \<longrightarrow> s' = s)
    \<and> (outcome = Accepted \<longrightarrow> (\<exists>e. ps_lookup (authoritative s') (content_key r) (provider_peer_id r) = Some e
         \<and> pe_record e = sanitized E r (saturating_add now (provider_ttl_secs (config s)))))"
proof -
  let ?rec = "sanitized E r (saturating_add now (provider_ttl_secs (config s)))"
  have keys: "content_key ?rec = content_key r" "provider_peer_id ?rec = provider_peer_id r"
    by (simp_all add: sanitized_def)
  from admit_cases[OF assms] obtain store where put: "ps_put_at (authoritative s) ?rec now = (outcome, store)"
    and s': "s' = s\<lparr>authoritative := store\<rparr> \<or> (\<exists>c o' t. outcome = Accepted
      \<and> rt_insert E (routing s) (cap_contact E c) = Some (o', t)
      \<and> record_peer_id E r \<noteq> None \<and> s' = s\<lparr>authoritative := store, routing := t\<rparr>)" .
  from s' have a: "authoritative s' = store" "discovered s' = discovered s" by auto
  have "s' = s" if "outcome = RejectedOverCapacity"
    using s' put_rejected_same[of "authoritative s" ?rec now store] put that by auto
  moreover have "\<exists>e. ps_lookup store (content_key r) (provider_peer_id r) = Some e \<and> pe_record e = ?rec"
    if "outcome = Accepted"
    using put_at_accepted_lookup[of "authoritative s" ?rec now store] put that by (simp add: keys)
  ultimately show ?thesis using a by auto
qed

text \<open>C3. An authenticated peer can announce only itself. A record naming anybody else is refused
  with code 4; only an \<open>AddProviderOk\<close> changes the store, and then what is held under the caller's
  identity is the record it sent with addresses capped, pointer canonical or dropped, and expiry at
  most the provider TTL from now. The discovery cache is never touched.\<close>

theorem add_provider_authenticated:
  assumes "handle_request_from E s (Some c) (AddProvider r) now = Some (resp, s')"
  shows "(provider_peer_id r \<noteq> ct_peer_id c \<longrightarrow>
        resp = ErrorResponse 4 ''add_provider: provider_peer_id must match the authenticated caller'')
    \<and> (resp \<noteq> AddProviderOk \<longrightarrow> authoritative s' = authoritative s)
    \<and> (resp = AddProviderOk \<longrightarrow> provider_peer_id r = ct_peer_id c
         \<and> (\<exists>e. ps_lookup (authoritative s') (content_key r) (ct_peer_id c) = Some e
              \<and> pe_record e = sanitized E r (saturating_add now (provider_ttl_secs (config s)))
              \<and> bounded_record (saturating_add now (provider_ttl_secs (config s))) (pe_record e)))
    \<and> discovered s' = discovered s"
proof -
  from assms obtain s1 where s1: "learn_caller E s (Some c) = Some s1"
    "answer_request E s1 (Some (ct_peer_id c)) (AddProvider r) now = Some (resp, s')"
    by (auto simp: handle_request_from_def bind_eq_Some_conv)
  note frame = learn_frame_stores[OF s1(1)]
  show ?thesis
  proof (cases "provider_peer_id r = ct_peer_id c")
    case False
    with s1(2) frame show ?thesis by auto
  next
    case True
    with s1(2) obtain outcome where admit: "admit_verified_record E s1 now r = Some (outcome, s')"
      and resp: "resp = (case outcome of Accepted \<Rightarrow> AddProviderOk
                        | RejectedOverCapacity \<Rightarrow> ErrorResponse 3 ''provider store over capacity'')"
      by (auto simp: bind_eq_Some_conv)
    from admit_stores[OF admit] frame True resp show ?thesis
      by (cases outcome) (auto simp: sanitized_bounded)
  qed
qed

lemma sample_add_provider:
  "\<exists>s'. handle_request_from sample_externs sample_service
      (Some \<lparr>ct_peer_id = ''zz'', ct_addresses = []\<rparr>) (AddProvider (sample_record ''k'' ''zz'' 50)) 0
      = Some (AddProviderOk, s')"
proof -
  have bad: "hex64_to_bytes ''zz'' = None" by (simp add: hex64_to_bytes_def)
  have "length (to_hex (replicate 32 0)) = 64" by (simp add: length_to_hex)
  moreover have "length ''zz'' \<noteq> 64" by simp
  ultimately have ne: "''zz'' \<noteq> to_hex (replicate 32 0)" by metis
  have same: "s\<lparr>routing := routing s\<rparr> = s" for s :: dht_service by simp
  have learn: "learn_caller sample_externs sample_service (Some \<lparr>ct_peer_id = ''zz'', ct_addresses = []\<rparr>)
      = Some sample_service"
    using ne same[of sample_service]
    by (simp add: learn_caller_def local_id_hex_def rt_insert_def contact_key_def contact_peer_id_def
        cap_contact_def bad del: upt_rec_numeral)
  have "record_peer_id sample_externs (sanitized sample_externs (sample_record ''k'' ''zz'' 50) t) = None" for t
    by (simp add: record_peer_id_def sanitized_def bad)
  then have "\<exists>s'. admit_verified_record sample_externs sample_service 0 (sample_record ''k'' ''zz'' 50)
      = Some (Accepted, s')"
    by (simp add: admit_eq Let_def sanitized_def ps_put_at_def ps_len_def default_limits_def
        del: upt_rec_numeral)
  with learn show ?thesis by (auto simp: handle_request_from_def)
qed

theorem add_provider_authenticated_witness:
  "\<exists>(s' :: dht_service) e. ps_lookup (authoritative s') ''k'' ''zz'' = Some e \<and> discovered s' = discovered sample_service
     \<and> bounded_record 7200 (pe_record e)"
proof -
  obtain s' where h: "handle_request_from sample_externs sample_service
      (Some \<lparr>ct_peer_id = ''zz'', ct_addresses = []\<rparr>) (AddProvider (sample_record ''k'' ''zz'' 50)) 0
      = Some (AddProviderOk, s')" using sample_add_provider by blast
  have ttl: "saturating_add 0 (provider_ttl_secs default_config) = 7200"
    by (simp add: saturating_add_def config_defs)
  from add_provider_authenticated[OF h] obtain e where e: "ps_lookup (authoritative s') ''k'' ''zz'' = Some e"
    "bounded_record (saturating_add 0 (provider_ttl_secs (config sample_service))) (pe_record e)"
    "discovered s' = discovered sample_service"
    by (auto simp del: sample_service_sel)
  from e(2) have "bounded_record 7200 (pe_record e)" by (simp add: ttl)
  with e(1,3) show ?thesis by (intro exI conjI)
qed

subsection \<open>Finding providers\<close>

definition network_ok :: "'t network \<Rightarrow> bool" where
  "network_ok net \<longleftrightarrow> (\<forall>r cs. mset (net_order net r cs) = mset cs)"

lemma lookup_env_ok: "network_ok net \<Longrightarrow> env_ok (lookup_env_of E s net target)"
  by (simp add: network_ok_def env_ok_def lookup_env_of_def)

text \<open>Answer-to-question binding.\<close>

lemma run_lookup_on_key:
  assumes "network_ok net" "run_lookup E s net target seeds stop = Some (res, st)" "r \<in> set (lr_providers res)"
  shows "content_key r = to_hex target"
proof -
  let ?env = "lookup_env_of E s net target"
  note sound = lookup_sound_facts[OF lookup_env_ok[OF assms(1)] assms(2)[unfolded run_lookup_def]]
  then have "r \<in> set (told_providers (cfg_k (config s)) (ls_answers st))" using assms(3) by blast
  then obtain a q where a: "a \<in> set (ls_answers st)" "snd a = Some q" "r \<in> set (qo_providers q)"
    by (auto simp: told_providers_def split: option.splits dest!: in_set_takeD)
  with sound obtain i where "le_query ?env i (fst a) = Joined (Some q)"
    by (metis answers_real_def)
  then have "query_outcome_of (to_hex target)
      (net_rpc net i (local_contact E s) (fst a) (FindProviders (to_hex target))) = Some q"
    by (auto simp: lookup_env_of_def split: if_splits)
  with a(3) show ?thesis
    by (auto simp: query_outcome_of_def split: sum.splits dht_response.splits)
qed

lemma retain_new_prefix:
  "distinct (map f xs) \<Longrightarrow> f ` set xs \<inter> seen = {} \<Longrightarrow> set xs \<subseteq> set (retain_new f seen (xs @ ys))"
proof (induction xs arbitrary: seen)
  case (Cons x xs)
  have "set xs \<subseteq> set (retain_new f (insert (f x) seen) (xs @ ys))"
    using Cons.prems by (intro Cons.IH) auto
  with Cons.prems show ?case by auto
qed simp

lemma merge_facts:
  "distinct (map provider_peer_id (merge_dedup_by_provider auth extra now))"
  "set (merge_dedup_by_provider auth extra now) \<subseteq> {r \<in> set auth \<union> set extra. \<not> is_expired r now}"
  "provider_peer_id ` set (merge_dedup_by_provider auth extra now) =
     provider_peer_id ` {r \<in> set auth \<union> set extra. \<not> is_expired r now}"
  unfolding merge_dedup_by_provider_def
  using set_retain_new_subset[of provider_peer_id "{}" "filter (\<lambda>r. \<not> is_expired r now) (auth @ extra)"]
  by (auto simp: retain_new_distinct retain_new_image)

lemma merge_keeps_authoritative:
  assumes "distinct (map provider_peer_id auth)" "r \<in> set auth" "\<not> is_expired r now"
  shows "r \<in> set (merge_dedup_by_provider auth extra now)"
proof -
  have "distinct (map provider_peer_id (filter (\<lambda>r. \<not> is_expired r now) auth))"
    using assms(1) by (rule distinct_map_filter)
  from retain_new_prefix[OF this, of "{}" "filter (\<lambda>r. \<not> is_expired r now) extra"] assms(2,3)
  show ?thesis by (auto simp: merge_dedup_by_provider_def)
qed

lemma normalize_discovered_shape:
  "content_key (normalize_discovered E r) = content_key r"
  "capped_addresses (pr_addresses (normalize_discovered E r))"
  "canonical_coin (unverified_mirror_coin_id (normalize_discovered E r))"
  by (simp_all add: normalize_discovered_def Let_def sort_and_cap_capped normalize_canonical)

lemma absorb_stores:
  "absorb_contacts E s cs = Some s' \<Longrightarrow>
   authoritative s' = authoritative s \<and> discovered s' = discovered s \<and> config s' = config s
   \<and> local_id s' = local_id s \<and> local_addresses s' = local_addresses s"
  by (auto simp: absorb_contacts_def bind_eq_Some_conv)

text \<open>The three ways \<open>find_providers\<close> ends.\<close>

lemma find_providers_cases:
  assumes "find_providers E s net clock content = Some (res, s')"
  obtains (cached) "ps_get (discovered s) (to_hex (content_to_key E content)) (clock 0) \<noteq> []" "s' = s"
      "res = Inr (merge_dedup_by_provider
         (ps_get (authoritative s) (to_hex (content_to_key E content)) (clock 0))
         (ps_get (discovered s) (to_hex (content_to_key E content)) (clock 0)) (clock 0))"
  | (nobody) "seed_contacts E s (content_to_key E content) = []" "s' = s"
      "res = Inr (ps_get (authoritative s) (to_hex (content_to_key E content)) (clock 0))"
  | (walked) result st s1 where
      "ps_get (discovered s) (to_hex (content_to_key E content)) (clock 0) = []"
      "run_lookup E s net (content_to_key E content) (seed_contacts E s (content_to_key E content)) True
         = Some (result, st)"
      "absorb_contacts E s (lr_closest result) = Some s1"
      "s' = cache_discovered E s1 (to_hex (content_to_key E content)) (clock 1)
         (map (normalize_discovered E) (lr_providers result))"
      "res = Inr (merge_dedup_by_provider
         (ps_get (authoritative s) (to_hex (content_to_key E content)) (clock 0))
         (map (normalize_discovered E) (lr_providers result)) (clock 2))"
proof -
  let ?k = "content_to_key E content"
  show thesis
  proof (cases "ps_get (discovered s) (to_hex ?k) (clock 0) = []")
    case False
    then have "res = Inr (merge_dedup_by_provider (ps_get (authoritative s) (to_hex ?k) (clock 0))
        (ps_get (discovered s) (to_hex ?k) (clock 0)) (clock 0)) \<and> s' = s"
      using assms by (auto simp: find_providers_def Let_def)
    then show thesis by (elim conjE) (rule cached[OF False]; assumption)
  next
    case no_cache: True
    show thesis
    proof (cases "seed_contacts E s ?k = []")
      case True
      with assms no_cache have "res = Inr (ps_get (authoritative s) (to_hex ?k) (clock 0)) \<and> s' = s"
        by (auto simp: find_providers_def Let_def)
      then show thesis by (elim conjE) (rule nobody[OF True]; assumption)
    next
      case False
      with assms no_cache obtain result st s1 where
        "run_lookup E s net ?k (seed_contacts E s ?k) True = Some (result, st)"
        "absorb_contacts E s (lr_closest result) = Some s1"
        "s' = cache_discovered E s1 (to_hex ?k) (clock 1) (map (normalize_discovered E) (lr_providers result))"
        "res = Inr (merge_dedup_by_provider (ps_get (authoritative s) (to_hex ?k) (clock 0))
           (map (normalize_discovered E) (lr_providers result)) (clock 2))"
        by (auto simp: find_providers_def lookup_and_absorb_def Let_def bind_eq_Some_conv)
      with no_cache show thesis by (intro walked)
    qed
  qed
qed

lemma held_records_shape:
  assumes "svc_inv E hi s" "r \<in> set (ps_get (authoritative s) ck t) \<union> set (ps_get (discovered s) ck t)"
  shows "content_key r = ck \<and> capped_addresses (pr_addresses r)
    \<and> canonical_coin (unverified_mirror_coin_id r) \<and> \<not> is_expired r t"
proof -
  have inv: "authoritative_inv hi s" "cache_inv E hi s" using assms(1) by (simp_all add: svc_inv_def)
  then have ok: "store_ok (authoritative s)" "store_ok (discovered s)"
    by (simp_all add: authoritative_inv_def cache_inv_def store_inv_def)
  have "\<not> is_expired r t" using assms(2) by (auto simp: ps_get_def split: option.splits)
  with assms(2) inv get_records[OF ok(1)] get_records[OF ok(2)] show ?thesis
    by (auto simp: authoritative_inv_def cache_inv_def bounded_record_def)
qed

text \<open>C12. What \<open>find_providers\<close> answers. It never fails: with nobody to ask it returns what this node
  holds. Every record is for the key asked, capped and canonical, live at the start or at the merge,
  no provider twice; a live record of this node's own store is always in the answer; and the
  authoritative store is only read.\<close>

theorem find_providers_answers:
  assumes "externs_ok E" "svc_inv E hi s" "network_ok net"
    "find_providers E s net clock content = Some (res, s')"
  shows "\<exists>rs. res = Inr rs \<and> distinct (map provider_peer_id rs)
    \<and> (\<forall>r\<in>set rs. content_key r = to_hex (content_to_key E content)
         \<and> capped_addresses (pr_addresses r) \<and> canonical_coin (unverified_mirror_coin_id r)
         \<and> (\<not> is_expired r (clock 0) \<or> \<not> is_expired r (clock 2)))
    \<and> (\<forall>r\<in>set (ps_get (authoritative s) (to_hex (content_to_key E content)) (clock 0)).
         is_expired r (clock 2) \<or> r \<in> set rs)
    \<and> authoritative s' = authoritative s"
proof -
  let ?hex = "to_hex (content_to_key E content)"
  let ?local = "ps_get (authoritative s) ?hex (clock 0)" and ?cached = "ps_get (discovered s) ?hex (clock 0)"
  have ok: "store_ok (authoritative s)"
    using assms(2) by (simp add: svc_inv_def authoritative_inv_def store_inv_def)
  note shape = held_records_shape[OF assms(2), of _ ?hex "clock 0"]
  note dist = get_distinct[OF ok, of ?hex "clock 0"]
  from assms(4) show ?thesis
  proof (cases rule: find_providers_cases)
    case cached
    let ?rs = "merge_dedup_by_provider ?local ?cached (clock 0)"
    have "content_key r = ?hex \<and> capped_addresses (pr_addresses r)
      \<and> canonical_coin (unverified_mirror_coin_id r) \<and> \<not> is_expired r (clock 0)" if "r \<in> set ?rs" for r
      using that merge_facts(2)[of ?local ?cached "clock 0"] shape by blast
    moreover have "r \<in> set ?rs" if "r \<in> set ?local" for r
      using merge_keeps_authoritative[OF dist that] shape that by blast
    ultimately show ?thesis using cached merge_facts(1) by blast
  next
    case nobody
    with shape dist show ?thesis by blast
  next
    case (walked result st s1)
    let ?found = "map (normalize_discovered E) (lr_providers result)"
    let ?rs = "merge_dedup_by_provider ?local ?found (clock 2)"
    have found: "content_key r = ?hex \<and> capped_addresses (pr_addresses r)
      \<and> canonical_coin (unverified_mirror_coin_id r)" if "r \<in> set ?found" for r
      using that run_lookup_on_key[OF assms(3) walked(2)] by (auto simp: normalize_discovered_shape)
    have "content_key r = ?hex \<and> capped_addresses (pr_addresses r)
      \<and> canonical_coin (unverified_mirror_coin_id r) \<and> \<not> is_expired r (clock 2)" if "r \<in> set ?rs" for r
      using that merge_facts(2)[of ?local ?found "clock 2"] shape found by blast
    moreover have "is_expired r (clock 2) \<or> r \<in> set ?rs" if "r \<in> set ?local" for r
      using merge_keeps_authoritative[OF dist that] by blast
    moreover have "authoritative s' = authoritative s"
      using walked(4) absorb_stores[OF walked(3)] by simp
    ultimately show ?thesis using walked(5) merge_facts(1) by blast
  qed
qed

definition empty_network :: "string network" where
  "empty_network = \<lparr>net_rpc = (\<lambda>i from peer req. Inl Timeout), net_order = (\<lambda>r cs. cs),
                    net_task_fails = (\<lambda>r c. False)\<rparr>"

lemma sample_seeds: "seed_contacts sample_externs sample_service target = []"
  by (simp add: seed_contacts_def rt_closest_def keyed_contacts_def map_filter_simps)

theorem find_providers_answers_witness:
  "\<exists>rs s'. find_providers sample_externs sample_service empty_network (\<lambda>_. 0) (Store (replicate 32 1))
       = Some (Inr rs, s') \<and> distinct (map provider_peer_id rs) \<and> authoritative s' = authoritative sample_service"
proof -
  have f: "find_providers sample_externs sample_service empty_network (\<lambda>_. 0) (Store (replicate 32 1))
      = Some (Inr [], sample_service)"
    by (simp add: find_providers_def Let_def sample_seeds del: upt_rec_numeral)
  have "network_ok empty_network" by (simp add: network_ok_def empty_network_def)
  from find_providers_answers[OF sample_externs_ok sample_service_inv this f] f show ?thesis by blast
qed

end
