(* ===== verification/Service_Totality.thy ===== *)
theory Service_Totality
  imports Service_Properties
begin

text \<open>
  The service never panics. The panics of the model are the code's: an index into an empty bucket,
  an overflowing shortlist bound, a bucket index above 255. \<open>returns m P\<close> is total correctness of a
  computation that may panic; its rules chain through the \<open>do\<close> blocks of the methods.
\<close>

definition returns :: "'a option \<Rightarrow> ('a \<Rightarrow> bool) \<Rightarrow> bool" where
  "returns m P \<longleftrightarrow> (\<exists>x. m = Some x \<and> P x)"

lemma returns_Some [simp]: "returns (Some x) P \<longleftrightarrow> P x"
  by (simp add: returns_def)

lemma returns_bind:
  "returns m Q \<Longrightarrow> (\<And>x. Q x \<Longrightarrow> returns (f x) P) \<Longrightarrow> returns (Option.bind m f) P"
  by (auto simp: returns_def)

lemma returns_mono: "returns m Q \<Longrightarrow> (\<And>x. Q x \<Longrightarrow> P x) \<Longrightarrow> returns m P"
  by (auto simp: returns_def)

lemma returns_not_None: "returns m P \<Longrightarrow> m \<noteq> None"
  by (auto simp: returns_def)

text \<open>A configuration the code can run: buckets have room, and the shortlist bound is a \<open>usize\<close>.\<close>

definition config_sane :: "dht_config \<Rightarrow> bool" where
  "config_sane cfg \<longleftrightarrow> 0 < cfg_k cfg \<and> cfg_k cfg * 3 < 2 ^ 64 \<and> alpha cfg * 2 < 2 ^ 64
     \<and> cfg_k cfg + alpha cfg * 2 < 2 ^ 64"

definition ready :: "externs \<Rightarrow> dht_service \<Rightarrow> bool" where
  "ready E s \<longleftrightarrow> externs_ok E \<and> length (local_id s) = 32 \<and> rt_wf E (routing s)
     \<and> rt_local_key (routing s) = key_from_peer_id (local_id s)
     \<and> rt_k (routing s) = cfg_k (config s) \<and> config_sane (config s)"

lemma ready_frame [simp]:
  "ready E (s\<lparr>authoritative := a\<rparr>) = ready E s" "ready E (s\<lparr>discovered := d\<rparr>) = ready E s"
  "ready E (cache_discovered E s key_hex now rs) = ready E s"
  by (simp_all add: ready_def)

lemma ready_inv: "externs_ok E \<Longrightarrow> svc_inv E hi s \<Longrightarrow> config_sane (config s) \<Longrightarrow> ready E s"
  by (simp add: ready_def svc_inv_def routing_inv_def)

lemma rt_insert_returns:
  assumes "ready E s"
  shows "returns (rt_insert E (routing s) c) (\<lambda>(outcome, t). ready E (s\<lparr>routing := t\<rparr>))"
proof -
  have r: "externs_ok E" "rt_wf E (routing s)" "0 < rt_k (routing s)"
    using assms by (simp_all add: ready_def config_sane_def)
  from rt_insert_total[OF r, of c] obtain outcome t where t: "rt_insert E (routing s) c = Some (outcome, t)"
    by blast
  with rt_insert_wf[OF r(1,2) t] assms show ?thesis by (simp add: ready_def)
qed

lemma rt_remove_returns:
  assumes "ready E s"
  shows "returns (rt_remove E (routing s) pid) (\<lambda>_. True)"
  using rt_remove_correct_aux[of E "routing s" pid] assms by (auto simp: ready_def returns_def)

lemma insert_contacts_returns:
  "ready E s \<Longrightarrow> returns (insert_contacts E (routing s) cs) (\<lambda>t. ready E (s\<lparr>routing := t\<rparr>))"
proof (induction cs arbitrary: s)
  case (Cons c cs)
  have "returns (insert_contacts E t cs) (\<lambda>t'. ready E (s\<lparr>routing := t'\<rparr>))"
    if "ready E (s\<lparr>routing := t\<rparr>)" for t
    using Cons.IH[OF that] by simp
  with rt_insert_returns[OF Cons.prems, of c] show ?case
    by (auto simp: case_prod_unfold intro!: returns_bind)
qed simp

lemma absorb_returns: "ready E s \<Longrightarrow> returns (absorb_contacts E s cs) (ready E)"
  unfolding absorb_contacts_def
  by (rule returns_bind, rule insert_contacts_returns) simp_all

lemma run_lookup_returns:
  assumes "config_sane (config s)" "network_ok net"
  shows "returns (run_lookup E s net target seeds stop) (\<lambda>_. True)"
proof -
  have "iterative_find E (lookup_env_of E s net target) target seeds (cfg_k (config s))
      (alpha (config s)) stop \<noteq> None"
    using iterative_find_None[OF lookup_env_ok[OF assms(2)]] shortlist_cap_None assms(1)
    by (simp add: config_sane_def)
  then show ?thesis by (auto simp: run_lookup_def returns_def)
qed

lemma lookup_and_absorb_returns:
  assumes "ready E s" "network_ok net"
  shows "returns (lookup_and_absorb E s net target seeds stop) (\<lambda>(_, s'). ready E s')"
proof -
  have "config_sane (config s)" using assms(1) by (simp add: ready_def)
  from run_lookup_returns[OF this assms(2)] absorb_returns[OF assms(1)] show ?thesis
    unfolding lookup_and_absorb_def
    by (auto simp: case_prod_unfold intro!: returns_bind)
qed

lemma bootstrap_returns:
  assumes "ready E s" "network_ok net"
  shows "returns (bootstrap E s net peers) (\<lambda>_. True)"
  unfolding bootstrap_def Let_def
proof (rule returns_bind[OF insert_contacts_returns[OF assms(1)]])
  fix t assume t: "ready E (s\<lparr>routing := t\<rparr>)"
  then have sane: "config_sane (config (s\<lparr>routing := t\<rparr>))" by (simp add: ready_def)
  show "returns (run_lookup E (s\<lparr>routing := t\<rparr>) net (key_from_peer_id (local_id s)) (map (to_contact E) peers) False
      \<bind> (\<lambda>(result, _). absorb_contacts E (s\<lparr>routing := t\<rparr>) (lr_closest result)
      \<bind> (\<lambda>s2. Some (rt_len (routing s2), s2)))) (\<lambda>_. True)"
    by (auto simp: case_prod_unfold intro!: returns_bind[OF run_lookup_returns[OF sane assms(2)]]
        returns_bind[OF absorb_returns[OF t]])
qed

lemma add_peer_returns: "ready E s \<Longrightarrow> returns (add_peer E s pid addrs) (\<lambda>_. True)"
  unfolding add_peer_def by (rule returns_bind, rule rt_insert_returns) (simp_all split: prod.split)

lemma remove_peer_returns: "ready E s \<Longrightarrow> returns (remove_peer E s hex) (\<lambda>_. True)"
  unfolding remove_peer_def by (rule returns_bind, rule rt_remove_returns) (simp_all split: prod.split)

lemma ping_returns: "ready E s \<Longrightarrow> returns (ping E s net nonce peer) (\<lambda>_. True)"
  unfolding ping_def
  by (auto intro!: returns_bind[OF rt_remove_returns] split: prod.split)

lemma find_node_returns:
  assumes "ready E s" "network_ok net"
  shows "returns (find_node E s net pid) (\<lambda>_. True)"
  unfolding find_node_def Let_def
  by (auto intro!: returns_bind[OF lookup_and_absorb_returns[OF assms]])

lemma find_providers_returns:
  assumes "ready E s" "network_ok net"
  shows "returns (find_providers E s net clock content) (\<lambda>_. True)"
  unfolding find_providers_def Let_def
  by (auto intro!: returns_bind[OF lookup_and_absorb_returns[OF assms]])

lemma holders_of_returns:
  assumes "ready E s" "network_ok net"
  shows "returns (holders_of E s net clock content) (\<lambda>_. True)"
  unfolding holders_of_def
  using find_providers_returns[OF assms] by (auto intro!: returns_bind split: prod.split)

lemma announce_returns:
  assumes "ready E s" "network_ok net"
  shows "returns (announce_provider_with_collateral E s net clock content coin) (\<lambda>_. True)"
  unfolding announce_provider_unfold Let_def
  by (auto simp: assms intro!: returns_bind[OF lookup_and_absorb_returns[OF _ assms(2)]])

lemma admit_returns: "ready E s \<Longrightarrow> returns (admit_verified_record E s now r) (\<lambda>_. True)"
  unfolding admit_verified_record_def Let_def
  using rt_insert_returns[of E "s\<lparr>authoritative := a\<rparr>" for a]
  by (auto intro!: returns_bind split: prod.split option.split)

lemma learn_caller_returns: "ready E s \<Longrightarrow> returns (learn_caller E s caller) (ready E)"
  unfolding learn_caller_def
  using rt_insert_returns by (auto intro!: returns_bind split: prod.split option.split)

lemma handle_request_returns:
  assumes "ready E s"
  shows "returns (handle_request_from E s caller req now) (\<lambda>_. True)"
  unfolding handle_request_from_def
proof (rule returns_bind[OF learn_caller_returns[OF assms]])
  fix s1 assume "ready E s1"
  from admit_returns[OF this] show "returns (answer_request E s1 (map_option ct_peer_id caller) req now) (\<lambda>_. True)"
    by (cases req) (auto intro!: returns_bind split: prod.split)
qed


lemma republish_key_returns:
  assumes "ready E s" "network_ok net"
  shows "returns (republish_key E s net t1 t2 hex) (\<lambda>(_, s'). ready E s')"
  unfolding republish_key_def Let_def
  by (auto simp: assms split: option.split
      intro!: returns_bind[OF lookup_and_absorb_returns[OF _ assms(2)]])

lemma republish_keys_returns:
  "ready E s \<Longrightarrow> (\<And>j. network_ok (nets j)) \<Longrightarrow> returns (republish_keys E nets clock i hexes s) (\<lambda>_. True)"
proof (induction hexes arbitrary: i s)
  case (Cons hex hexes)
  show ?case
    by (auto intro!: returns_bind[OF republish_key_returns[OF Cons.prems]] Cons.IH Cons.prems(2))
qed simp

lemma random_key_in_bucket_returns: "idx < 256 \<Longrightarrow> returns (random_key_in_bucket s idx random) wf_key"
  by (simp add: random_key_in_bucket_def Let_def key_from_bytes_def wf_key_def)

lemma refresh_indices_returns:
  "ready E s \<Longrightarrow> (\<And>j. network_ok (nets j)) \<Longrightarrow> \<forall>idx\<in>set idxs. idx < 256 \<Longrightarrow>
   returns (refresh_indices E nets random i idxs s) (\<lambda>_. True)"
proof (induction idxs arbitrary: i s)
  case (Cons idx idxs)
  have rest: "returns (refresh_indices E nets random (Suc i) idxs s') (\<lambda>_. True)" if "ready E s'" for s'
    using Cons.IH[OF that Cons.prems(2)] Cons.prems(3) by simp
  have walk: "returns (if seeds = [] then Some s
      else lookup_and_absorb E s (nets i) target seeds False \<bind> (\<lambda>(_, s1). Some s1)) (ready E)" for target seeds
    using Cons.prems(1) by (auto intro!: returns_bind[OF lookup_and_absorb_returns[OF Cons.prems(1,2)]])
  have "returns (random_key_in_bucket s idx (random i)) wf_key"
    using Cons.prems(3) by (intro random_key_in_bucket_returns) simp
  then show ?case unfolding refresh_indices.simps Let_def
    by (rule returns_bind) (rule returns_bind[OF walk rest])
qed simp

lemma non_empty_bucket_less: "rt_wf E t \<Longrightarrow> i \<in> set (non_empty_bucket_indices t) \<Longrightarrow> i < 256"
  by (auto simp: non_empty_bucket_indices_def rt_wf_def in_set_enumerate_eq)

lemma republish_returns:
  assumes "ready E s" "\<And>j. network_ok (nets j)"
  shows "returns (republish E s nets clock) (\<lambda>_. True)"
  unfolding republish_def Let_def by (auto intro!: returns_bind[OF republish_keys_returns[OF assms]])

lemma refresh_returns:
  assumes "ready E s" "\<And>j. network_ok (nets j)"
  shows "returns (refresh_buckets E s nets random) (\<lambda>_. True)"
proof -
  have "\<forall>i\<in>set (non_empty_bucket_indices (routing s)). i < 256"
    using assms(1) non_empty_bucket_less by (auto simp: ready_def)
  from refresh_indices_returns[OF assms this] show ?thesis
    unfolding refresh_buckets_def Let_def by (auto intro!: returns_bind)
qed

subsection \<open>Properties\<close>

text \<open>C2. The service cannot be made to panic. In every reachable state of a node whose configuration
  has room in a bucket (\<open>0 < k\<close>) and whose shortlist bound fits a \<open>usize\<close>, every method returns,
  whatever the caller passes, peers answer, the clock reads and the random source yields.\<close>

theorem service_never_panics:
  assumes "externs_ok E" "reachable E hi s" "config_sane (config s)" "network_ok net" "\<forall>i. network_ok (nets i)"
  shows "bootstrap E s net peers \<noteq> None \<and> add_peer E s pid addrs \<noteq> None \<and> remove_peer E s hex \<noteq> None
    \<and> find_node E s net pid \<noteq> None \<and> find_providers E s net clock content \<noteq> None
    \<and> holders_of E s net clock content \<noteq> None
    \<and> announce_provider_with_collateral E s net clock content coin \<noteq> None
    \<and> republish E s nets clock \<noteq> None \<and> refresh_buckets E s nets random \<noteq> None
    \<and> ping E s net nonce peer \<noteq> None \<and> ingest_verified_provider E s now r \<noteq> None
    \<and> handle_request_from E s caller req now \<noteq> None"
proof -
  have ready: "ready E s" using reachable_inv[OF assms(1,2)] assms(1,3) by (intro ready_inv)
  have nets: "\<And>i. network_ok (nets i)" using assms(5) by blast
  show ?thesis
    unfolding ingest_verified_provider_def
    by (intro conjI returns_not_None[OF bootstrap_returns] returns_not_None[OF add_peer_returns]
        returns_not_None[OF remove_peer_returns] returns_not_None[OF find_node_returns]
        returns_not_None[OF find_providers_returns] returns_not_None[OF holders_of_returns]
        returns_not_None[OF announce_returns] returns_not_None[OF republish_returns]
        returns_not_None[OF refresh_returns] returns_not_None[OF ping_returns]
        returns_not_None[OF admit_returns] returns_not_None[OF handle_request_returns]
        ready assms(4) nets)
qed

theorem service_never_panics_witness:
  "find_node sample_externs sample_service empty_network (replicate 32 7) \<noteq> None
   \<and> handle_request_from sample_externs sample_service None (FindNode ''beef'') 0 \<noteq> None"
proof -
  have "config_sane (config sample_service)" by (simp add: config_sane_def default_config_def)
  moreover have "network_ok empty_network" by (simp add: network_ok_def empty_network_def)
  ultimately show ?thesis
    using service_never_panics[OF sample_externs_ok sample_service_reachable, where net = empty_network
        and nets = "\<lambda>_. empty_network"] by simp
qed

text \<open>The bucket size has to be positive: with \<open>k = 0\<close> the first peer whose identity is not the
  node's own makes \<open>KBucket::offer\<close> index an empty vector.\<close>

lemma zero_bucket_size_panics:
  assumes "externs_ok E" "svc_inv E hi s" "cfg_k (config s) = 0" "length pid = 32" "pid \<noteq> local_id s"
  shows "add_peer E s pid addrs = None"
proof -
  let ?c = "contact_new E pid addrs"
  have wf: "rt_wf E (routing s)" "rt_local_key (routing s) = key_from_peer_id (local_id s)" "rt_k (routing s) = 0"
    using assms(2,3) by (simp_all add: svc_inv_def routing_inv_def)
  have "contact_key E ?c = Some (key_from_peer_id pid)"
    using externs_ok_to_hex[OF assms(1,4)] by (simp add: contact_key_def contact_peer_id_def contact_new_def)
  then have r: "routable E (routing s) ?c" using assms(5) wf(2) by (simp add: routable_def key_from_peer_id_def)
  from assms(1) wf(1) show ?thesis
  proof (cases rule: rt_insert_cases[where c = ?c])
    case (offered i)
    have "kb_capacity (rt_buckets (routing s) ! i) = 0 \<and> kb_contacts (rt_buckets (routing s) ! i) = []"
      using rt_wf_bucket[OF wf(1) offered(1)] wf(3) by (simp add: bucket_wf_def)
    then have "bucket_offer (rt_buckets (routing s) ! i) ?c = None" by (simp add: bucket_offer_def)
    with offered(4) show ?thesis by (simp add: add_peer_def)
  qed (use r in simp)
qed

end
