(* ===== verification/Service_Contracts.thy ===== *)
theory Service_Contracts
  imports Service_Totality
begin

text \<open>
  The contracts of the methods by which a node manages its own records (announce, republish,
  retract), and of the target a bucket refresh looks up. Each method is first reduced to the one
  store operation it makes; the rest of it only moves the routing table.
\<close>

subsection \<open>The node's own records\<close>

text \<open>What the methods that announce leave alone.\<close>

definition same_node :: "dht_service \<Rightarrow> dht_service \<Rightarrow> bool" where
  "same_node s s' \<longleftrightarrow> local_id s' = local_id s \<and> local_addresses s' = local_addresses s
     \<and> config s' = config s \<and> discovered s' = discovered s"

lemma same_node_trans: "same_node s t \<Longrightarrow> same_node t u \<Longrightarrow> same_node s u"
  by (simp add: same_node_def)

lemma same_node_own:
  "same_node s s' \<Longrightarrow> own_record E s' target now coin = own_record E s target now coin
     \<and> local_id_hex E s' = local_id_hex E s"
  by (simp add: same_node_def own_record_def build_local_record_def local_id_hex_def)

lemma own_record_sel [simp]:
  "content_key (own_record E s target now coin) = to_hex target"
  "provider_peer_id (own_record E s target now coin) = local_id_hex E s"
  "unverified_mirror_coin_id (own_record E s target now coin) = coin"
  "expires_at (own_record E s target now coin) = saturating_add now (provider_ttl_secs (config s))"
  "pr_addresses (own_record E s target now coin) = sort_and_cap_addresses E (local_addresses s)"
  by (simp_all add: own_record_def build_local_record_def provider_record_new_def local_id_hex_def)

lemma canonical_decode:
  assumes "canonical_hex s"
  obtains bs where "hex64_to_bytes s = Some bs" "to_hex bs = s" "length bs = 32"
proof -
  obtain bs where bs: "hex64_to_bytes s = Some bs"
    using hex64_to_bytes_iff[of s] canonical_lowercase[OF assms] assms by auto
  then have "to_hex bs = s"
    using to_hex_hex_chunks[of s bs] canonical_lowercase[OF assms]
    by (auto simp: hex64_to_bytes_def split: if_splits)
  with bs show thesis using hex64_to_bytes_length[OF bs] by (rule that)
qed

lemma put_refresh:
  assumes "ps_lookup s (content_key r) (provider_peer_id r) = Some e" "ps_put_at s r now = (outcome, s')"
  shows "outcome = Accepted \<and> announced s' = announced s
    \<and> (\<forall>ck pid. ps_lookup s' ck pid =
         (if ck = content_key r \<and> pid = provider_peer_id r then Some (e\<lparr>pe_record := r\<rparr>) else ps_lookup s ck pid))"
proof -
  from assms(1) obtain ps where ps: "map_of (by_key s) (content_key r) = Some ps"
    "map_of ps (provider_peer_id r) = Some e"
    by (auto simp: ps_lookup_def bind_eq_Some_conv)
  have s': "s' = s\<lparr>by_key := AList.update (content_key r)
      (AList.update (provider_peer_id r) (e\<lparr>pe_record := r\<rparr>) ps) (by_key s)\<rparr>" and o': "outcome = Accepted"
    using assms ps by (simp_all add: ps_put_at_def)
  have "ps_lookup s (content_key r) pid = map_of ps pid" for pid using ps(1) by (simp add: ps_lookup_def)
  with o' show ?thesis by (auto simp: s' map_of_update)
qed

lemma put_other_lookup:
  "ps_put_at s r now = (outcome, s') \<Longrightarrow> ck \<noteq> content_key r \<Longrightarrow> ps_lookup s' ck pid = ps_lookup s ck pid"
  by (simp add: ps_lookup_def put_at_other_key)

lemma lookup_and_absorb_same:
  "lookup_and_absorb E s net target seeds stop = Some (res, s') \<Longrightarrow>
   same_node s s' \<and> authoritative s' = authoritative s"
  unfolding lookup_and_absorb_def same_node_def
  by (auto simp: bind_eq_Some_conv split: prod.splits dest: absorb_stores)

lemma put_record_at_le: "put_record_at E s net peers record \<le> length peers"
proof -
  have "length (put_requests E s peers record) \<le> length peers"
    using length_filter_le[of "\<lambda>(i, p). ct_peer_id p \<noteq> local_id_hex E s" "List.enumerate 0 peers"]
    by (simp add: put_requests_def)
  then show ?thesis unfolding put_record_at_def by (rule order_trans[OF length_filter_le])
qed

lemma lookup_and_absorb_closest:
  "lookup_and_absorb E s net target seeds stop = Some (res, s') \<Longrightarrow> length (lr_closest res) \<le> cfg_k (config s)"
  unfolding lookup_and_absorb_def run_lookup_def iterative_find_def
  by (auto simp: bind_eq_Some_conv lookup_finish_def split: prod.splits)

text \<open>An announce is one put and one mark; then only the routing table changes.\<close>

lemma announce_cases:
  assumes "announce_provider_with_collateral E s net clock content coin = Some (res, s')"
  obtains outcome store n where
    "ps_put_at (authoritative s) (own_record E s (content_to_key E content) (clock 0) (map_option to_hex64 coin))
       (clock 1) = (outcome, store)"
    "authoritative s' = ps_mark_announced_with_collateral store (to_hex (content_to_key E content))
       (map_option to_hex64 coin)"
    "same_node s s'" "res = Inr n" "n \<le> cfg_k (config s)"
proof -
  let ?t = "content_to_key E content" and ?coin = "map_option to_hex64 coin"
  let ?r = "own_record E s ?t (clock 0) ?coin"
  obtain outcome store where put: "ps_put_at (authoritative s) ?r (clock 1) = (outcome, store)" by fastforce
  let ?s1 = "s\<lparr>authoritative := ps_mark_announced_with_collateral store (to_hex ?t) ?coin\<rparr>"
  have rec: "(case coin of Some c \<Rightarrow> with_unverified_mirror_coin_id (build_local_record E s ?t (clock 0)) c
      | None \<Rightarrow> build_local_record E s ?t (clock 0)) = ?r"
    by (cases coin) (simp_all add: own_record_coin, simp add: own_record_none)
  have one: "same_node s ?s1" by (simp add: same_node_def)
  from assms consider "s' = ?s1" "res = Inr 0"
    | r where "lookup_and_absorb E ?s1 net ?t (seed_contacts E ?s1 ?t) False = Some (r, s')"
      "res = Inr (put_record_at E s' net (lr_closest r) ?r)"
    unfolding announce_provider_unfold Let_def rec ps_put_def
    by (auto simp: bind_eq_Some_conv put split: if_splits simp del: One_nat_def)
  then show thesis
  proof cases
    case 1
    with one show thesis by (intro that[OF put _ _ 1(2)]) simp_all
  next
    case (2 r)
    note lookup_and_absorb_closest[OF 2(1)] lookup_and_absorb_same[OF 2(1)]
    then show thesis
      using same_node_trans[OF one] put_record_at_le[of E s' net "lr_closest r" ?r]
      by (intro that[OF put _ _ 2(2)]) simp_all
  qed
qed

lemma mark_sel [simp]:
  "ps_lookup (ps_mark_announced_with_collateral s ck coin) ck' pid = ps_lookup s ck' pid"
  "ps_announced_collateral (ps_mark_announced_with_collateral s ck coin) ck' =
     (if ck' = ck then coin else ps_announced_collateral s ck')"
  "set (ps_local_announcements (ps_mark_announced_with_collateral s ck coin)) =
     insert ck (set (ps_local_announcements s))"
  by (simp_all add: ps_mark_announced_with_collateral_def ps_lookup_def ps_announced_collateral_def
      ps_local_announcements_def map_of_update dom_update image_set[symmetric] del: image_set)


text \<open>One key of a republish: a refresh of the node's record, when it has one.\<close>

lemma republish_key_cases:
  assumes "republish_key E s net t1 t2 hex = Some (n, s')" "canonical_hex hex"
  obtains target outcome store where "parse_key hex = Some target" "to_hex target = hex"
    "ps_put_at (authoritative s) (own_record E s target t1 (ps_announced_collateral (authoritative s) hex)) t2
       = (outcome, store)"
    "authoritative s' = store" "same_node s s'"
proof -
  from canonical_decode[OF assms(2)] obtain bs where bs: "hex64_to_bytes hex = Some bs" "to_hex bs = hex" .
  let ?r = "own_record E s bs t1 (ps_announced_collateral (authoritative s) hex)"
  obtain outcome store where put: "ps_put_at (authoritative s) ?r t2 = (outcome, store)" by fastforce
  have one: "same_node s (s\<lparr>authoritative := store\<rparr>)" by (simp add: same_node_def)
  from assms(1) bs put consider "s' = s\<lparr>authoritative := store\<rparr>"
    | r where "lookup_and_absorb E (s\<lparr>authoritative := store\<rparr>) net bs
        (seed_contacts E (s\<lparr>authoritative := store\<rparr>) bs) False = Some (r, s')"
    unfolding republish_key_def Let_def ps_put_def own_record_def
    by (auto simp: bind_eq_Some_conv key_from_bytes_def split: if_splits)
  then show thesis
  proof cases
    case 1
    with one bs show thesis by (intro that[OF _ _ put]) (simp_all add: parse_key_def key_from_bytes_def)
  next
    case (2 r)
    from lookup_and_absorb_same[OF 2] same_node_trans[OF one] bs show thesis
      by (intro that[OF _ _ put]) (simp_all add: parse_key_def key_from_bytes_def)
  qed
qed

lemma republish_keys_own:
  assumes "republish_keys E nets clock i hexes s = Some s'"
    "\<forall>hex\<in>set hexes. canonical_hex hex" "distinct hexes"
    "ps_lookup (authoritative s) hex (local_id_hex E s) = Some e"
  shows "same_node s s' \<and> announced (authoritative s') = announced (authoritative s)
    \<and> (if hex \<in> set hexes
       then \<exists>j target. parse_key hex = Some target
         \<and> ps_lookup (authoritative s') hex (local_id_hex E s) =
             Some (e\<lparr>pe_record := own_record E s target (clock (2 * j))
               (ps_announced_collateral (authoritative s) hex)\<rparr>)
       else ps_lookup (authoritative s') hex (local_id_hex E s) = Some e)"
  using assms
proof (induction hexes arbitrary: i s e)
  case Nil
  then show ?case by (simp add: same_node_def)
next
  case (Cons h hexes)
  then obtain n s1 where s1: "republish_key E s (nets i) (clock (2 * i)) (clock (2 * i + 1)) h = Some (n, s1)"
    "republish_keys E nets clock (Suc i) hexes s1 = Some s'"
    by (auto simp: bind_eq_Some_conv)
  from republish_key_cases[OF s1(1)] Cons.prems(2) obtain target outcome store where
    k: "parse_key h = Some target" "to_hex target = h"
    "ps_put_at (authoritative s) (own_record E s target (clock (2 * i))
       (ps_announced_collateral (authoritative s) h)) (clock (2 * i + 1)) = (outcome, store)"
    "authoritative s1 = store" "same_node s s1" by (metis list.set_intros(1))
  note same = same_node_own[OF k(5)]
  have ann: "announced (authoritative s1) = announced (authoritative s)"
    using put_at_announced[OF k(3)] k(4) by simp
  then have coin: "ps_announced_collateral (authoritative s1) ck = ps_announced_collateral (authoritative s) ck" for ck
    by (simp add: ps_announced_collateral_def)
  have tl: "\<forall>hex\<in>set hexes. canonical_hex hex" "distinct hexes" using Cons.prems(2,3) by simp_all
  show ?case
  proof (cases "h = hex")
    case True
    let ?r = "own_record E s target (clock (2 * i)) (ps_announced_collateral (authoritative s) hex)"
    have "ps_lookup (authoritative s1) hex (local_id_hex E s) = Some (e\<lparr>pe_record := ?r\<rparr>)"
      using put_refresh[OF _ k(3)] Cons.prems(4) k(2,4) True by simp
    from Cons.IH[OF s1(2) tl, unfolded same[THEN conjunct2], OF this] Cons.prems(3) True
      same_node_trans[OF k(5)] ann k(1)
    show ?thesis by auto
  next
    case False
    then have "ps_lookup (authoritative s1) hex (local_id_hex E s) = Some e"
      using put_other_lookup[OF k(3), of hex] k(2,4) Cons.prems(4) by simp
    from Cons.IH[OF s1(2) tl, unfolded same[THEN conjunct2], OF this] False
      same_node_trans[OF k(5)] ann coin
    show ?thesis unfolding same[THEN conjunct1] coin by auto
  qed
qed


subsection \<open>Refresh targets\<close>

lemma bucket_index_from_zeros:
  "b \<noteq> 0 \<Longrightarrow> bucket_index_from i (replicate n 0 @ b # bs) = Some (255 - ((i + n) * 8 + leading_zeros b))"
  by (induction n arbitrary: i) (simp_all add: Let_def)

lemma leading_zeros_bit:
  assumes "m < 8"
  shows "leading_zeros (push_bit m 1) = 7 - m \<and> push_bit m (1 :: u8) \<noteq> 0"
proof -
  have "m \<in> {0, 1, 2, 3, 4, 5, 6, 7}" using assms by auto
  then show ?thesis
    by (elim insertE emptyE) (simp_all add: leading_zeros_def bit_len.simps)
qed

lemma random_key_bucket:
  assumes "length (local_id s) = 32" "idx < 256"
  shows "returns (random_key_in_bucket s idx random)
    (\<lambda>key. bucket_for (rt_new (local_id s) k) key = Some idx \<and> wf_key key)"
proof -
  define bit where "bit = 255 - idx"
  define m where "m = 7 - bit mod 8"
  define byte where "byte = bit div 8"
  define dist where "dist = map (\<lambda>i. if i < byte then 0 else if i = byte then push_bit m (1 :: u8) else random i) [0..<32]"
  have b: "byte < 32" "m < 8" "byte * 8 + (7 - m) = bit" "bit \<le> 255" "255 - bit = idx"
    using assms(2) by (auto simp: byte_def m_def bit_def)
  let ?f = "\<lambda>i. if i < byte then 0 else if i = byte then push_bit m (1 :: u8) else random i"
  have "[0..<32] = [0..<byte] @ byte # [Suc byte..<32]"
    using b(1) upt_add_eq_append[of 0 byte "32 - byte"] by (simp add: upt_conv_Cons)
  moreover have split: "map ?f [0..<byte] = replicate byte 0" "map ?f [Suc byte..<32] = map random [Suc byte..<32]"
    by (rule nth_equalityI) (auto intro: map_cong)
  ultimately have "dist = replicate byte 0 @ push_bit m 1 # map random [Suc byte..<32]"
    using split by (simp add: dist_def)
  then have "bucket_index dist = Some idx"
    using bucket_index_from_zeros leading_zeros_bit[OF b(2)] b by (simp add: bucket_index_def)
  moreover have key: "random_key_in_bucket s idx random = Some (distance (local_id s) dist)"
    using assms(2) unfolding random_key_in_bucket_def Let_def distance_def dist_def byte_def m_def bit_def
    by (simp add: key_from_bytes_def)
  moreover have "distance (local_id s) (distance (local_id s) dist) = dist"
    by (rule distance_involutive) (simp add: wf_key_def dist_def)
  ultimately show ?thesis by (simp add: bucket_for_def rt_new_def key_from_peer_id_def)
qed

subsection \<open>Properties\<close>


text \<open>C26. What an announce leaves behind. It never fails and reports at most \<open>k\<close> acceptances. The key is
  on the republish list with exactly the pointer given, other keys' marks are as before. Unless the
  store was full and held no record of this node for the key, it now holds one: the node's capped
  addresses, that pointer, an expiry one TTL after the clock reading. The cache is not touched.\<close>

theorem announce_effect:
  assumes "store_ok (authoritative s)"
    "announce_provider_with_collateral E s net clock content coin = Some (res, s')"
    "ck = to_hex (content_to_key E content)"
  shows "(\<exists>n \<le> cfg_k (config s). res = Inr n) \<and> discovered s' = discovered s
    \<and> set (ps_local_announcements (authoritative s')) = insert ck (set (ps_local_announcements (authoritative s)))
    \<and> (\<forall>ck'. ps_announced_collateral (authoritative s') ck' =
         (if ck' = ck then map_option to_hex64 coin else ps_announced_collateral (authoritative s) ck'))
    \<and> ((ps_lookup (authoritative s) ck (local_id_hex E s) = None \<and>
          max_total_records (limits (authoritative s)) \<le> ps_len (authoritative s)) \<or>
       (\<exists>e. ps_lookup (authoritative s') ck (local_id_hex E s) = Some e
         \<and> pr_addresses (pe_record e) = sort_and_cap_addresses E (local_addresses s)
         \<and> unverified_mirror_coin_id (pe_record e) = map_option to_hex64 coin
         \<and> expires_at (pe_record e) = saturating_add (clock 0) (provider_ttl_secs (config s))))"
proof -
  let ?r = "own_record E s (content_to_key E content) (clock 0) (map_option to_hex64 coin)"
  from announce_cases[OF assms(2)] obtain outcome store n where a:
    "ps_put_at (authoritative s) ?r (clock 1) = (outcome, store)"
    "authoritative s' = ps_mark_announced_with_collateral store ck (map_option to_hex64 coin)"
    "same_node s s'" "res = Inr n" "n \<le> cfg_k (config s)"
    unfolding assms(3)[symmetric] by metis
  note ann = put_at_announced[OF a(1)]
  have marks: "ps_announced_collateral store ck' = ps_announced_collateral (authoritative s) ck'"
    "set (ps_local_announcements store) = set (ps_local_announcements (authoritative s))" for ck'
    by (simp_all add: ann ps_announced_collateral_def ps_local_announcements_def)
  have "\<exists>e. ps_lookup (authoritative s') ck (local_id_hex E s) = Some e \<and> pe_record e = ?r"
    if "\<not> (ps_lookup (authoritative s) ck (local_id_hex E s) = None \<and>
          max_total_records (limits (authoritative s)) \<le> ps_len (authoritative s))"
  proof -
    have "outcome = Accepted"
      using put_rejection[OF assms(1), of ?r "clock 1"] that assms(3) a(1) by (cases outcome) auto
    with put_at_accepted_lookup[of "authoritative s" ?r "clock 1" store] a(1,2) assms(3) show ?thesis by simp
  qed
  then have stored: "(ps_lookup (authoritative s) ck (local_id_hex E s) = None \<and>
          max_total_records (limits (authoritative s)) \<le> ps_len (authoritative s)) \<or>
       (\<exists>e. ps_lookup (authoritative s') ck (local_id_hex E s) = Some e
         \<and> pr_addresses (pe_record e) = sort_and_cap_addresses E (local_addresses s)
         \<and> unverified_mirror_coin_id (pe_record e) = map_option to_hex64 coin
         \<and> expires_at (pe_record e) = saturating_add (clock 0) (provider_ttl_secs (config s)))"
    by fastforce
  have "discovered s' = discovered s" using a(3) by (simp add: same_node_def)
  with stored a(4,5) show ?thesis by (intro conjI) (simp_all add: a(2) marks)
qed

theorem announce_effect_witness:
  "\<exists>e s'. announce_provider_with_collateral sample_externs sample_service empty_network (\<lambda>_. 100)
        (Store (replicate 32 1)) None = Some (Inr 0, s')
     \<and> ps_lookup (authoritative s') (to_hex (content_to_key sample_externs (Store (replicate 32 1))))
          (local_id_hex sample_externs sample_service) = Some e
     \<and> expires_at (pe_record e) = 7300"
proof -
  have run: "\<exists>s'. announce_provider_with_collateral sample_externs sample_service empty_network (\<lambda>_. 100)
        (Store (replicate 32 1)) None = Some (Inr 0, s')"
    by (simp add: announce_provider_unfold Let_def seed_contacts_def rt_closest_def
        keyed_contacts_def map_filter_simps del: upt_rec_numeral)
  then obtain s' where s': "announce_provider_with_collateral sample_externs sample_service empty_network
      (\<lambda>_. 100) (Store (replicate 32 1)) None = Some (Inr 0, s')" by blast
  have ok: "store_ok (authoritative sample_service)" by simp
  have room: "\<not> max_total_records (limits (authoritative sample_service)) \<le> ps_len (authoritative sample_service)"
    by (simp add: default_limits_def ps_len_def del: upt_rec_numeral)
  have ttl: "saturating_add 100 (provider_ttl_secs (config sample_service)) = 7300"
    by (simp add: saturating_add_def config_defs)
  from announce_effect[OF ok s' refl] room s' ttl show ?thesis by metis
qed

text \<open>A node that holds one content, for the witnesses.\<close>

definition held_content :: content_id where
  "held_content = Store (replicate 32 1)"

definition held_key :: string where
  "held_key = to_hex (content_to_key sample_externs held_content)"

definition holder_service :: dht_service where
  "holder_service = sample_service\<lparr>authoritative := ps_mark_announced_with_collateral
     (snd (ps_put_at (authoritative sample_service)
        (own_record sample_externs sample_service (content_to_key sample_externs held_content) 0 None) 0))
     held_key None\<rparr>"

lemma holder_service_inv: "svc_inv sample_externs hi holder_service"
proof -
  have "svc_step sample_externs hi sample_service holder_service"
    unfolding holder_service_def held_key_def
    using wf_content_to_key[OF sample_externs_ok, of held_content]
    by (intro svc_step.announce_section) (simp_all add: canonical_coin_def)
  with svc_step_inv sample_externs_ok sample_service_inv show ?thesis by blast
qed

lemma holder_service_facts:
  "ps_lookup (authoritative holder_service) held_key (local_id_hex sample_externs holder_service) =
     Some \<lparr>pe_record = own_record sample_externs sample_service (content_to_key sample_externs held_content) 0 None,
           admitted_seq = 0\<rparr>"
  "ps_local_announcements (authoritative holder_service) = [held_key]"
  "config holder_service = default_config" "routing holder_service = rt_new (replicate 32 0) 20"
  "local_id_hex sample_externs holder_service = local_id_hex sample_externs sample_service"
proof -
  let ?r = "own_record sample_externs sample_service (content_to_key sample_externs held_content) 0 None"
  have "\<not> max_total_records (limits (authoritative sample_service)) \<le> ps_len (authoritative sample_service)"
    by (simp add: default_limits_def ps_len_def del: upt_rec_numeral)
  then have put: "ps_put_at (authoritative sample_service) ?r 0 = (Accepted, ps_admit (authoritative sample_service) ?r)"
    by (simp add: ps_put_at_def del: upt_rec_numeral)
  show id: "local_id_hex sample_externs holder_service = local_id_hex sample_externs sample_service"
    by (simp add: holder_service_def local_id_hex_def del: upt_rec_numeral)
  show "ps_lookup (authoritative holder_service) held_key (local_id_hex sample_externs holder_service) =
     Some \<lparr>pe_record = ?r, admitted_seq = 0\<rparr>"
    unfolding id by (simp add: holder_service_def put admit_lookup held_key_def del: sample_service_sel)
      (simp del: upt_rec_numeral)
  show "ps_local_announcements (authoritative holder_service) = [held_key]"
    by (simp add: holder_service_def put ps_local_announcements_def ps_mark_announced_with_collateral_def
        del: sample_service_sel) (simp add: ps_with_limits_def del: upt_rec_numeral)
qed (simp_all add: holder_service_def del: upt_rec_numeral)

text \<open>C27. Republishing keeps a holder findable. Every key on the list whose record this node still holds
  (live or expired) ends with a fresh record: the node's current addresses, the pointer the key was
  announced with and no other key's, an expiry one TTL after a clock reading of this pass; its
  admission ordinal, hence its establishment, is kept. The list itself is unchanged, and the number
  reported is its length.\<close>

theorem republish_refreshes:
  assumes "svc_inv E hi s" "republish E s nets clock = Some (n, s')"
    "hex \<in> set (ps_local_announcements (authoritative s))"
    "ps_lookup (authoritative s) hex (local_id_hex E s) = Some e"
  shows "n = length (ps_local_announcements (authoritative s))
    \<and> announced (authoritative s') = announced (authoritative s)
    \<and> (\<exists>j e'. ps_lookup (authoritative s') hex (local_id_hex E s) = Some e'
         \<and> admitted_seq e' = admitted_seq e
         \<and> pr_addresses (pe_record e') = sort_and_cap_addresses E (local_addresses s)
         \<and> unverified_mirror_coin_id (pe_record e') = ps_announced_collateral (authoritative s) hex
         \<and> expires_at (pe_record e') = saturating_add (clock (2 * j)) (provider_ttl_secs (config s)))"
proof -
  have keys: "\<forall>h\<in>set (ps_local_announcements (authoritative s)). canonical_hex h"
    "distinct (ps_local_announcements (authoritative s))"
    using assms(1) by (auto simp: svc_inv_def authoritative_inv_def ps_local_announcements_def
        store_inv_def store_ok_def)
  from assms(2) have run: "republish_keys E nets clock 0 (ps_local_announcements (authoritative s)) s = Some s'"
    and n: "n = length (ps_local_announcements (authoritative s))"
    by (auto simp: republish_def Let_def bind_eq_Some_conv)
  from republish_keys_own[OF run keys assms(4)] assms(3) n show ?thesis by fastforce
qed

theorem republish_refreshes_witness:
  "\<exists>s' e'. republish sample_externs holder_service (\<lambda>_. empty_network) (\<lambda>_. 3600) = Some (1, s')
     \<and> ps_lookup (authoritative s') held_key (local_id_hex sample_externs holder_service) = Some e'
     \<and> expires_at (pe_record e') = 10800"
proof -
  have "canonical_hex held_key"
    unfolding held_key_def using wf_content_to_key[OF sample_externs_ok, of held_content]
    by (intro canonical_to_hex) (simp add: wf_key_def)
  then obtain bs where bs: "hex64_to_bytes held_key = Some bs" by (rule canonical_decode)
  have none: "rt_closest sample_externs (rt_new (replicate 32 0) 20) target = []" for target
    by (simp add: rt_closest_def keyed_contacts_def map_filter_simps del: upt_rec_numeral)
  then have "\<exists>s'. republish sample_externs holder_service (\<lambda>_. empty_network) (\<lambda>_. 3600) = Some (1, s')"
    by (simp add: republish_def Let_def holder_service_facts republish_key_def bs seed_contacts_def
        del: upt_rec_numeral)
  then obtain s' where run: "republish sample_externs holder_service (\<lambda>_. empty_network) (\<lambda>_. 3600) = Some (1, s')"
    by blast
  have listed: "held_key \<in> set (ps_local_announcements (authoritative holder_service))"
    by (simp add: holder_service_facts)
  have ttl: "saturating_add 3600 (provider_ttl_secs (config holder_service)) = 10800"
    by (simp add: holder_service_facts saturating_add_def config_defs)
  from republish_refreshes[OF holder_service_inv run listed holder_service_facts(1)] run ttl
  show ?thesis by metis
qed

text \<open>C28. Retracting withdraws this node and nobody else. Afterwards the store has no record of this node
  for the content and the key is off the republish list; every other provider, every other key and
  every other mark is untouched; and the answer says whether there was a record or a mark to remove.\<close>

theorem retract_exact:
  assumes "store_ok (authoritative s)" "retract_own_provider E s content = (was, s')"
    "ck = to_hex (content_to_key E content)"
  shows "(was \<longleftrightarrow> ps_lookup (authoritative s) ck (local_id_hex E s) \<noteq> None
            \<or> ck \<in> set (ps_local_announcements (authoritative s)))
    \<and> (\<forall>ck' pid. ps_lookup (authoritative s') ck' pid =
         (if ck' = ck \<and> pid = local_id_hex E s then None else ps_lookup (authoritative s) ck' pid))
    \<and> set (ps_local_announcements (authoritative s')) = set (ps_local_announcements (authoritative s)) - {ck}
    \<and> (\<forall>ck'. ck' \<noteq> ck \<longrightarrow> ps_announced_collateral (authoritative s') ck' = ps_announced_collateral (authoritative s) ck')
    \<and> routing s' = routing s \<and> discovered s' = discovered s"
proof -
  obtain removed store where rem: "ps_remove (authoritative s) ck (local_id_hex E s) = (removed, store)" by fastforce
  note eff = remove_effect[OF assms(1) rem]
  have s': "s' = s\<lparr>authoritative := snd (ps_unmark_announced store ck)\<rparr>"
    and was: "was = (removed \<or> map_of (announced store) ck \<noteq> None)"
    using assms(2) unfolding assms(3)[symmetric] retract_own_provider_def Let_def
    by (simp_all add: rem assms(3)[symmetric] ps_unmark_announced_def)
  have "map_of (announced (authoritative s)) ck \<noteq> None \<longleftrightarrow> ck \<in> set (ps_local_announcements (authoritative s))"
    by (simp add: map_of_eq_None_iff ps_local_announcements_def)
  moreover have "ps_lookup (store\<lparr>announced := a\<rparr>) = ps_lookup store" for a
    by (intro ext) (simp add: ps_lookup_def)
  ultimately show ?thesis
    using eff by (simp add: s' was ps_unmark_announced_def ps_local_announcements_def
        ps_announced_collateral_def delete_keys map_of_delete)
qed

theorem retract_exact_witness:
  "let (was, s') = retract_own_provider sample_externs holder_service held_content
   in was \<and> ps_lookup (authoritative s') held_key (local_id_hex sample_externs holder_service) = None"
proof -
  have ok: "store_ok (authoritative holder_service)"
    using holder_service_inv by (simp add: svc_inv_def authoritative_inv_def store_inv_def)
  obtain was s' where r: "retract_own_provider sample_externs holder_service held_content = (was, s')" by fastforce
  from retract_exact[OF ok r held_key_def] r holder_service_facts show ?thesis by simp
qed

text \<open>A bucket refresh looks up a key of the bucket it refreshes: whatever the random bytes, the
  target drawn for bucket \<open>idx\<close> is a 32-byte key that the node's own table files under \<open>idx\<close>.\<close>

theorem random_key_lands_in_bucket:
  assumes "length (local_id s) = 32" "idx < 256"
  shows "\<exists>key. random_key_in_bucket s idx random = Some key \<and> wf_key key
    \<and> bucket_for (rt_new (local_id s) k) key = Some idx"
  using random_key_bucket[OF assms] by (auto simp: returns_def)

theorem random_key_lands_in_bucket_witness:
  "\<exists>key. random_key_in_bucket sample_service 9 (\<lambda>_. 255) = Some key
     \<and> bucket_for (rt_new (replicate 32 0) 20) key = Some 9"
  using random_key_lands_in_bucket[of sample_service 9 "\<lambda>_. 255" 20] by auto

subsection \<open>What a request teaches\<close>

text \<open>What a request can teach the routing table: the caller, and the provider of an announced record.\<close>

lemma learn_caller_ids:
  assumes "externs_ok E" "rt_wf E (routing s)" "learn_caller E s (Some c) = Some s1"
  shows "rt_ids (routing s) \<subseteq> rt_ids (routing s1) \<and> rt_ids (routing s1) \<subseteq> insert (ct_peer_id c) (rt_ids (routing s))
    \<and> rt_wf E (routing s1)"
proof -
  consider "s1 = s" | o' t where "rt_insert E (routing s) (cap_contact E c) = Some (o', t)" "s1 = s\<lparr>routing := t\<rparr>"
  proof (cases "ct_peer_id c = local_id_hex E s")
    case True
    with assms(3) show ?thesis by (intro that(1)) (simp add: learn_caller_def)
  next
    case False
    with assms(3) show ?thesis by (auto simp: learn_caller_def bind_eq_Some_conv intro: that(2))
  qed
  then show ?thesis
  proof cases
    case 1
    with assms(2) show ?thesis by blast
  next
    case 2
    from rt_insert_ids[OF assms(1,2) 2(1)] rt_insert_wf[OF assms(1,2) 2(1)] 2(2) show ?thesis
      by (simp add: cap_contact_def subset_insertI)
  qed
qed

lemma admit_ids:
  assumes "externs_ok E" "rt_wf E (routing s)" "admit_verified_record E s now r = Some (outcome, s')"
  shows "rt_ids (routing s) \<subseteq> rt_ids (routing s') \<and>
    rt_ids (routing s') \<subseteq> rt_ids (routing s) \<union> pid_to_hex E ` set_option (record_peer_id E r)"
proof -
  consider "routing s' = routing s" | p o' addrs where "record_peer_id E r = Some p"
      "rt_insert E (routing s) (contact_new E p addrs) = Some (o', routing s')"
    using assms(3) unfolding admit_eq
    by (auto simp: Let_def record_peer_id_def sanitized_def bind_eq_Some_conv split: if_splits option.splits prod.splits)
  then show ?thesis
  proof cases
    case 2
    from rt_insert_ids[OF assms(1,2) 2(2)] 2(1) show ?thesis by (auto simp: contact_new_def)
  qed auto
qed

lemma handle_request_ids:
  assumes "externs_ok E" "rt_wf E (routing s)" "handle_request_from E s (Some c) req now = Some (resp, s')"
  shows "rt_ids (routing s) \<subseteq> rt_ids (routing s')
    \<and> rt_ids (routing s') \<subseteq> insert (ct_peer_id c) (rt_ids (routing s))
       \<union> (case req of AddProvider r \<Rightarrow> pid_to_hex E ` set_option (record_peer_id E r) | _ \<Rightarrow> {})"
proof -
  from assms(3) obtain s1 where s1: "learn_caller E s (Some c) = Some s1"
    "answer_request E s1 (Some (ct_peer_id c)) req now = Some (resp, s')"
    by (auto simp: handle_request_from_def bind_eq_Some_conv)
  note learn = learn_caller_ids[OF assms(1,2) s1(1)]
  have "rt_ids (routing s1) \<subseteq> rt_ids (routing s') \<and> rt_ids (routing s') \<subseteq> rt_ids (routing s1)
       \<union> (case req of AddProvider r \<Rightarrow> pid_to_hex E ` set_option (record_peer_id E r) | _ \<Rightarrow> {})"
  proof (cases req)
    case (AddProvider r)
    from s1(2) consider "s' = s1" | outcome where "admit_verified_record E s1 now r = Some (outcome, s')"
      unfolding AddProvider by (auto simp: bind_eq_Some_conv split: if_splits)
    then show ?thesis
    proof cases
      case 1
      then show ?thesis by simp
    next
      case (2 outcome)
      from learn have "rt_wf E (routing s1)" by blast
      from admit_ids[OF assms(1) this 2] show ?thesis by (simp add: AddProvider)
    qed
  qed (use s1(2) in auto)
  with learn show ?thesis by blast
qed

text \<open>C5. A request teaches the routing table nobody but its caller and, when it announces a record, that
  record's provider; and it makes the table forget nobody.\<close>

theorem request_teaches_only_participants:
  assumes "externs_ok E" "rt_wf E (routing s)" "handle_request_from E s (Some c) req now = Some (resp, s')"
  shows "rt_ids (routing s) \<subseteq> rt_ids (routing s')
    \<and> rt_ids (routing s') \<subseteq> insert (ct_peer_id c) (rt_ids (routing s))
       \<union> (case req of AddProvider r \<Rightarrow> pid_to_hex E ` set_option (record_peer_id E r) | _ \<Rightarrow> {})"
  using assms by (rule handle_request_ids)

end
