(* ===== verification/Lookup_Convergence.thy ===== *)
theory Lookup_Convergence
  imports Lookup_Facts
begin

text \<open>
  What a lookup of \<^verbatim>\<open>src/lookup.rs\<close> is sure to ask: the first round asks the nearest seeds and keeps
  their answers.
\<close>

subsection \<open>The first round of a lookup\<close>

definition fresh_entry :: "externs \<Rightarrow> key \<Rightarrow> contact \<Rightarrow> shortlist_entry" where
  "fresh_entry E target c = \<lparr>sl_contact = c, sl_distance = contact_distance E target c,
     sl_queried = False, sl_failed = False\<rparr>"

lemma fresh_entry_sel [simp]:
  "sl_contact (fresh_entry E target c) = c" "sl_distance (fresh_entry E target c) = contact_distance E target c"
  "\<not> sl_queried (fresh_entry E target c)" "\<not> sl_failed (fresh_entry E target c)"
  by (simp_all add: fresh_entry_def)

lemma merge_seeds:
  "\<forall>c\<in>set cs. contact_key E c \<noteq> None \<Longrightarrow> distinct (map ct_peer_id cs) \<Longrightarrow> ct_peer_id ` set cs \<inter> seen = {} \<Longrightarrow>
   fold (merge_contact E target) cs (sl, seen) = (sl @ map (fresh_entry E target) cs, ct_peer_id ` set cs \<union> seen)"
proof (induction cs arbitrary: sl seen)
  case (Cons c cs)
  from Cons.prems(1,3) have "merge_contact E target c (sl, seen) = (sl @ [fresh_entry E target c], insert (ct_peer_id c) seen)"
    by (auto simp: merge_contact_def fresh_entry_def contact_distance_def)
  moreover have "ct_peer_id ` set cs \<inter> insert (ct_peer_id c) seen = {}" using Cons.prems(2,3) by auto
  ultimately show ?case using Cons.prems(1,2)
      Cons.IH[of "insert (ct_peer_id c) seen" "sl @ [fresh_entry E target c]"] by simp
qed simp

lemma lookup_loop_answers:
  "lookup_loop E env target k al stop n st = Some st' \<Longrightarrow> set (ls_answers st) \<subseteq> set (ls_answers st')"
proof (induction n arbitrary: st)
  case (Suc n)
  then show ?case
    by (fastforce simp: Let_def bind_eq_Some_conv split: if_splits)
qed simp

lemma join_results_mem:
  assumes "env_ok env" "c \<in> set batch" "le_query env r c = Joined x"
  shows "(c, x) \<in> set (join_results env r batch)"
proof -
  have "c \<in> set (le_order env r batch)"
    using assms(1,2) by (metis env_ok_def mset_eq_setD)
  with assms(3) show ?thesis
    by (auto simp: join_results_def map_filter_def image_iff intro!: bexI[of _ c])
qed

lemma lookup_loop_asks:
  assumes "env_ok env" "lookup_loop E env target k al stop (Suc n) st = Some st'"
    "c \<in> set (next_batch al (ls_shortlist st))" "le_query env (ls_rounds st) c = Joined x"
  shows "(c, x) \<in> set (ls_answers st')"
proof -
  define batch where "batch = next_batch al (ls_shortlist st)"
  define st1 where "st1 = fold (fold_answer E target k) (join_results env (ls_rounds st) batch)
    (st\<lparr>ls_asked := ls_asked st @ batch, ls_rounds := ls_rounds st + 1\<rparr>)"
  have mem: "(c, x) \<in> set (ls_answers (st1\<lparr>ls_shortlist := l\<rparr>))" for l
    using join_results_mem[OF assms(1,3,4)] by (simp add: st1_def batch_def)
  have "batch \<noteq> []" using assms(3) by (auto simp: batch_def)
  with assms(2) obtain l where "st1\<lparr>ls_shortlist := l\<rparr> = st'
      \<or> lookup_loop E env target k al stop n (st1\<lparr>ls_shortlist := l\<rparr>) = Some st'"
    unfolding lookup_loop.simps Let_def batch_def[symmetric] st1_def[symmetric]
    by (auto simp: bind_eq_Some_conv split: if_splits)
  with mem[of l] lookup_loop_answers[of E env target k al stop n "st1\<lparr>ls_shortlist := l\<rparr>" st'] show ?thesis
    by auto
qed

lemma first_round_answers:
  assumes "env_ok env" "iterative_find E env target seeds k al stop = Some (res, st)"
    "\<forall>c\<in>set seeds. contact_key E c \<noteq> None" "distinct (map ct_peer_id seeds)"
    "sorted (map (contact_distance E target) seeds)" "length seeds \<le> k"
    "c \<in> set (take al seeds)" "le_query env 0 c = Joined x"
  shows "(c, x) \<in> set (ls_answers st)"
proof -
  let ?sl = "map (fresh_entry E target) seeds"
  from assms(2) obtain st0 where st0: "lookup_start E target seeds k al = Some st0"
    "lookup_loop E env target k al stop 64 st0 = Some st"
    by (auto simp: iterative_find_def MAX_LOOKUP_ROUNDS_def bind_eq_Some_conv)
  then obtain cap where cap: "shortlist_cap k al = Some cap"
    by (cases "shortlist_cap k al") (auto simp: lookup_start_def sort_and_cap_def Let_def)
  have "length seeds \<le> cap" using shortlist_cap_Some[OF cap] assms(6) by simp
  moreover have "sort_key sl_distance ?sl = ?sl" using assms(5) by (intro sort_key_id_if_sorted) (simp add: comp_def)
  ultimately have sl: "ls_shortlist st0 = ?sl" "ls_rounds st0 = 0"
    using st0(1) merge_seeds[OF assms(3,4), of "{}" target "[]"]
    by (auto simp: lookup_start_def sort_and_cap_take[OF cap])
  have batch: "next_batch al ?sl = take al seeds" by (simp add: next_batch_def filter_True take_map comp_def)
  have "(64 :: nat) = Suc 63" by simp
  with st0(2) have run: "lookup_loop E env target k al stop (Suc 63) st0 = Some st" by metis
  show ?thesis
    by (rule lookup_loop_asks[OF assms(1) run]) (simp_all add: sl batch assms(7,8))
qed

end
