(* ===== verification/Service_Composition.thy ===== *)
theory Service_Composition
  imports Service_Contracts Lookup_Convergence
begin

text \<open>
  Properties that need two nodes or two components: what one node announces another serves, and what
  a search through the routing table, the lookup and the peers' answers is sure to find.
\<close>

subsection \<open>Announce and query through a third node\<close>


lemma add_provider_stored:
  assumes "handle_request_from E s caller (AddProvider r) now = Some (AddProviderOk, s')"
  shows "\<exists>e. ps_lookup (authoritative s') (content_key r) (provider_peer_id r) = Some e
    \<and> pe_record e = sanitized E r (saturating_add now (provider_ttl_secs (config s)))"
proof -
  from assms obtain s1 where s1: "learn_caller E s caller = Some s1"
    "answer_request E s1 (map_option ct_peer_id caller) (AddProvider r) now = Some (AddProviderOk, s')"
    by (auto simp: handle_request_from_def bind_eq_Some_conv)
  from s1(2) obtain outcome where admit: "admit_verified_record E s1 now r = Some (outcome, s')"
    and "AddProviderOk = (case outcome of Accepted \<Rightarrow> AddProviderOk
        | RejectedOverCapacity \<Rightarrow> ErrorResponse 3 ''provider store over capacity'')"
    by (auto simp: bind_eq_Some_conv split: if_splits)
  then have "outcome = Accepted" by (cases outcome) simp_all
  with admit_stores[OF admit] learn_frame_stores[OF s1(1)] show ?thesis by simp
qed










lemma add_provider_room:
  assumes "ready E s" "caller = Some c" "ct_peer_id c = provider_peer_id r" "store_ok (authoritative s)"
    "ps_len (authoritative s) < max_total_records (limits (authoritative s))"
  shows "\<exists>s'. handle_request_from E s caller (AddProvider r) now = Some (AddProviderOk, s')"
proof -
  from learn_caller_returns[OF assms(1), of caller] obtain s1 where
    s1: "learn_caller E s caller = Some s1" "ready E s1" by (auto simp: returns_def)
  from admit_returns[OF s1(2), of now r] obtain outcome s' where
    admit: "admit_verified_record E s1 now r = Some (outcome, s')" by (auto simp: returns_def)
  from admit_cases[OF admit] obtain store where
    put: "ps_put_at (authoritative s1) (sanitized E r (saturating_add now (provider_ttl_secs (config s1)))) now
      = (outcome, store)" .
  have "authoritative s1 = authoritative s" using learn_frame_stores[OF s1(1)] by simp
  then have "outcome = Accepted"
    using put_rejection[OF assms(4), of "sanitized E r (saturating_add now (provider_ttl_secs (config s1)))" now]
      put assms(5) by (cases outcome) simp_all
  with s1(1) admit assms(2,3) show ?thesis by (simp add: handle_request_from_def)
qed


text \<open>A holder announces, a rival announces for the same key, the node sweeps, and somebody asks.\<close>

definition sample_announcer :: dht_service where
  "sample_announcer = service_new (replicate 32 1) [candidate_direct ''192.0.2.7'' 9444] default_config"




lemma steps_reachable: "steps E hi s s' \<Longrightarrow> reachable E hi s \<Longrightarrow> reachable E hi s'"
  by (induction rule: rtranclp_induct) (auto intro: reach_step)

text \<open>A node accepts a record that claims to last for ever and carries a pointer that is no hex string.\<close>

definition hostile_record :: provider_record where
  "hostile_record = sample_record (to_hex (content_to_key sample_externs held_content))
     (local_id_hex sample_externs sample_announcer) (-1)\<lparr>unverified_mirror_coin_id := Some ''zz''\<rparr>"

theorem reachable_states_bounded_witness:
  "\<exists>s r. reachable sample_externs 0 s \<and> expires_at hostile_record = -1
     \<and> r \<in> set (ps_get (authoritative s) (content_key hostile_record) 0)
     \<and> provider_peer_id r = provider_peer_id hostile_record
     \<and> bounded_record (saturating_add 0 (provider_ttl_secs default_config)) r
     \<and> (\<forall>p\<in>set (by_key (authoritative s)). length (snd p) \<le> 20)"
proof -
  have sane: "config_sane default_config" by (simp add: config_sane_def default_config_def del: upt_rec_numeral)
  then have ready: "ready sample_externs sample_service"
    using ready_inv[OF sample_externs_ok sample_service_inv] by simp
  have "store_ok (authoritative sample_service)"
    "ps_len (authoritative sample_service) < max_total_records (limits (authoritative sample_service))"
    by (simp_all add: default_limits_def ps_len_def del: upt_rec_numeral)
  from add_provider_room[OF ready refl _ this, of "local_contact sample_externs sample_announcer" hostile_record 0]
  obtain s where s: "handle_request_from sample_externs sample_service
      (Some (local_contact sample_externs sample_announcer)) (AddProvider hostile_record) 0 = Some (AddProviderOk, s)"
    by (auto simp: local_contact_def contact_new_def local_id_hex_def hostile_record_def)
  note run = handle_request_steps[OF s order_refl]
  have reach: "reachable sample_externs 0 s" using run sample_service_reachable by (rule steps_reachable)
  have cfg: "config s = default_config" using svc_steps_frame[OF run] by simp
  let ?c = "saturating_add 0 (provider_ttl_secs default_config)"
  from add_provider_stored[OF s] obtain e where e:
    "ps_lookup (authoritative s) (content_key hostile_record) (provider_peer_id hostile_record) = Some e"
    "pe_record e = sanitized sample_externs hostile_record ?c" by auto
  have "(0 :: u64) < ?c" by (simp add: saturating_add_def config_defs default_config_def)
  then have "\<not> is_expired (pe_record e) 0"
    by (simp add: e(2) is_expired_def sanitized_def hostile_record_def not_le)
  moreover have "store_ok (authoritative s)"
    using svc_steps_inv[OF run sample_externs_ok sample_service_inv]
    by (simp add: svc_inv_def authoritative_inv_def store_inv_def)
  ultimately have mem: "pe_record e \<in> set (ps_get (authoritative s) (content_key hostile_record) 0)"
    using get_mem e(1) by metis
  have lim: "max_providers_per_key (provider_store_limits default_config) = 20"
    by (simp add: config_defs default_limits_def)
  have sel: "provider_peer_id (pe_record e) = provider_peer_id hostile_record" "expires_at hostile_record = -1"
    by (simp_all add: e(2) sanitized_def hostile_record_def)
  have "(\<forall>p\<in>set (by_key (authoritative s)). length (snd p) \<le> 20) \<and> bounded_record ?c (pe_record e)"
    using reachable_states_bounded[OF sample_externs_ok reach, unfolded cfg lim] mem by simp
  with reach sel mem show ?thesis by blast
qed

subsection \<open>Searching\<close>

lemma told_provider_source:
  assumes "network_ok net" "run_lookup E s net target seeds stop = Some (res, st)"
    "p \<in> set (told_providers (cfg_k (config s)) (ls_answers st))"
  obtains i c ps closer where
    "net_rpc net i (local_contact E s) c (FindProviders (to_hex target)) = Inr (Providers ps closer)"
    "p \<in> set ps" "content_key p = to_hex target"
proof -
  let ?env = "lookup_env_of E s net target"
  note sound = lookup_sound_facts[OF lookup_env_ok[OF assms(1)] assms(2)[unfolded run_lookup_def]]
  obtain a q where a: "a \<in> set (ls_answers st)" "snd a = Some q" "p \<in> set (qo_providers q)"
    using assms(3) by (auto simp: told_providers_def split: option.splits dest!: in_set_takeD)
  with sound obtain i where "le_query ?env i (fst a) = Joined (Some q)"
    by (metis answers_real_def)
  then have "query_outcome_of (to_hex target)
      (net_rpc net i (local_contact E s) (fst a) (FindProviders (to_hex target))) = Some q"
    by (auto simp: lookup_env_of_def split: if_splits)
  with a(3) show thesis
    by (auto simp: query_outcome_of_def split: sum.splits dht_response.splits intro: that)
qed

lemma seed_contacts_facts:
  assumes "ready E s"
  shows "\<forall>c\<in>set (seed_contacts E s target). contact_key E c \<noteq> None"
    "distinct (map ct_peer_id (seed_contacts E s target))"
    "sorted (map (contact_distance E target) (seed_contacts E s target))"
    "length (seed_contacts E s target) \<le> cfg_k (config s)"
proof -
  have r: "externs_ok E" "rt_wf E (routing s)" "rt_k (routing s) = cfg_k (config s)"
    using assms by (simp_all add: ready_def)
  note f = rt_closest_facts[OF r(1,2), of target]
  show "\<forall>c\<in>set (seed_contacts E s target). contact_key E c \<noteq> None"
    using f rt_contacts_routable[OF r(1,2)]
    by (fastforce simp: seed_contacts_def routable_def split: option.splits)
  show "distinct (map ct_peer_id (seed_contacts E s target))"
    "sorted (map (contact_distance E target) (seed_contacts E s target))"
    "length (seed_contacts E s target) \<le> cfg_k (config s)"
    using f by (simp_all add: seed_contacts_def r(3))
qed

lemma normalize_discovered_sel [simp]:
  "is_expired (normalize_discovered E r) t = is_expired r t"
  "provider_peer_id (normalize_discovered E r) = provider_peer_id r"
  by (simp_all add: normalize_discovered_def is_expired_def Let_def)

text \<open>C11. A search finds a holder its first peers know. Suppose the discovery cache holds no live record for
  the key, and every round of the walk joins each task it spawned once, in whatever order. If one
  of the \<open>alpha\<close> nearest contacts this node would ask first answers with a record of a provider for
  the key, among the records the per-response ceiling lets through, then the search walks, returns
  without an error, and its answer names that provider; unless some answer carries an expired record
  of that very provider, which may be the one collected first.\<close>

theorem search_finds_known_holder:
  assumes "ready E s" "network_ok net" "ck = to_hex (content_to_key E content)"
    "ps_get (discovered s) ck (clock 0) = []"
    "peer \<in> set (take (alpha (config s)) (seed_contacts E s (content_to_key E content)))"
    "\<not> net_task_fails net 0 peer"
    "net_rpc net 0 (local_contact E s) peer (FindProviders ck) = Inr (Providers ps closer)"
    "r \<in> set (take (max_providers_per_response (cfg_k (config s))) (filter (\<lambda>r. content_key r = ck) ps))"
    "\<And>i c ps closer q. net_rpc net i (local_contact E s) c (FindProviders ck) = Inr (Providers ps closer) \<Longrightarrow>
       q \<in> set ps \<Longrightarrow> provider_peer_id q = provider_peer_id r \<Longrightarrow> \<not> is_expired q (clock 2)"
  shows "\<exists>rs s'. find_providers E s net clock content = Some (Inr rs, s')
    \<and> provider_peer_id r \<in> provider_peer_id ` set rs"
proof -
  let ?key = "content_to_key E content" and ?k = "cfg_k (config s)"
  let ?seeds = "seed_contacts E s ?key" and ?env = "lookup_env_of E s net ?key"
  from find_providers_returns[OF assms(1,2), of clock content] obtain res s' where
    run: "find_providers E s net clock content = Some (res, s')" by (auto simp: returns_def)
  from run show ?thesis
  proof (cases rule: find_providers_cases)
    case cached
    with assms(3,4) show ?thesis by simp
  next
    case nobody
    with assms(5) show ?thesis by simp
  next
    case (walked result st s1)
    let ?q = "\<lparr>qo_closer = closer, qo_providers = filter (\<lambda>r. content_key r = ck) ps\<rparr>"
    have "le_query ?env 0 peer = Joined (Some ?q)"
      using assms(6,7) unfolding assms(3) by (simp add: lookup_env_of_def query_outcome_of_def)
    from first_round_answers[OF lookup_env_ok[OF assms(2)] walked(2)[unfolded run_lookup_def]
        seed_contacts_facts[OF assms(1)] assms(5) this]
    have "(peer, Some ?q) \<in> set (ls_answers st)" .
    with assms(8) have "r \<in> set (told_providers ?k (ls_answers st))"
      by (force simp: told_providers_def)
    then obtain p where p: "p \<in> set (lr_providers result)" "provider_peer_id p = provider_peer_id r"
      "p \<in> set (told_providers ?k (ls_answers st))"
      using lookup_sound_facts[OF lookup_env_ok[OF assms(2)] walked(2)[unfolded run_lookup_def]]
      by (metis (no_types, lifting) image_iff subsetD)
    from told_provider_source[OF assms(2) walked(2) p(3)] assms(9)[OF _ _ p(2)]
    have "\<not> is_expired p (clock 2)" unfolding assms(3) by metis
    then have "provider_peer_id r \<in> provider_peer_id ` {q \<in> set (ps_get (authoritative s) (to_hex ?key) (clock 0)) \<union>
        set (map (normalize_discovered E) (lr_providers result)). \<not> is_expired q (clock 2)}"
      using p(1,2) by (intro image_eqI[of _ _ "normalize_discovered E p"]) simp_all
    with run walked(5) show ?thesis by (simp add: merge_facts(3))
  qed
qed


text \<open>A node that knows one peer, for the witness.\<close>

lemma rt_insert_first:
  assumes "externs_ok E" "rt_wf E t" "0 < rt_k t" "rt_contacts t = []" "routable E t c"
  obtains t' where "rt_insert E t c = Some (Inserted, t')" "rt_closest E t' target = [c]"
proof -
  from rt_insert_total[OF assms(1-3), of c] obtain outcome t' where
    ins: "rt_insert E t c = Some (outcome, t')" by blast
  have "outcome = Inserted"
    using assms(1,2)
  proof (cases rule: rt_insert_cases[where c = c])
    case (offered i)
    then have "i < length (rt_buckets t)" using assms(2) by (simp add: rt_wf_def)
    then have "kb_contacts (rt_buckets t ! i) = []"
      using bucket_contacts_subset assms(4) by fastforce
    with offered(4) ins show ?thesis by (auto simp: bucket_offer_def Let_def split: if_splits)
  qed (use ins in simp)
  note wf' = rt_insert_wf[OF assms(1,2) ins]
  have ids: "rt_ids t' = {ct_peer_id c}"
    using rt_insert_ids[OF assms(1,2) ins] assms(4,5) \<open>outcome = Inserted\<close> by (simp add: rt_ids_def)
  have sub: "set (rt_contacts t') \<subseteq> {c}" using rt_insert_contacts[OF ins] assms(4) by auto
  have "card (rt_ids t') = length (rt_contacts t')"
    using rt_contacts_distinct[of E t'] wf' unfolding rt_ids_def
    by (metis distinct_card length_map set_map)
  with ids have "rt_len t' = 1" by (simp add: rt_len_contacts)
  then have "length (rt_closest E t' target) = 1" "set (rt_closest E t' target) \<subseteq> {c}"
    using rt_closest_facts[of E t' target] assms(1,3) wf' sub by auto
  then have "rt_closest E t' target = [c]" by (auto simp: length_Suc_conv)
  with ins \<open>outcome = Inserted\<close> show thesis by (auto intro: that)
qed

definition helpful_network :: "string network" where
  "helpful_network = \<lparr>net_rpc = (\<lambda>i from peer req. Inr (Providers [sample_record held_key ''zz'' 50] [])),
     net_order = (\<lambda>r cs. cs), net_task_fails = (\<lambda>r c. False)\<rparr>"

theorem search_finds_known_holder_witness:
  "\<exists>s s' rs. find_providers sample_externs s helpful_network (\<lambda>_. 0) held_content = Some (Inr rs, s')
     \<and> ''zz'' \<in> provider_peer_id ` set rs"
proof -
  let ?key = "content_to_key sample_externs held_content" and ?s0 = sample_service
  have new: "rt_k (rt_new p k) = k" "rt_local_key (rt_new p k) = p" for p k
    by (simp_all add: rt_new_def key_from_peer_id_def)
  then have wf: "rt_wf sample_externs (routing ?s0)" "0 < rt_k (routing ?s0)" "rt_contacts (routing ?s0) = []"
    by (simp_all add: rt_new_wf del: upt_rec_numeral)
  have "replicate 31 0 @ [5 :: u8] \<noteq> replicate 32 0" by (simp add: list_eq_iff_nth_eq nth_append) auto
  then have "routable sample_externs (routing ?s0) (sample_peer 5)"
    by (simp add: routable_def sample_peer_key new del: upt_rec_numeral)
  from rt_insert_first[OF sample_externs_ok wf this, of ?key] obtain t where
    t: "rt_insert sample_externs (routing ?s0) (sample_peer 5) = Some (Inserted, t)"
    "rt_closest sample_externs t ?key = [sample_peer 5]" .
  have ready0: "ready sample_externs ?s0"
    using ready_inv[OF sample_externs_ok sample_service_inv]
    by (simp add: config_sane_def default_config_def del: upt_rec_numeral)
  define s where "s = ?s0\<lparr>routing := t\<rparr>"
  have ready: "ready sample_externs s"
    using rt_insert_returns[OF ready0, of "sample_peer 5"] t(1) by (simp add: s_def)
  have sel: "config s = default_config" "seed_contacts sample_externs s ?key = [sample_peer 5]"
    "ps_get (discovered s) held_key 0 = []"
    using t(2) by (simp_all add: s_def seed_contacts_def ps_get_def ps_with_limits_def del: upt_rec_numeral)
  have per: "max_providers_per_response 20 = 64"
    by (simp add: max_providers_per_response_def saturating_usize_def MAX_PROVIDERS_PER_RESPONSE_def usize_limit_def)
  have "network_ok helpful_network" by (simp add: network_ok_def helpful_network_def)
  moreover have rpc: "net_rpc helpful_network i source c req = Inr (Providers [sample_record held_key ''zz'' 50] [])"
    for i source c req by (simp add: helpful_network_def)
  moreover have "\<not> is_expired q 0"
    if "net_rpc helpful_network i source c req = Inr (Providers ps closer)" "q \<in> set ps" for i source c req ps closer q
    using that by (auto simp: rpc is_expired_def)
  moreover have "\<not> net_task_fails helpful_network 0 (sample_peer 5)" by (simp add: helpful_network_def)
  moreover have "sample_record held_key ''zz'' 50 \<in> set (take (max_providers_per_response (cfg_k (config s)))
      (filter (\<lambda>r. content_key r = held_key) [sample_record held_key ''zz'' 50]))"
    using sel(1) per by (simp add: default_config_def)
  moreover have "sample_peer 5 \<in> set (take (alpha (config s)) (seed_contacts sample_externs s ?key))"
    using sel(1,2) by (simp add: default_config_def)
  ultimately have "\<exists>rs s'. find_providers sample_externs s helpful_network (\<lambda>_. 0) held_content = Some (Inr rs, s')
      \<and> provider_peer_id (sample_record held_key ''zz'' 50) \<in> provider_peer_id ` set rs"
    using sel(3) by (intro search_finds_known_holder[OF ready _ held_key_def, where clock = "\<lambda>_. 0"]) blast+
  then show ?thesis unfolding sample_record_sel by blast
qed

end
