(* ===== verification/Greedy_Routing.thy ===== *)
theory Greedy_Routing
  imports Lookup_Convergence
begin

text \<open>
  The lookup of \<^verbatim>\<open>src/lookup.rs\<close> in a network that routes greedily: a walk stays among the peers of the
  network, returns the nearest of them, and a search that stops on providers finds one when a nearest
  peer holds one.
\<close>

subsection \<open>A walk stays in the world of its seeds\<close>

text \<open>What is needed of the peers asked: a peer of \<open>world\<close> answers, and names peers of \<open>world\<close>.\<close>

definition closed_env :: "lookup_env \<Rightarrow> string set \<Rightarrow> bool" where
  "closed_env env world \<longleftrightarrow> env_ok env \<and> (\<forall>r c. ct_peer_id c \<in> world \<longrightarrow>
     (\<exists>q. le_query env r c = Joined (Some q) \<and> ct_peer_id ` set (qo_closer q) \<subseteq> world))"

definition confined :: "string set \<Rightarrow> lookup_state \<Rightarrow> bool" where
  "confined world st \<longleftrightarrow> sid ` set (ls_shortlist st) \<subseteq> world
     \<and> ct_peer_id ` fst ` set (ls_answers st) \<subseteq> world \<and> ls_rounds st \<le> length (ls_answers st)"

lemma merge_contacts_confined:
  "ct_peer_id ` set cs \<subseteq> world \<Longrightarrow> sid ` set sl \<subseteq> world \<Longrightarrow>
   sid ` set (fst (fold (merge_contact E target) cs (sl, seen))) \<subseteq> world"
proof (induction cs arbitrary: sl seen)
  case (Cons c cs)
  from Cons.prems have "sid ` set (fst (merge_contact E target c (sl, seen))) \<subseteq> world"
    by (auto simp: merge_contact_def split: option.split)
  with Cons.prems(1) show ?case
    using Cons.IH[of "fst (merge_contact E target c (sl, seen))" "snd (merge_contact E target c (sl, seen))"] by simp
qed simp

lemma fold_answers_confined:
  assumes "\<forall>(c, x)\<in>set as. ct_peer_id c \<in> world \<and> (\<exists>q. x = Some q \<and> ct_peer_id ` set (qo_closer q) \<subseteq> world)"
    "sid ` set (ls_shortlist st) \<subseteq> world"
  shows "sid ` set (ls_shortlist (fold (fold_answer E target k) as st)) \<subseteq> world"
  using assms
proof (induction as arbitrary: st)
  case (Cons a as)
  obtain c q where a: "a = (c, Some q)" "ct_peer_id ` set (qo_closer q) \<subseteq> world"
    using Cons.prems(1) by (cases a) auto
  have "sid ` set (mark_queried (ct_peer_id c) False (ls_shortlist st)) \<subseteq> world"
    using Cons.prems(2) by (metis list.set_map mark_queried_sid)
  moreover have "ct_peer_id ` set (take n (qo_closer q)) \<subseteq> world" for n
    using a(2) set_take_subset[of n "qo_closer q"] by blast
  ultimately have "sid ` set (ls_shortlist (fold_answer E target k a st)) \<subseteq> world"
    by (simp add: fold_answer_def a(1) Let_def merge_contacts_confined)
  with Cons show ?case by simp
qed simp

lemma map_filter_total: "\<forall>x\<in>set xs. f x = Some (g x) \<Longrightarrow> List.map_filter f xs = map g xs"
  by (induction xs) (simp_all add: map_filter_simps)

lemma sort_and_cap_subset: "sort_and_cap k al sl = Some sl' \<Longrightarrow> set sl' \<subseteq> set sl"
  by (auto simp: sort_and_cap_def Let_def bind_eq_Some_conv dest!: in_set_takeD split: if_splits)

lemma join_results_closed:
  assumes "closed_env env world" "ct_peer_id ` set batch \<subseteq> world"
  shows "\<forall>(c, x)\<in>set (join_results env r batch).
      ct_peer_id c \<in> world \<and> (\<exists>q. x = Some q \<and> ct_peer_id ` set (qo_closer q) \<subseteq> world)"
    "length (join_results env r batch) = length batch"
proof -
  have ms: "mset (le_order env r batch) = mset batch" using assms(1) by (simp add: closed_env_def env_ok_def)
  from mset_eq_setD[OF ms] assms(2) have order: "\<forall>c\<in>set (le_order env r batch). ct_peer_id c \<in> world" by auto
  then have ans: "\<exists>q. le_query env r c = Joined (Some q) \<and> ct_peer_id ` set (qo_closer q) \<subseteq> world"
    if "c \<in> set (le_order env r batch)" for c
    using that assms(1) by (simp add: closed_env_def)
  have eq: "join_results env r batch
      = map (\<lambda>c. (c, case le_query env r c of Joined x \<Rightarrow> x | JoinFailed \<Rightarrow> None)) (le_order env r batch)"
    unfolding join_results_def by (rule map_filter_total) (use ans in fastforce)
  show "length (join_results env r batch) = length batch"
    unfolding eq using mset_eq_length[OF ms] by simp
  show "\<forall>(c, x)\<in>set (join_results env r batch).
      ct_peer_id c \<in> world \<and> (\<exists>q. x = Some q \<and> ct_peer_id ` set (qo_closer q) \<subseteq> world)"
    unfolding eq using order ans by fastforce
qed

lemma lookup_loop_confined:
  assumes "closed_env env world"
  shows "lookup_loop E env target k al stop n st = Some st' \<Longrightarrow> confined world st \<Longrightarrow> confined world st'"
proof (induction n arbitrary: st)
  case (Suc n)
  define batch where "batch = next_batch al (ls_shortlist st)"
  define results where "results = join_results env (ls_rounds st) batch"
  define st1 where "st1 = fold (fold_answer E target k) results
    (st\<lparr>ls_asked := ls_asked st @ batch, ls_rounds := ls_rounds st + 1\<rparr>)"
  show ?case
  proof (cases "batch = []")
    case True
    with Suc.prems show ?thesis by (simp add: batch_def)
  next
    case False
    have "ct_peer_id ` set batch \<subseteq> world"
      using Suc.prems(2) by (auto simp: batch_def next_batch_def confined_def dest!: in_set_takeD)
    note res = join_results_closed[OF assms this, of "ls_rounds st", folded results_def]
    have sl: "sid ` set (ls_shortlist st1) \<subseteq> world"
      unfolding st1_def using Suc.prems(2) by (intro fold_answers_confined[OF res(1)]) (simp add: confined_def)
    have ans: "ls_answers st1 = ls_answers st @ results" "ls_rounds st1 = ls_rounds st + 1"
      by (simp_all add: st1_def)
    have ids: "ct_peer_id ` fst ` set results \<subseteq> world" using res(1) by auto
    have "ls_rounds st + 1 \<le> length (ls_answers st) + length results"
      using Suc.prems(2) res(2) False by (cases batch) (simp_all add: confined_def)
    then have conf: "confined world (st1\<lparr>ls_shortlist := l\<rparr>)" if "set l \<subseteq> set (ls_shortlist st1)" for l
      using order_trans[OF image_mono[OF that] sl] Suc.prems(2) ids
      by (simp add: confined_def ans image_Un)
    from Suc.prems(1) False obtain l where l: "sort_and_cap k al (ls_shortlist st1) = Some l"
      "st1\<lparr>ls_shortlist := l\<rparr> = st' \<or> lookup_loop E env target k al stop n (st1\<lparr>ls_shortlist := l\<rparr>) = Some st'"
      unfolding lookup_loop.simps Let_def batch_def[symmetric] results_def[symmetric] st1_def[symmetric]
      by (auto simp: bind_eq_Some_conv split: if_splits)
    from l(2) conf[OF sort_and_cap_subset[OF l(1)]] Suc.IH show ?thesis by blast
  qed
qed simp

lemma iterative_find_confined:
  assumes "closed_env env world" "iterative_find E env target seeds k al stop = Some (res, st)"
    "ct_peer_id ` set seeds \<subseteq> world"
  shows "confined world st"
proof -
  from assms(2) obtain st0 where st0: "lookup_start E target seeds k al = Some st0"
    "lookup_loop E env target k al stop MAX_LOOKUP_ROUNDS st0 = Some st"
    by (auto simp: iterative_find_def bind_eq_Some_conv)
  then obtain sl where sl: "sort_and_cap k al (fst (fold (merge_contact E target) seeds ([], {}))) = Some sl"
    "ls_shortlist st0 = sl" "ls_answers st0 = []" "ls_rounds st0 = 0"
    by (auto simp: lookup_start_def Let_def bind_eq_Some_conv)
  have "sid ` set sl \<subseteq> world"
    using order_trans[OF image_mono[OF sort_and_cap_subset[OF sl(1)]] merge_contacts_confined[OF assms(3)]] by simp
  then have "confined world st0" by (simp add: confined_def sl(2-4))
  with lookup_loop_confined[OF assms(1) st0(2)] show ?thesis by blast
qed

lemma closed_answer:
  assumes "closed_env env world" "iterative_find E env target seeds k al stop = Some (res, st)"
    "ct_peer_id ` set seeds \<subseteq> world" "(c, x) \<in> set (ls_answers st)"
  obtains r q where "ct_peer_id c \<in> world" "le_query env r c = Joined (Some q)" "x = Some q"
    "ct_peer_id ` set (qo_closer q) \<subseteq> world"
proof -
  have env: "env_ok env" using assms(1) by (simp add: closed_env_def)
  from lookup_sound_facts[OF env assms(2)] assms(4) obtain i where "le_query env i c = Joined x"
    by (auto simp: answers_real_def)
  moreover have c: "ct_peer_id c \<in> world"
    using iterative_find_confined[OF assms(1-3)] assms(4) by (force simp: confined_def)
  moreover obtain q where "le_query env i c = Joined (Some q)" "ct_peer_id ` set (qo_closer q) \<subseteq> world"
    using assms(1) c unfolding closed_env_def by blast
  ultimately show thesis by (intro that) simp_all
qed

lemma closed_known:
  assumes "closed_env env world" "iterative_find E env target seeds k al stop = Some (res, st)"
    "\<forall>pid\<in>world. decodes E pid" "ct_peer_id ` set seeds \<subseteq> world"
  shows "failed_ids (ls_answers st) = {}"
    "valid_ids E (seeds @ told_contacts k (ls_answers st))
       = ct_peer_id ` set seeds \<union> ct_peer_id ` set (told_contacts k (ls_answers st))"
    "valid_ids E (seeds @ told_contacts k (ls_answers st)) \<subseteq> world"
proof -
  have env: "env_ok env" using assms(1) by (simp add: closed_env_def)
  note ans = closed_answer[OF assms(1,2,4)]
  show "failed_ids (ls_answers st) = {}" (is ?none)
  proof (rule ccontr)
    assume "\<not> ?none"
    then obtain c where "(c, None) \<in> set (ls_answers st)" by (auto simp: failed_ids_def)
    from ans[OF this] show False by simp
  qed
  have told: "ct_peer_id ` set (told_contacts k (ls_answers st)) \<subseteq> world"
  proof
    fix pid assume "pid \<in> ct_peer_id ` set (told_contacts k (ls_answers st))"
    then obtain c q where "(c, Some q) \<in> set (ls_answers st)" "pid \<in> ct_peer_id ` set (qo_closer q)"
      by (auto simp: told_contacts_def split: option.splits dest!: in_set_takeD)
    with ans[OF this(1)] show "pid \<in> world" by (metis option.inject subsetD)
  qed
  show eq: "valid_ids E (seeds @ told_contacts k (ls_answers st))
       = ct_peer_id ` set seeds \<union> ct_peer_id ` set (told_contacts k (ls_answers st))"
    using told assms(3,4) by (fastforce simp: valid_ids_def)
  show "valid_ids E (seeds @ told_contacts k (ls_answers st)) \<subseteq> world"
    unfolding eq using told assms(4) by blast
qed

lemma closed_rounds:
  assumes "closed_env env world" "iterative_find E env target seeds k al stop = Some (res, st)"
    "\<forall>pid\<in>world. decodes E pid" "ct_peer_id ` set seeds \<subseteq> world" "finite world"
  shows "ls_rounds st \<le> card world"
proof -
  have env: "env_ok env" using assms(1) by (simp add: closed_env_def)
  from iterative_find_facts[OF env assms(2)] obtain cap where inv: "lookup_inv E target seeds k cap st" by metis
  have "length (ls_answers st) = card (answered_ids (ls_answers st))"
    using inv distinct_card[of "map answer_id (ls_answers st)"] by (simp add: lookup_inv_def answered_ids_def)
  also have "\<dots> \<le> card world"
    using inv closed_known(3)[OF assms(1-4)] assms(5) by (intro card_mono) (auto simp: lookup_inv_def)
  finally show ?thesis using iterative_find_confined[OF assms(1,2,4)] by (simp add: confined_def)
qed

subsection \<open>A network that routes greedily\<close>

text \<open>The peers' world: \<open>world\<close> is the set of identities there are, \<open>near\<close> the \<open>k\<close> of them nearest
  the target. A peer routes greedily when what it names includes some peer nearer the target than
  itself; the peers of \<open>near\<close>, which may know of none, name the others of \<open>near\<close> instead: they know
  their neighbourhood.\<close>

definition nearest_in :: "externs \<Rightarrow> key \<Rightarrow> nat \<Rightarrow> string set \<Rightarrow> string set \<Rightarrow> bool" where
  "nearest_in E target k world near \<longleftrightarrow>
     near \<subseteq> world \<and> card near = min k (card world)
     \<and> (\<forall>x\<in>near. \<forall>y\<in>world - near. pid_distance E target x \<le> pid_distance E target y)"

definition names_nearer :: "externs \<Rightarrow> key \<Rightarrow> string set \<Rightarrow> string \<Rightarrow> contact list \<Rightarrow> bool" where
  "names_nearer E target near pid cs \<longleftrightarrow>
     (if pid \<in> near then near - {pid} \<subseteq> ct_peer_id ` set cs
      else \<exists>y\<in>ct_peer_id ` set cs. pid_distance E target y < pid_distance E target pid)"

lemma names_nearer_mono:
  assumes "names_nearer E target near pid cs" "set cs \<subseteq> set cs'"
  shows "names_nearer E target near pid cs'"
proof (cases "pid \<in> near")
  case True
  with assms show ?thesis by (auto simp: names_nearer_def)
next
  case False
  with assms(1) obtain c where "c \<in> set cs" "pid_distance E target (ct_peer_id c) < pid_distance E target pid"
    by (auto simp: names_nearer_def)
  with False assms(2) show ?thesis by (auto simp: names_nearer_def intro!: bexI[of _ c])
qed

definition greedy_env :: "externs \<Rightarrow> lookup_env \<Rightarrow> key \<Rightarrow> nat \<Rightarrow> string set \<Rightarrow> string set \<Rightarrow> bool" where
  "greedy_env E env target k world near \<longleftrightarrow>
     env_ok env \<and> (\<forall>r c. ct_peer_id c \<in> world \<longrightarrow> (\<exists>q. le_query env r c = Joined (Some q)
       \<and> ct_peer_id ` set (qo_closer q) \<subseteq> world
       \<and> names_nearer E target near (ct_peer_id c) (take (max_closer_per_response k) (qo_closer q))))"

lemma greedy_closed: "greedy_env E env target k world near \<Longrightarrow> closed_env env world"
  unfolding greedy_env_def closed_env_def by meson

text \<open>What an asked peer named, the walk was told.\<close>

lemma greedy_answer:
  assumes "greedy_env E env target k world near" "iterative_find E env target seeds k al stop = Some (res, st)"
    "ct_peer_id ` set seeds \<subseteq> world" "(c, x) \<in> set (ls_answers st)"
  shows "names_nearer E target near (ct_peer_id c) (told_contacts k (ls_answers st))"
proof -
  from closed_answer[OF greedy_closed[OF assms(1)] assms(2-4)] obtain r q where
    q: "ct_peer_id c \<in> world" "le_query env r c = Joined (Some q)" "x = Some q" .
  then have named: "names_nearer E target near (ct_peer_id c) (take (max_closer_per_response k) (qo_closer q))"
    using assms(1) unfolding greedy_env_def by (metis option.inject task_result.inject)
  have "set (take (max_closer_per_response k) (qo_closer q)) \<subseteq> set (told_contacts k (ls_answers st))"
    using assms(4) unfolding q(3) told_contacts_def by force
  with named show ?thesis by (rule names_nearer_mono)
qed

text \<open>A walk that ended because it converged: nobody failed, so the nearest known peer was asked; it
  is one of \<open>near\<close>, or it would have named a nearer one, and it named the rest of \<open>near\<close>.\<close>

definition walked_out :: "nat \<Rightarrow> bool \<Rightarrow> lookup_result \<Rightarrow> lookup_state \<Rightarrow> bool" where
  "walked_out al stop res st \<longleftrightarrow> 0 < al \<and> ls_rounds st < 64 \<and> (\<not> stop \<or> lr_providers res = [])"

lemma left_out_farther:
  assumes "closed_env env world" "iterative_find E env target seeds k al stop = Some (res, st)"
    "\<forall>pid\<in>world. decodes E pid" "ct_peer_id ` set seeds \<subseteq> world"
    "pid \<in> valid_ids E (seeds @ told_contacts k (ls_answers st))" "pid \<notin> ct_peer_id ` set (lr_closest res)"
  shows "length (lr_closest res) = k
    \<and> (\<forall>c\<in>ct_peer_id ` set (lr_closest res). pid_distance E target c \<le> pid_distance E target pid)"
  using lookup_nearest_facts[of env E target seeds k al stop res st pid] assms(1,2,5,6) closed_known(1)[OF assms(1-4)]
  by (auto simp: closed_env_def)

lemma greedy_finds_near:
  assumes "greedy_env E env target k world near" "iterative_find E env target seeds k al stop = Some (res, st)"
    "\<forall>pid\<in>world. decodes E pid" "ct_peer_id ` set seeds \<subseteq> world" "seeds \<noteq> []" "0 < k" "walked_out al stop res st"
  shows "near \<subseteq> valid_ids E (seeds @ told_contacts k (ls_answers st))"
proof -
  note closed = greedy_closed[OF assms(1)]
  note known = closed_known[OF closed assms(2-4)] and left_out = left_out_farther[OF closed assms(2-4)]
  have env: "env_ok env" using assms(1) by (simp add: greedy_env_def)
  note sound = lookup_sound_facts[OF env assms(2)]
  let ?A = "ls_answers st"
  have "lr_closest res \<noteq> []"
  proof
    assume none: "lr_closest res = []"
    have "ct_peer_id (hd seeds) \<in> valid_ids E (seeds @ told_contacts k ?A)"
      unfolding known(2) using assms(5) by (cases seeds) auto
    from left_out[OF this] none assms(6) show False by simp
  qed
  then obtain c rest where c: "lr_closest res = c # rest" by (cases "lr_closest res") auto
  have first: "pid_distance E target (ct_peer_id c) \<le> pid_distance E target pid"
    if "pid \<in> valid_ids E (seeds @ told_contacts k ?A)" for pid
    using left_out[OF that] sound c by (cases "pid \<in> ct_peer_id ` set (lr_closest res)") auto
  have "ct_peer_id c \<in> answered_ids ?A"
    using lookup_converged_facts[OF env assms(2) known(1)] assms(7) c by (auto simp: walked_out_def)
  then obtain c' x where cx: "(c', x) \<in> set ?A" "ct_peer_id c' = ct_peer_id c"
    by (auto simp: answered_ids_def answer_id_def)
  have asked: "ct_peer_id c \<in> valid_ids E (seeds @ told_contacts k ?A)" using sound c by auto
  note named = greedy_answer[OF assms(1,2,4) cx(1), unfolded cx(2) names_nearer_def]
  show ?thesis
  proof (cases "ct_peer_id c \<in> near")
    case True
    with named asked show ?thesis unfolding known(2) by auto
  next
    case False
    with named obtain y where
      "y \<in> ct_peer_id ` set (told_contacts k ?A)" "pid_distance E target y < pid_distance E target (ct_peer_id c)"
      by auto
    with first[of y] show ?thesis unfolding known(2) by auto
  qed
qed

lemma greedy_result:
  assumes "greedy_env E env target k world near" "nearest_in E target k world near" "finite world"
    "\<forall>pid\<in>world. decodes E pid" "ct_peer_id ` set seeds \<subseteq> world" "seeds \<noteq> []"
    "iterative_find E env target seeds k al stop = Some (res, st)" "walked_out al stop res st"
  shows "nearest_in E target k world (ct_peer_id ` set (lr_closest res))"
proof (cases "k = 0")
  case True
  then show ?thesis using assms(7) by (auto simp: iterative_find_def bind_eq_Some_conv lookup_finish_def nearest_in_def)
next
  case False
  have env: "env_ok env" using assms(1) by (simp add: greedy_env_def)
  note run = assms(7) and closed = greedy_closed[OF assms(1)]
  note known = closed_known(3)[OF closed run assms(4,5)] and left_out = left_out_farther[OF closed run assms(4,5)]
  note sound = lookup_sound_facts[OF env run]
  let ?A = "ls_answers st" and ?C = "ct_peer_id ` set (lr_closest res)"
  let ?known = "valid_ids E (seeds @ told_contacts k ?A)"
  have near: "near \<subseteq> ?known" using greedy_finds_near[OF assms(1,7,4-6) _ assms(8)] False by simp
  have near_world: "near \<subseteq> world" using assms(2) by (simp add: nearest_in_def)
  have C: "?C \<subseteq> world" "card ?C = length (lr_closest res)"
    using sound known distinct_card[of "map ct_peer_id (lr_closest res)"] by auto
  have le: "length (lr_closest res) \<le> k"
    using run by (auto simp: iterative_find_def bind_eq_Some_conv lookup_finish_def)
  have fin: "finite near" using assms(3) near_world finite_subset by blast
  have near_card: "card near = min k (card world)" using assms(2) by (simp add: nearest_in_def)
  have size: "card ?C = min k (card world)"
  proof (cases "near \<subseteq> ?C")
    case True
    then have "card near \<le> card ?C" by (intro card_mono) auto
    moreover have "card ?C \<le> card world" using C(1) assms(3) by (intro card_mono)
    ultimately show ?thesis using near_card C(2) le by simp
  next
    case False
    then obtain x where "x \<in> ?known" "x \<notin> ?C" using near by blast
    from left_out[OF this] C(1,2) assms(3) card_mono[of world ?C] show ?thesis by simp
  qed
  have "pid_distance E target y \<le> pid_distance E target z" if y: "y \<in> ?C" and z: "z \<in> world" "z \<notin> ?C" for y z
  proof (cases "z \<in> near")
    case True
    with near left_out z(2) y show ?thesis by blast
  next
    case False
    show ?thesis
    proof (cases "near \<subseteq> ?C")
      case True
      then have "near = ?C" using size near_card by (intro card_subset_eq) simp_all
      with assms(2) y z show ?thesis by (metis DiffI nearest_in_def)
    next
      case out: False
      then obtain x where x: "x \<in> near" "x \<notin> ?C" by blast
      with near left_out y have "pid_distance E target y \<le> pid_distance E target x" by blast
      also have "\<dots> \<le> pid_distance E target z" using x(1) z(1) False assms(2) by (simp add: nearest_in_def)
      finally show ?thesis .
    qed
  qed
  with C(1) size show ?thesis by (auto simp: nearest_in_def)
qed

text \<open>C17. A lookup finds the nearest peers of the network. In a finite world whose peers route greedily, a
  lookup that starts from at least one peer of it, asks at least one peer a round, and whose shortlist
  bound does not overflow a \<open>usize\<close>, returns, whatever the order of the answers, and
  unless its round guard stops it the contacts it returns are \<open>k\<close> (or all, if fewer) peers of the
  world with no other peer of the world nearer than any of them. In a world of fewer than 64 peers
  the guard never stops it.\<close>

theorem lookup_finds_network_nearest:
  assumes "greedy_env E env target k world near" "nearest_in E target k world near" "finite world"
    "\<forall>pid\<in>world. decodes E pid" "ct_peer_id ` set seeds \<subseteq> world" "seeds \<noteq> []" "0 < al"
    "k * 3 < 2 ^ 64" "al * 2 < 2 ^ 64" "k + al * 2 < 2 ^ 64"
  shows "\<exists>res st. iterative_find E env target seeds k al False = Some (res, st)
    \<and> (card world < 64 \<longrightarrow> ls_rounds st < 64)
    \<and> (ls_rounds st < 64 \<longrightarrow> nearest_in E target k world (ct_peer_id ` set (lr_closest res)))"
proof -
  note closed = greedy_closed[OF assms(1)]
  then have env: "env_ok env" by (simp add: closed_env_def)
  have "iterative_find E env target seeds k al False \<noteq> None"
    using iterative_find_None[OF env] shortlist_cap_None assms(8-10) by simp
  then obtain res st where run: "iterative_find E env target seeds k al False = Some (res, st)" by auto
  from closed_rounds[OF closed run assms(4,5,3)] greedy_result[OF assms(1-6) run] assms(7) run
  show ?thesis by (auto simp: walked_out_def)
qed

subsection \<open>A search that stops on providers\<close>

lemma greedy_search_facts:
  assumes "greedy_env E env target k world near" "nearest_in E target k world near" "finite world"
    "\<forall>pid\<in>world. decodes E pid" "inj_on (pid_distance E target) world"
    "ct_peer_id ` set seeds \<subseteq> world" "seeds \<noteq> []" "0 < al" "holder \<in> near"
    "\<And>r c q. ct_peer_id c = holder \<Longrightarrow> le_query env r c = Joined (Some q) \<Longrightarrow> qo_providers q \<noteq> []"
    "iterative_find E env target seeds k al stop = Some (res, st)" "ls_rounds st < 64"
  shows "lr_providers res \<noteq> []"
proof
  assume none: "lr_providers res = []"
  note run = assms(11) and closed = greedy_closed[OF assms(1)]
  have env: "env_ok env" using closed by (simp add: closed_env_def)
  note sound = lookup_sound_facts[OF env run] and known = closed_known[OF closed run assms(4,6)]
  let ?A = "ls_answers st" and ?C = "ct_peer_id ` set (lr_closest res)"
  have out: "walked_out al stop res st" using none assms(8,12) by (simp add: walked_out_def)
  have near: "near \<subseteq> world" "card near = min k (card world)" "finite near"
    using assms(2,3) finite_subset by (auto simp: nearest_in_def)
  have k: "0 < k" using near(2,3) assms(9) by (cases k) auto
  have holder: "holder \<in> valid_ids E (seeds @ told_contacts k ?A)"
    using greedy_finds_near[OF assms(1) run assms(4,6,7) k out] assms(9) by blast
  have "holder \<in> ?C"
  proof (rule ccontr)
    assume no: "holder \<notin> ?C"
    note far = left_out_farther[OF closed run assms(4,6) holder no]
    have C: "?C \<subseteq> world"
      using sound[THEN conjunct2, THEN conjunct2, THEN conjunct1] known(3) by (meson Diff_subset order_trans)
    have card: "card ?C = k"
      using sound far distinct_card[of "map ct_peer_id (lr_closest res)"] by simp
    have "\<not> ?C \<subseteq> near - {holder}"
    proof
      assume "?C \<subseteq> near - {holder}"
      then have "card ?C \<le> card (near - {holder})" using near(3) by (intro card_mono) auto
      then show False using card near(2,3) assms(9) k by (simp add: card_Diff_singleton)
    qed
    then obtain y where y: "y \<in> ?C" "y \<notin> near" using no by blast
    have "pid_distance E target holder \<le> pid_distance E target y"
      using assms(2,9) y C by (auto simp: nearest_in_def)
    with far y(1) have "pid_distance E target y = pid_distance E target holder" by (auto intro: antisym)
    then have "y = holder" using assms(5,9) near(1) C y(1) by (auto dest: inj_onD)
    with y(2) assms(9) show False by simp
  qed
  then have "holder \<in> answered_ids ?A"
    using lookup_converged_facts[OF env run known(1)] out by (auto simp: walked_out_def)
  then obtain c x where cx: "(c, x) \<in> set ?A" "ct_peer_id c = holder" by (auto simp: answered_ids_def answer_id_def)
  from closed_answer[OF closed run assms(6) cx(1)] obtain r q where
    "le_query env r c = Joined (Some q)" "x = Some q" by metis
  with assms(10)[OF cx(2)] obtain p ps where "qo_providers q = p # ps" by (cases "qo_providers q") auto
  moreover have "0 < max_providers_per_response k"
    by (simp add: max_providers_per_response_def MAX_PROVIDERS_PER_RESPONSE_def)
  ultimately have "p \<in> set (take (max_providers_per_response k) (qo_providers q))"
    by (cases "max_providers_per_response k") simp_all
  then have "p \<in> set (told_providers k ?A)"
    using cx(1) \<open>x = Some q\<close> by (force simp: told_providers_def)
  with sound none show False by auto
qed

definition echo_env :: lookup_env where
  "echo_env = \<lparr>le_query = (\<lambda>r c. Joined (Some \<lparr>qo_closer = [sample_peer 5], qo_providers = []\<rparr>)),
     le_order = (\<lambda>r cs. cs)\<rparr>"

theorem lookup_finds_network_nearest_witness:
  "\<exists>res st. iterative_find sample_externs echo_env sample_target [sample_peer 5] 20 3 False = Some (res, st)
    \<and> nearest_in sample_externs sample_target 20 {ct_peer_id (sample_peer 5)} (ct_peer_id ` set (lr_closest res))"
proof -
  let ?world = "{ct_peer_id (sample_peer 5)}"
  have "max_closer_per_response 20 \<noteq> 0"
    by (simp add: max_closer_per_response_def MAX_CLOSER_PER_RESPONSE_def)
  then have "greedy_env sample_externs echo_env sample_target 20 ?world ?world"
    by (auto simp: greedy_env_def echo_env_def env_ok_def names_nearer_def)
  moreover have "nearest_in sample_externs sample_target 20 ?world ?world"
    by (simp add: nearest_in_def)
  ultimately show ?thesis
    using lookup_finds_network_nearest[of sample_externs echo_env sample_target 20 ?world ?world "[sample_peer 5]" 3]
    by (auto simp: decodes_def sample_peer_pid)
qed

end
