(* ===== verification/Swarm_Search.thy ===== *)
theory Swarm_Search
  imports Service_Composition Greedy_Routing
begin

text \<open>
  The service of \<^verbatim>\<open>src/service.rs\<close> among other nodes running it. A swarm is the state of every node at
  every moment of one node's operation, \<open>nodes i pid\<close>, with the nodes' clocks; the network of that
  operation answers as those nodes do. When the routing tables of the nodes route greedily, an
  announcement and a search meet at the nodes nearest the content.
\<close>

subsection \<open>Nodes as a network\<close>

definition swarm_serves ::
  "externs \<Rightarrow> dht_service \<Rightarrow> 't network \<Rightarrow> (nat \<Rightarrow> string \<Rightarrow> dht_service) \<Rightarrow> (nat \<Rightarrow> u64) \<Rightarrow> string set \<Rightarrow> bool" where
  "swarm_serves E s net nodes clk world \<longleftrightarrow> network_ok net \<and> (\<forall>i c. \<not> net_task_fails net i c)
     \<and> (\<forall>i c req. ct_peer_id c \<in> world \<longrightarrow>
          (\<exists>resp n. handle_request_from E (nodes i (ct_peer_id c)) (Some (local_contact E s)) req (clk i) = Some (resp, n)
            \<and> net_rpc net i (local_contact E s) c req = Inr resp))"

text \<open>The routing table a node answers from is the one that has learned of the caller.\<close>

definition greedy_node :: "externs \<Rightarrow> key \<Rightarrow> string set \<Rightarrow> string set \<Rightarrow> string \<Rightarrow> dht_service \<Rightarrow> bool" where
  "greedy_node E target world near pid n \<longleftrightarrow> rt_k (routing n) \<le> 64
     \<and> ct_peer_id ` set (rt_closest E (routing n) target) \<subseteq> world
     \<and> names_nearer E target near pid (rt_closest E (routing n) target)"

definition canonical_world :: "externs \<Rightarrow> string set \<Rightarrow> bool" where
  "canonical_world E world \<longleftrightarrow>
     finite world \<and> card world < 64 \<and> (\<exists>ids. world = pid_to_hex E ` ids \<and> (\<forall>p\<in>ids. length p = 32))"

definition greedy_swarm ::
  "externs \<Rightarrow> dht_service \<Rightarrow> 't network \<Rightarrow> (nat \<Rightarrow> string \<Rightarrow> dht_service) \<Rightarrow> (nat \<Rightarrow> u64) \<Rightarrow> key \<Rightarrow>
     string set \<Rightarrow> string set \<Rightarrow> bool" where
  "greedy_swarm E s net nodes clk target world near \<longleftrightarrow>
     swarm_serves E s net nodes clk world \<and> canonical_world E world
     \<and> nearest_in E target (cfg_k (config s)) world near
     \<and> (\<forall>i pid resp n. pid \<in> world \<longrightarrow>
          handle_request_from E (nodes i pid) (Some (local_contact E s)) (FindProviders (to_hex target)) (clk i)
            = Some (resp, n) \<longrightarrow> greedy_node E target world near pid n)
     \<and> ct_peer_id ` set (seed_contacts E s target) \<subseteq> world \<and> seed_contacts E s target \<noteq> [] \<and> 0 < alpha (config s)"

lemma find_providers_reply:
  assumes "handle_request_from E s caller (FindProviders (to_hex key)) now = Some (resp, s')" "wf_key key"
  shows "resp = Providers (ps_get (authoritative s) (to_hex key) now) (rt_closest E (routing s') key)"
proof -
  from assms(1) obtain s1 where s1: "learn_caller E s caller = Some s1"
    "answer_request E s1 (map_option ct_peer_id caller) (FindProviders (to_hex key)) now = Some (resp, s')"
    by (auto simp: handle_request_from_def bind_eq_Some_conv)
  have "parse_key (to_hex key) = Some key" using assms(2) by (intro wire_key_hex.dec_enc) (simp add: wf_key_def)
  with s1(2) learn_frame_stores[OF s1(1)] show ?thesis by auto
qed

text \<open>What the lookup of the node sees of the swarm.\<close>

lemma swarm_query:
  assumes "greedy_swarm E s net nodes clk target world near" "wf_key target" "ct_peer_id c \<in> world"
  obtains n where
    "le_query (lookup_env_of E s net target) r c = Joined (Some \<lparr>qo_closer = rt_closest E (routing n) target,
       qo_providers = filter (\<lambda>p. content_key p = to_hex target)
         (ps_get (authoritative (nodes r (ct_peer_id c))) (to_hex target) (clk r))\<rparr>)"
    "greedy_node E target world near (ct_peer_id c) n"
proof -
  from assms(1,3) obtain resp n where
    h: "handle_request_from E (nodes r (ct_peer_id c)) (Some (local_contact E s)) (FindProviders (to_hex target)) (clk r)
        = Some (resp, n)"
    "net_rpc net r (local_contact E s) c (FindProviders (to_hex target)) = Inr resp"
    "\<not> net_task_fails net r c"
    unfolding greedy_swarm_def swarm_serves_def by meson
  moreover from assms(1,3) h(1) have "greedy_node E target world near (ct_peer_id c) n"
    unfolding greedy_swarm_def by blast
  ultimately show thesis
    using find_providers_reply[OF h(1) assms(2)]
    by (intro that) (simp_all add: lookup_env_of_def query_outcome_of_def)
qed

lemma swarm_query_providers:
  assumes "greedy_swarm E s net nodes clk target world near" "wf_key target" "ct_peer_id c \<in> world"
    "le_query (lookup_env_of E s net target) r c = Joined (Some q)"
  shows "qo_providers q = filter (\<lambda>p. content_key p = to_hex target)
    (ps_get (authoritative (nodes r (ct_peer_id c))) (to_hex target) (clk r))"
  using swarm_query[OF assms(1-3), of r] assms(4)
  by (metis option.inject query_outcome.select_convs(2) task_result.inject)

lemma swarm_greedy_env:
  assumes "greedy_swarm E s net nodes clk target world near" "wf_key target"
  shows "greedy_env E (lookup_env_of E s net target) target k world near"
  unfolding greedy_env_def
proof (intro conjI allI impI)
  show "env_ok (lookup_env_of E s net target)"
    using assms(1) by (intro lookup_env_ok) (simp add: greedy_swarm_def swarm_serves_def)
next
  fix r and c :: contact assume "ct_peer_id c \<in> world"
  from swarm_query[OF assms this, of r] obtain n where n:
    "le_query (lookup_env_of E s net target) r c = Joined (Some \<lparr>qo_closer = rt_closest E (routing n) target,
       qo_providers = filter (\<lambda>p. content_key p = to_hex target)
         (ps_get (authoritative (nodes r (ct_peer_id c))) (to_hex target) (clk r))\<rparr>)"
    "greedy_node E target world near (ct_peer_id c) n" .
  have "length (rt_closest E (routing n) target) \<le> max_closer_per_response k"
    using n(2) by (auto simp: rt_closest_def greedy_node_def max_closer_per_response_def MAX_CLOSER_PER_RESPONSE_def)
  with n show "\<exists>q. le_query (lookup_env_of E s net target) r c = Joined (Some q)
       \<and> ct_peer_id ` set (qo_closer q) \<subseteq> world
       \<and> names_nearer E target near (ct_peer_id c) (take (max_closer_per_response k) (qo_closer q))"
    by (simp add: greedy_node_def)
qed

lemma canonical_world_facts:
  assumes "canonical_world E world" "externs_ok E" "wf_key target"
  shows "\<forall>pid\<in>world. decodes E pid" "inj_on (pid_distance E target) world" "finite world" "card world < 64"
proof -
  from assms(1) obtain ids where ids: "world = pid_to_hex E ` ids" "\<forall>p\<in>ids. length p = 32"
    by (auto simp: canonical_world_def)
  have dec: "pid_from_hex E (pid_to_hex E p) = Some p" if "p \<in> ids" for p
    using externs_ok_to_hex[OF assms(2)] ids(2) that by blast
  then show "\<forall>pid\<in>world. decodes E pid" by (simp add: ids(1) decodes_def)
  have "pid_distance E target (pid_to_hex E p) = distance target p" if "p \<in> ids" for p
    using dec[OF that] by (simp add: pid_distance_def key_from_peer_id_def)
  moreover have "inj_on (distance target) ids"
    using ids(2) distance_involutive[of _ target] by (intro inj_onI) (metis wf_key_def)
  ultimately show "inj_on (pid_distance E target) world"
    unfolding ids(1) by (intro inj_onI) (auto dest: inj_onD)
  show "finite world" "card world < 64" using assms(1) by (simp_all add: canonical_world_def)
qed

subsection \<open>Searching the swarm\<close>

text \<open>A record of the answer comes from the store of some node.\<close>

definition held_in :: "(nat \<Rightarrow> string \<Rightarrow> dht_service) \<Rightarrow> (nat \<Rightarrow> u64) \<Rightarrow> string set \<Rightarrow> string \<Rightarrow> provider_record set" where
  "held_in nodes clk world ck = (\<Union>i. \<Union>pid\<in>world. set (ps_get (authoritative (nodes i pid)) ck (clk i)))"

lemma swarm_told:
  assumes "greedy_swarm E s net nodes clk target world near" "wf_key target"
    "run_lookup E s net target (seed_contacts E s target) stop = Some (res, st)"
    "p \<in> set (told_providers k (ls_answers st))"
  shows "p \<in> held_in nodes clk world (to_hex target)"
proof -
  note closed = greedy_closed[OF swarm_greedy_env[OF assms(1,2), where k = "cfg_k (config s)"]]
  from assms(4) obtain c q where a: "(c, Some q) \<in> set (ls_answers st)" "p \<in> set (qo_providers q)"
    by (auto simp: told_providers_def split: option.splits dest!: in_set_takeD)
  have "ct_peer_id ` set (seed_contacts E s target) \<subseteq> world" using assms(1) by (simp add: greedy_swarm_def)
  from closed_answer[OF closed assms(3)[unfolded run_lookup_def] this a(1)] obtain r q' where
    r: "ct_peer_id c \<in> world" "le_query (lookup_env_of E s net target) r c = Joined (Some q')" "Some q = Some q'"
    by metis
  with swarm_query_providers[OF assms(1,2) r(1,2)] a(2) show ?thesis by (auto simp: held_in_def)
qed

lemma swarm_lookup_finds:
  assumes "externs_ok E" "greedy_swarm E s net nodes clk target world near" "wf_key target" "holder \<in> near"
    "\<And>i. \<exists>r\<in>set (ps_get (authoritative (nodes i holder)) (to_hex target) (clk i)). content_key r = to_hex target"
    "run_lookup E s net target (seed_contacts E s target) stop = Some (res, st)"
  shows "lr_providers res \<noteq> []"
proof -
  have w: "canonical_world E world" "nearest_in E target (cfg_k (config s)) world near"
    "ct_peer_id ` set (seed_contacts E s target) \<subseteq> world" "seed_contacts E s target \<noteq> []" "0 < alpha (config s)"
    using assms(2) by (simp_all add: greedy_swarm_def)
  note world = canonical_world_facts[OF w(1) assms(1,3)]
  note env = swarm_greedy_env[OF assms(2,3), where k = "cfg_k (config s)"]
  note run = assms(6)[unfolded run_lookup_def]
  have "holder \<in> world" using assms(4) w(2) by (auto simp: nearest_in_def)
  have found: "qo_providers q \<noteq> []"
    if c: "ct_peer_id c = holder" and q: "le_query (lookup_env_of E s net target) r c = Joined (Some q)" for r c q
    using swarm_query_providers[OF assms(2,3) _ q] assms(5)[of r] c \<open>holder \<in> world\<close>
    by (auto simp: filter_empty_conv)
  have "ls_rounds st < 64"
    using closed_rounds[OF greedy_closed[OF env] run world(1) w(3) world(3)] world(4) by simp
  from greedy_search_facts[OF env w(2) world(3,1,2) w(3,4,5) assms(4) found run this] show ?thesis .
qed

lemma swarm_search_facts:
  assumes "ready E s" "greedy_swarm E s net nodes clk (content_to_key E content) world near" "holder \<in> near"
    "ck = to_hex (content_to_key E content)"
    "\<And>i. \<exists>r\<in>set (ps_get (authoritative (nodes i holder)) ck (clk i)). content_key r = ck"
    "\<And>r. r \<in> held_in nodes clk world ck \<Longrightarrow> \<not> is_expired r (clock 2)"
    "ps_get (discovered s) ck (clock 0) = []"
  shows "\<exists>rs s'. find_providers E s net clock content = Some (Inr rs, s') \<and> rs \<noteq> []
    \<and> set rs \<subseteq> set (ps_get (authoritative s) ck (clock 0)) \<union> normalize_discovered E ` held_in nodes clk world ck"
proof -
  let ?key = "content_to_key E content"
  have E: "externs_ok E" using assms(1) by (simp add: ready_def)
  note wf = wf_content_to_key[OF E, of content]
  have net: "network_ok net" using assms(2) by (simp add: greedy_swarm_def swarm_serves_def)
  from find_providers_returns[OF assms(1) net, of clock content] obtain res s' where
    run: "find_providers E s net clock content = Some (res, s')" by (auto simp: returns_def)
  from run show ?thesis
  proof (cases rule: find_providers_cases)
    case cached
    with assms(4,7) show ?thesis by simp
  next
    case nobody
    with assms(2) show ?thesis by (simp add: greedy_swarm_def)
  next
    case (walked result st s1)
    from swarm_lookup_finds[OF E assms(2) wf assms(3) _ walked(2)] assms(5)
    have "lr_providers result \<noteq> []" unfolding assms(4) by blast
    then obtain p where p: "p \<in> set (lr_providers result)" by (cases "lr_providers result") auto
    have sub: "set (lr_providers result) \<subseteq> held_in nodes clk world ck"
    proof
      fix p assume "p \<in> set (lr_providers result)"
      then have "p \<in> set (told_providers (cfg_k (config s)) (ls_answers st))"
        using lookup_sound_facts[OF lookup_env_ok[OF net] walked(2)[unfolded run_lookup_def]] by auto
      then show "p \<in> held_in nodes clk world ck" unfolding assms(4) by (rule swarm_told[OF assms(2) wf walked(2)])
    qed
    let ?found = "map (normalize_discovered E) (lr_providers result)"
    let ?rs = "merge_dedup_by_provider (ps_get (authoritative s) ck (clock 0)) ?found (clock 2)"
    have "\<not> is_expired (normalize_discovered E p) (clock 2)" using assms(6) sub p by auto
    then have "provider_peer_id (normalize_discovered E p) \<in> provider_peer_id ` set ?rs"
      unfolding merge_facts(3) using p by (intro imageI) simp
    then have "?rs \<noteq> []" by auto
    moreover have "set ?rs \<subseteq> set (ps_get (authoritative s) ck (clock 0)) \<union> normalize_discovered E ` held_in nodes clk world ck"
      using merge_facts(2)[of "ps_get (authoritative s) ck (clock 0)" ?found "clock 2"] sub by auto
    ultimately show ?thesis using run walked(5) unfolding assms(4) by blast
  qed
qed

text \<open>C8. A search finds a holder when one of the nearest nodes knows one. In a swarm of fewer than 64 nodes
  that all answer and whose routing tables (of \<open>k\<close> at most 64) route greedily towards the content, a node that has contacts to start from, all of them
  nodes of the swarm, and no cached record of the content, searches for it while one of the \<open>k\<close> nodes
  nearest the content serves a record of it throughout, and no record of it that the nodes serve expires before
  the search ends: the search returns at least one provider, and every record it returns is this node's own or
  one that a node of the swarm held, sanitised.\<close>

theorem swarm_search_succeeds:
  assumes "ready E s" "greedy_swarm E s net nodes clk (content_to_key E content) world near" "holder \<in> near"
    "ck = to_hex (content_to_key E content)"
    "\<And>i. \<exists>r\<in>set (ps_get (authoritative (nodes i holder)) ck (clk i)). content_key r = ck"
    "\<And>r. r \<in> held_in nodes clk world ck \<Longrightarrow> \<not> is_expired r (clock 2)"
    "ps_get (discovered s) ck (clock 0) = []"
  shows "\<exists>rs s'. find_providers E s net clock content = Some (Inr rs, s') \<and> rs \<noteq> []
    \<and> set rs \<subseteq> set (ps_get (authoritative s) ck (clock 0)) \<union> normalize_discovered E ` held_in nodes clk world ck"
  using assms by (rule swarm_search_facts)

subsection \<open>An announcement and a search\<close>

text \<open>The record an announcement puts at the nodes, and the nodes that accepted it.\<close>

lemma nearest_unique:
  assumes "nearest_in E target k world near" "nearest_in E target k world near'" "finite world"
    "inj_on (pid_distance E target) world"
  shows "near = near'"
proof (rule ccontr)
  assume ne: "near \<noteq> near'"
  have n: "near \<subseteq> world" "near' \<subseteq> world" "card near = card near'" "finite near" "finite near'"
    using assms(1-3) finite_subset by (auto simp: nearest_in_def)
  from ne n obtain x y where x: "x \<in> near" "x \<notin> near'" and y: "y \<in> near'" "y \<notin> near"
    by (metis card_subset_eq subsetI)
  with assms(1,2) n(1,2) have "pid_distance E target x = pid_distance E target y"
    unfolding nearest_in_def by (meson DiffI antisym subsetD)
  with assms(4) n(1,2) x y show False by (auto dest: inj_onD)
qed

lemma announce_result:
  assumes "announce_traced E a net clock content coin = Some (res, sent, a')"
    "seed_contacts E a (content_to_key E content) \<noteq> []"
    "published = own_record E a (content_to_key E content) (clock 0) (map_option to_hex64 coin)"
  obtains r st where
    "run_lookup E a net (content_to_key E content) (seed_contacts E a (content_to_key E content)) False = Some (r, st)"
    "res = Inr (put_record_at E a net (lr_closest r) published)" "sent = put_requests E a (lr_closest r) published"
proof -
  let ?t = "content_to_key E content"
  let ?r = "own_record E a ?t (clock 0) (map_option to_hex64 coin)"
  have rec: "(case coin of Some c \<Rightarrow> with_unverified_mirror_coin_id (build_local_record E a ?t (clock 0)) c
      | None \<Rightarrow> build_local_record E a ?t (clock 0)) = ?r"
    by (cases coin) (simp_all add: own_record_coin, simp add: own_record_none)
  define s1 where "s1 = a\<lparr>authoritative := ps_mark_announced_with_collateral
    (snd (ps_put (\<lambda>_. clock 1) (authoritative a) ?r)) (to_hex ?t) (unverified_mirror_coin_id ?r)\<rparr>"
  have s1: "config s1 = config a" "local_contact E s1 = local_contact E a" "seed_contacts E s1 ?t = seed_contacts E a ?t"
    "local_id_hex E s1 = local_id_hex E a"
    by (simp_all add: s1_def local_contact_def seed_contacts_def local_id_hex_def)
  from assms(1,2) obtain r where walk: "lookup_and_absorb E s1 net ?t (seed_contacts E s1 ?t) False = Some (r, a')"
    "res = Inr (put_record_at E a' net (lr_closest r) ?r)" "sent = put_requests E a' (lr_closest r) ?r"
    unfolding announce_traced_def Let_def rec s1_def[symmetric] s1
    by (auto simp: bind_eq_Some_conv split: if_splits simp del: One_nat_def)
  then obtain st where look: "run_lookup E s1 net ?t (seed_contacts E s1 ?t) False = Some (r, st)"
    by (auto simp: lookup_and_absorb_def bind_eq_Some_conv split: prod.splits)
  have same: "local_contact E a' = local_contact E a" "local_id_hex E a' = local_id_hex E a"
    using lookup_and_absorb_same[OF walk(1)] s1 by (simp_all add: same_node_def local_contact_def local_id_hex_def)
  have "run_lookup E a net ?t (seed_contacts E a ?t) False = Some (r, st)"
    using look unfolding run_lookup_def lookup_env_of_def s1 .
  then show thesis by (rule that) (simp_all add: walk(2,3) put_record_at_def put_requests_def same assms(3))
qed

lemma put_requests_facts:
  "map (\<lambda>(j, p, req). ct_peer_id p) (put_requests E s peers published)
     = filter (\<lambda>pid. pid \<noteq> local_id_hex E s) (map ct_peer_id peers)"
  "(j, p, req) \<in> set (put_requests E s peers published) \<Longrightarrow> MAX_LOOKUP_ROUNDS \<le> j \<and> req = AddProvider published"
proof -
  have "map (\<lambda>(j, p, req). ct_peer_id p) (map (\<lambda>(i, p). (MAX_LOOKUP_ROUNDS + i, p, AddProvider published))
      (filter (\<lambda>(i, p). ct_peer_id p \<noteq> local_id_hex E s) (List.enumerate m peers)))
     = filter (\<lambda>pid. pid \<noteq> local_id_hex E s) (map ct_peer_id peers)" for m
    by (induction peers arbitrary: m) simp_all
  then show "map (\<lambda>(j, p, req). ct_peer_id p) (put_requests E s peers published)
     = filter (\<lambda>pid. pid \<noteq> local_id_hex E s) (map ct_peer_id peers)" unfolding put_requests_def .
qed (auto simp: put_requests_def)

text \<open>In a greedy swarm the peers an announcement sends its record to are the nearest nodes.\<close>

definition accepts :: "externs \<Rightarrow> dht_service \<Rightarrow> (nat \<Rightarrow> string \<Rightarrow> dht_service) \<Rightarrow> (nat \<Rightarrow> u64) \<Rightarrow> sent_request \<Rightarrow> bool" where
  "accepts E a nodes clk = (\<lambda>(j, p, req).
     case handle_request_from E (nodes j (ct_peer_id p)) (Some (local_contact E a)) req (clk j) of
       Some (AddProviderOk, b) \<Rightarrow> True | _ \<Rightarrow> False)"

lemma announce_walk:
  assumes "externs_ok E" "greedy_swarm E a net nodes clk (content_to_key E content) world near"
    "announce_traced E a net clock content coin = Some (res, sent, a')"
    "published = own_record E a (content_to_key E content) (clock 0) (map_option to_hex64 coin)"
  shows "res = Inr (length (filter (accepts E a nodes clk) sent))"
    "distinct (map (\<lambda>(j, p, req). ct_peer_id p) sent)"
    "(\<lambda>(j, p, req). ct_peer_id p) ` set sent = near - {local_id_hex E a}" "near \<subseteq> world"
    "\<And>j p req. (j, p, req) \<in> set sent \<Longrightarrow> MAX_LOOKUP_ROUNDS \<le> j \<and> req = AddProvider published"
proof -
  let ?key = "content_to_key E content"
  have w: "swarm_serves E a net nodes clk world" "canonical_world E world" "nearest_in E ?key (cfg_k (config a)) world near"
    "ct_peer_id ` set (seed_contacts E a ?key) \<subseteq> world" "seed_contacts E a ?key \<noteq> []" "0 < alpha (config a)"
    using assms(2) by (simp_all add: greedy_swarm_def)
  note wf = wf_content_to_key[OF assms(1), of content]
  note world = canonical_world_facts[OF w(2) assms(1) wf]
  note env = swarm_greedy_env[OF assms(2) wf, where k = "cfg_k (config a)"]
  from announce_result[OF assms(3) w(5) assms(4)] obtain r st where
    r: "run_lookup E a net ?key (seed_contacts E a ?key) False = Some (r, st)"
    "res = Inr (put_record_at E a net (lr_closest r) published)" "sent = put_requests E a (lr_closest r) published" .
  note run = r(1)[unfolded run_lookup_def]
  have "walked_out (alpha (config a)) False r st"
    using closed_rounds[OF greedy_closed[OF env] run world(1) w(4) world(3)] world(4) w(6) by (simp add: walked_out_def)
  from greedy_result[OF env w(3) world(3,1) w(4,5) run this]
  have near: "near = ct_peer_id ` set (lr_closest r)" by (rule nearest_unique[OF w(3) _ world(3,2)])
  have "env_ok (lookup_env_of E a net ?key)" using env by (simp add: greedy_env_def)
  then have "distinct (map ct_peer_id (lr_closest r))" using lookup_sound_facts[OF _ run] by blast
  then show "distinct (map (\<lambda>(j, p, req). ct_peer_id p) sent)" unfolding r(3) put_requests_facts(1) by simp
  have "(\<lambda>(j, p, req). ct_peer_id p) ` set sent = set (map (\<lambda>(j, p, req). ct_peer_id p) sent)" by simp
  also have "\<dots> = near - {local_id_hex E a}" unfolding r(3) put_requests_facts(1) by (auto simp: near)
  finally show to: "(\<lambda>(j, p, req). ct_peer_id p) ` set sent = near - {local_id_hex E a}" .
  show sub: "near \<subseteq> world" using w(3) by (simp add: nearest_in_def)
  show "MAX_LOOKUP_ROUNDS \<le> j \<and> req = AddProvider published" if "(j, p, req) \<in> set sent" for j p req
    using put_requests_facts(2) that unfolding r(3) .
  have "(case x of (j, p, req) \<Rightarrow> net_rpc net j (local_contact E a) p req = Inr AddProviderOk) = accepts E a nodes clk x"
    if "x \<in> set sent" for x
  proof -
    obtain j p req where x: "x = (j, p, req)" by (cases x)
    have "ct_peer_id p \<in> world" using to sub that unfolding x by force
    with w(1) obtain resp n where "handle_request_from E (nodes j (ct_peer_id p)) (Some (local_contact E a)) req (clk j)
        = Some (resp, n)" "net_rpc net j (local_contact E a) p req = Inr resp" unfolding swarm_serves_def by blast
    then show ?thesis by (cases resp) (simp_all add: x accepts_def)
  qed
  then show "res = Inr (length (filter (accepts E a nodes clk) sent))"
    unfolding r(2) put_record_at_def r(3)[symmetric] by (simp cong: filter_cong)
qed

lemma announce_reaches_facts:
  assumes "ready E a" "greedy_swarm E a net nodes clk (content_to_key E content) world near"
    "published = own_record E a (content_to_key E content) (clock 0) (map_option to_hex64 coin)"
  shows "\<exists>sent a'. announce_traced E a net clock content coin = Some (Inr (length (filter (accepts E a nodes clk) sent)), sent, a')
    \<and> announce_provider_with_collateral E a net clock content coin = Some (Inr (length (filter (accepts E a nodes clk) sent)), a')
    \<and> distinct (map (\<lambda>(j, p, req). ct_peer_id p) sent)
    \<and> (\<lambda>(j, p, req). ct_peer_id p) ` set sent = near - {local_id_hex E a}
    \<and> (\<forall>(j, p, req)\<in>set sent. MAX_LOOKUP_ROUNDS \<le> j \<and> req = AddProvider published)"
proof -
  have E: "externs_ok E" using assms(1) by (simp add: ready_def)
  have "network_ok net" using assms(2) by (simp add: greedy_swarm_def swarm_serves_def)
  from announce_returns[OF assms(1) this, of clock content coin] obtain res sent a' where
    run: "announce_traced E a net clock content coin = Some (res, sent, a')"
    by (auto simp: returns_def announce_provider_with_collateral_def)
  from announce_walk[OF E assms(2) run assms(3)] run show ?thesis
    by (auto simp: announce_provider_with_collateral_def)
qed

text \<open>C9. An announcement reaches the nodes nearest the content. In a swarm of fewer than 64 nodes
  that all answer and whose routing tables (of \<open>k\<close> at most 64) route greedily towards the content, the
  announcement of a node that has contacts to start from, all of them nodes of the swarm, returns without an error, having sent
  its record after its walk to each of the \<open>k\<close> nearest nodes other than the announcer, once, and to
  nobody else; the count it returns is the number of those that accept the record when it reaches them.\<close>

theorem announce_reaches_nearest:
  assumes "ready E a" "greedy_swarm E a net nodes clk (content_to_key E content) world near"
    "published = own_record E a (content_to_key E content) (clock 0) (map_option to_hex64 coin)"
  shows "\<exists>sent a'. announce_traced E a net clock content coin = Some (Inr (length (filter (accepts E a nodes clk) sent)), sent, a')
    \<and> announce_provider_with_collateral E a net clock content coin = Some (Inr (length (filter (accepts E a nodes clk) sent)), a')
    \<and> distinct (map (\<lambda>(j, p, req). ct_peer_id p) sent)
    \<and> (\<lambda>(j, p, req). ct_peer_id p) ` set sent = near - {local_id_hex E a}
    \<and> (\<forall>(j, p, req)\<in>set sent. MAX_LOOKUP_ROUNDS \<le> j \<and> req = AddProvider published)"
  using assms by (rule announce_reaches_facts)

lemma accepted_record_served:
  assumes "svc_inv E hi b" "ps_lookup (authoritative b) ck pid = Some e" "pe_record e = sanitized E r ceiling"
    "content_key r = ck" "\<not> is_expired (sanitized E r ceiling) now"
  shows "\<exists>r\<in>set (ps_get (authoritative b) ck now). content_key r = ck"
proof -
  have "store_ok (authoritative b)" using assms(1) by (simp add: svc_inv_def authoritative_inv_def store_inv_def)
  from get_mem[OF this] assms(2,3,5) have "sanitized E r ceiling \<in> set (ps_get (authoritative b) ck now)" by metis
  moreover have "content_key (sanitized E r ceiling) = ck" using assms(4) by (simp add: sanitized_def)
  ultimately show ?thesis by blast
qed

text \<open>C7. What is announced is found, across a swarm. In a swarm of fewer than 64 nodes that all
  answer and whose routing tables (of \<open>k\<close> at most 64) route greedily towards a content, a node
  announces the content, starting from contacts in the swarm, and one of the nodes it sends
  its record to accepts it. Then any node of the same \<open>k\<close>, with contacts to start from, all in the swarm, and no
  cached record of the content, that searches for it in the swarm while that one node still holds the record and the record has not expired
  there, finds a provider, and returns only records of its own store or of the nodes' stores; as long as
  no record the nodes serve for the content expires before the search ends. Nothing is asked of the other
  nodes it was sent to.\<close>

theorem announce_then_search:
  assumes "ready E a" "greedy_swarm E a net_a nodes_a clk_a (content_to_key E content) world near"
    "announce_traced E a net_a clock_a content coin = Some (res, sent, a')" "(j, peer, req) \<in> set sent"
    "handle_request_from E (nodes_a j (ct_peer_id peer)) (Some (local_contact E a)) req (clk_a j) = Some (AddProviderOk, b)"
    "ready E c" "greedy_swarm E c net_c nodes_c clk_c (content_to_key E content) world near"
    "ck = to_hex (content_to_key E content)"
    "\<And>i. ps_lookup (authoritative (nodes_c i (ct_peer_id peer))) ck (local_id_hex E a)
        = ps_lookup (authoritative b) ck (local_id_hex E a)"
    "\<And>i. clk_c i < saturating_add (clock_a 0) (provider_ttl_secs (config a))"
    "\<And>i. clk_c i < saturating_add (clk_a j) (provider_ttl_secs (config (nodes_a j (ct_peer_id peer))))"
    "\<And>i. svc_inv E hi (nodes_c i (ct_peer_id peer))"
    "\<And>r. r \<in> held_in nodes_c clk_c world ck \<Longrightarrow> \<not> is_expired r (clock_c 2)"
    "ps_get (discovered c) ck (clock_c 0) = []"
  shows "\<exists>rs c'. find_providers E c net_c clock_c content = Some (Inr rs, c') \<and> rs \<noteq> []
    \<and> set rs \<subseteq> set (ps_get (authoritative c) ck (clock_c 0)) \<union> normalize_discovered E ` held_in nodes_c clk_c world ck"
proof -
  have E: "externs_ok E" using assms(1) by (simp add: ready_def)
  let ?pub = "own_record E a (content_to_key E content) (clock_a 0) (map_option to_hex64 coin)"
  let ?c = "saturating_add (clk_a j) (provider_ttl_secs (config (nodes_a j (ct_peer_id peer))))"
  note sent = announce_walk[OF E assms(2,3) refl]
  have near: "ct_peer_id peer \<in> near" using sent(3) assms(4) by force
  have "req = AddProvider ?pub" using sent(5)[OF assms(4)] by simp
  from add_provider_stored[OF assms(5)[unfolded this]] obtain e where e:
    "ps_lookup (authoritative b) ck (local_id_hex E a) = Some e" "pe_record e = sanitized E ?pub ?c"
    by (auto simp: assms(8))
  have "\<exists>r\<in>set (ps_get (authoritative (nodes_c i (ct_peer_id peer))) ck (clk_c i)). content_key r = ck" for i
  proof (rule accepted_record_served[OF assms(12) _ e(2)])
    show "ps_lookup (authoritative (nodes_c i (ct_peer_id peer))) ck (local_id_hex E a) = Some e"
      using assms(9) e(1) by simp
    show "\<not> is_expired (sanitized E ?pub ?c) (clk_c i)"
      using assms(10)[of i] assms(11)[of i] by (simp add: is_expired_def sanitized_def min_less_iff_disj not_le)
  qed (simp add: assms(8))
  from swarm_search_facts[OF assms(6,7) near assms(8) this assms(13,14)] show ?thesis .
qed

end
