(* ===== verification/Swarm_Example.thy ===== *)
theory Swarm_Example
  imports Swarm_Search
begin

text \<open>
  A swarm of three nodes, for the witnesses: buckets of one contact, one node at the very key of the
  content, the other two knowing only it.
\<close>

definition meet_key :: peer_id where
  "meet_key = content_to_key sample_externs held_content"

definition small_config :: dht_config where
  "small_config = default_config\<lparr>cfg_k := 1\<rparr>"

definition meet_ids :: "peer_id set" where
  "meet_ids = {meet_key, replicate 32 7, replicate 32 9}"

definition meet_world :: "string set" where
  "meet_world = to_hex ` meet_ids"

definition meet_node :: "peer_id \<Rightarrow> dht_service" where
  "meet_node pid = (let s = service_new pid [] small_config in
     if pid = meet_key then s else the (add_peer sample_externs s meet_key []))"

definition in_meeting :: "dht_service \<Rightarrow> bool" where
  "in_meeting s \<longleftrightarrow> ready sample_externs s \<and> svc_inv sample_externs 100 s \<and> config s = small_config
     \<and> local_id s \<in> meet_ids \<and> rt_ids (routing s) \<subseteq> meet_world
     \<and> (local_id s = meet_key \<or> to_hex meet_key \<in> rt_ids (routing s))"

lemma meet_key_facts:
  "length meet_key = 32" "meet_key \<noteq> replicate 32 7" "meet_key \<noteq> replicate 32 9"
  "content_to_key sample_externs held_content = meet_key" "\<forall>p\<in>meet_ids. length p = 32"
proof -
  show len: "length meet_key = 32"
    unfolding meet_key_def using wf_content_to_key[OF sample_externs_ok] by (simp add: wf_key_def)
  have "hd meet_key = 1"
    by (simp add: meet_key_def held_content_def content_to_key_def key_from_bytes_def TAG_STORE_def)
  then have "hd meet_key \<noteq> hd (replicate 32 7)" "hd meet_key \<noteq> hd (replicate 32 9)" by simp_all
  then show "meet_key \<noteq> replicate 32 7" "meet_key \<noteq> replicate 32 9" by metis+
  show "content_to_key sample_externs held_content = meet_key" by (simp add: meet_key_def)
  show "\<forall>p\<in>meet_ids. length p = 32" using len by (simp add: meet_ids_def)
qed

lemma small_config_sel [simp]:
  "cfg_k small_config = 1" "alpha small_config = 3" "provider_ttl_secs small_config = provider_ttl_secs default_config"
  "provider_store_limits small_config = provider_store_limits default_config"
  "discovery_cache_limits small_config = discovery_cache_limits default_config"
  by (simp_all add: small_config_def default_config_def provider_ttl_secs_def)

lemma meet_node_in: 
  assumes "pid \<in> meet_ids"
  shows "in_meeting (meet_node pid)" "local_id (meet_node pid) = pid" "by_key (authoritative (meet_node pid)) = []"
    "limits (authoritative (meet_node pid)) = default_limits" "by_key (discovered (meet_node pid)) = []"
proof -
  let ?s = "service_new pid [] small_config"
  have len: "length pid = 32" using assms meet_key_facts(5) by blast
  have inv: "svc_inv sample_externs 100 ?s" by (rule service_new_inv[OF len])
  have sel: "config ?s = small_config" "local_id ?s = pid" "by_key (authoritative ?s) = []"
    "limits (authoritative ?s) = default_limits" "by_key (discovered ?s) = []" "routing ?s = rt_new pid 1"
    by (simp_all add: service_new_def ps_with_limits_def default_config_def)
  have sane: "config_sane small_config" by (simp add: config_sane_def)
  have ready: "ready sample_externs ?s" by (rule ready_inv[OF sample_externs_ok inv]) (simp add: sel sane)
  have empty: "rt_contacts (rt_new pid 1) = []"
    by (simp add: rt_contacts_def rt_new_def kbucket_new_def comp_def del: upt_rec_numeral)
  have "in_meeting (meet_node pid) \<and> local_id (meet_node pid) = pid \<and> by_key (authoritative (meet_node pid)) = []
      \<and> limits (authoritative (meet_node pid)) = default_limits \<and> by_key (discovered (meet_node pid)) = []"
  proof (cases "pid = meet_key")
    case True
    with inv ready assms sel empty show ?thesis
      by (simp add: meet_node_def in_meeting_def rt_ids_def)
  next
    case False
    let ?c = "contact_new sample_externs meet_key []"
    have id: "ct_peer_id ?c = to_hex meet_key" by (simp add: contact_new_def)
    have key: "contact_key sample_externs ?c = Some meet_key"
      using meet_key_facts(1) by (simp add: contact_key_def contact_peer_id_def id hex64_to_hex key_from_peer_id_def)
    have wf: "rt_wf sample_externs (rt_new pid 1)" "rt_k (rt_new pid 1) = 1" "rt_local_key (rt_new pid 1) = pid"
      by (rule rt_new_wf[OF len]) (simp_all add: rt_new_def key_from_peer_id_def)
    have r: "routable sample_externs (rt_new pid 1) ?c" using False by (simp add: routable_def key rt_new_def key_from_peer_id_def)
    from rt_insert_first[OF sample_externs_ok wf(1) _ empty r] wf(2) obtain t where
      t: "rt_insert sample_externs (rt_new pid 1) ?c = Some (Inserted, t)" by auto
    have add: "add_peer sample_externs ?s meet_key [] = Some (?s\<lparr>routing := t\<rparr>)"
      unfolding add_peer_def sel t by simp
    then have node: "meet_node pid = ?s\<lparr>routing := t\<rparr>" using False by (simp add: meet_node_def)
    have "ready sample_externs (?s\<lparr>routing := t\<rparr>)"
      using rt_insert_returns[OF ready, of ?c] t by (simp add: returns_def sel)
    moreover have "svc_inv sample_externs 100 (?s\<lparr>routing := t\<rparr>)"
      using svc_steps_inv[OF add_peer_steps[OF add] sample_externs_ok inv] .
    moreover have "rt_ids t = {to_hex meet_key}"
      using rt_insert_ids[OF sample_externs_ok wf(1) t] r empty id by (simp add: rt_ids_def)
    ultimately show ?thesis using assms sel by (simp add: node in_meeting_def meet_world_def meet_ids_def)
  qed
  then show "in_meeting (meet_node pid)" "local_id (meet_node pid) = pid"
    "by_key (authoritative (meet_node pid)) = []" "limits (authoritative (meet_node pid)) = default_limits"
    "by_key (discovered (meet_node pid)) = []"
    by blast+
qed

lemma in_meeting_keeps:
  assumes "in_meeting s" "handle_request_from sample_externs s (Some c) req 0 = Some (resp, s')"
    "ct_peer_id c \<in> meet_world" "\<forall>r. req = AddProvider r \<longrightarrow> provider_peer_id r = ct_peer_id c"
  shows "in_meeting s'" "local_id s' = local_id s"
proof -
  have st: "steps sample_externs 100 s s'" by (rule handle_request_steps[OF assms(2)]) simp
  note frame = svc_steps_frame[OF st] 
  from assms(1) have s: "rt_wf sample_externs (routing s)" "svc_inv sample_externs 100 s" "config_sane (config s)"
    unfolding in_meeting_def ready_def by blast+
  have inv: "svc_inv sample_externs 100 s'" by (rule svc_steps_inv[OF st sample_externs_ok s(2)])
  have "ready sample_externs s'" using ready_inv[OF sample_externs_ok inv] frame s(3) by simp
  note taught = handle_request_ids[OF sample_externs_ok s(1) assms(2)]
  have "to_hex ` set_option (record_peer_id sample_externs r) \<subseteq> meet_world" if "req = AddProvider r" for r
  proof -
    from assms(3) obtain p where "ct_peer_id c = to_hex p" "length p = 32" "p \<in> meet_ids"
      using meet_key_facts(5) by (auto simp: meet_world_def)
    with assms(4) that show ?thesis by (auto simp: record_peer_id_def hex64_to_hex meet_world_def)
  qed
  with taught assms(1,3) have "rt_ids (routing s') \<subseteq> meet_world"
    unfolding in_meeting_def by (cases req) auto
  with inv \<open>ready sample_externs s'\<close> frame taught assms(1) show "in_meeting s'" "local_id s' = local_id s"
    unfolding in_meeting_def by auto
qed

text \<open>Everybody in the meeting routes greedily towards the content: the node at its key is the nearest.\<close>

lemma meet_distance:
  assumes "pid \<in> meet_ids"
  shows "pid_distance sample_externs meet_key (to_hex pid) = distance meet_key pid"
    "pid \<noteq> meet_key \<Longrightarrow> distance meet_key meet_key < distance meet_key pid"
proof -
  have len: "length pid = 32" using assms meet_key_facts(5) by blast
  show "pid_distance sample_externs meet_key (to_hex pid) = distance meet_key pid"
    using len by (simp add: pid_distance_def hex64_to_hex key_from_peer_id_def)
  assume "pid \<noteq> meet_key"
  then have ne: "distance meet_key pid \<noteq> distance_zero"
    using distance_zero_iff[of meet_key pid] len meet_key_facts(1) by (auto simp: wf_key_def)
  have "be_val (distance meet_key pid) \<noteq> 0"
    unfolding be_val_zero_iff using ne replicate_eqI[of "distance meet_key pid" 32 0]
    by (auto simp: distance_zero_def length_distance)
  moreover have "be_val distance_zero = 0" by (simp add: be_val_zero_iff distance_zero_def)
  ultimately have "be_val distance_zero < be_val (distance meet_key pid)" by linarith
  then show "distance meet_key meet_key < distance meet_key pid"
    unfolding distance_self by (subst be_val_less_iff[symmetric]) (simp_all add: length_distance distance_zero_def)
qed

lemma in_meeting_greedy:
  assumes "in_meeting s"
  shows "greedy_node sample_externs meet_key meet_world {to_hex meet_key} (to_hex (local_id s)) s"
proof -
  let ?cl = "rt_closest sample_externs (routing s) meet_key"
  from assms have s: "rt_wf sample_externs (routing s)" "rt_k (routing s) = 1" "rt_ids (routing s) \<subseteq> meet_world"
    by (simp_all add: in_meeting_def ready_def)
  note f = rt_closest_facts[OF sample_externs_ok s(1), of meet_key]
  have sub: "ct_peer_id ` set ?cl \<subseteq> meet_world" using f s(3) by (auto simp: rt_ids_def)
  have "\<exists>y\<in>ct_peer_id ` set ?cl. pid_distance sample_externs meet_key y
      < pid_distance sample_externs meet_key (to_hex (local_id s))" if other: "local_id s \<noteq> meet_key"
  proof -
    from assms other obtain c where c: "c \<in> set (rt_contacts (routing s))" "ct_peer_id c = to_hex meet_key"
      by (auto simp: in_meeting_def rt_ids_def)
    then have "0 < rt_len (routing s)" by (cases "rt_contacts (routing s)") (auto simp: rt_len_contacts)
    with f s(2) obtain x where x: "?cl = [x]" by (auto simp: length_Suc_conv)
    have dist: "contact_distance sample_externs meet_key y = pid_distance sample_externs meet_key (ct_peer_id y)"
      if "y \<in> set (rt_contacts (routing s))" for y
      using s(3) that meet_key_facts(5)
      by (force simp: contact_distance_def pid_distance_def contact_key_def contact_peer_id_def rt_ids_def meet_world_def hex64_to_hex)
    have "contact_distance sample_externs meet_key x \<le> contact_distance sample_externs meet_key c"
      using f x c(1) by (cases "c = x") auto
    moreover have "x \<in> set (rt_contacts (routing s))" using f x by auto
    ultimately have "pid_distance sample_externs meet_key (ct_peer_id x) \<le> distance meet_key meet_key"
      using dist c meet_distance(1)[of meet_key] by (simp add: meet_ids_def)
    moreover from assms other have "distance meet_key meet_key < pid_distance sample_externs meet_key (to_hex (local_id s))"
      using meet_distance[of "local_id s"] by (simp add: in_meeting_def)
    ultimately show ?thesis using x by (auto intro: le_less_trans)
  qed
  then show ?thesis
    using sub s(2) by (cases "local_id s = meet_key") (auto simp: greedy_node_def names_nearer_def)
qed

lemma meet_world_facts:
  "canonical_world sample_externs meet_world" "nearest_in sample_externs meet_key 1 meet_world {to_hex meet_key}"
proof -
  have "card meet_world \<le> card meet_ids" unfolding meet_world_def by (intro card_image_le) (simp add: meet_ids_def)
  also have "card meet_ids \<le> 3" by (simp add: meet_ids_def card_insert_if)
  finally have "card meet_world < 64" by simp
  moreover have "finite meet_world" by (simp add: meet_world_def meet_ids_def)
  ultimately show "canonical_world sample_externs meet_world"
    unfolding canonical_world_def using meet_key_facts(5) by (auto simp: meet_world_def)
  have "1 \<le> card meet_world" by (simp add: meet_world_def meet_ids_def card_insert_if)
  moreover have "pid_distance sample_externs meet_key (to_hex meet_key) \<le> pid_distance sample_externs meet_key y"
    if "y \<in> meet_world" for y
  proof -
    from that obtain p where "p \<in> meet_ids" "y = to_hex p" by (auto simp: meet_world_def)
    then show ?thesis
      using meet_distance[of p] meet_distance(1)[of meet_key] by (cases "p = meet_key") (auto simp: meet_ids_def less_imp_le)
  qed
  ultimately show "nearest_in sample_externs meet_key 1 meet_world {to_hex meet_key}"
    by (auto simp: nearest_in_def meet_world_def meet_ids_def)
qed

text \<open>The network of one operation of a node, over given states of the nodes, at time 0.\<close>

definition meet_net :: "(string \<Rightarrow> dht_service) \<Rightarrow> string network" where
  "meet_net nodes = \<lparr>net_rpc = (\<lambda>i from peer req.
       Inr (fst (the (handle_request_from sample_externs (nodes (ct_peer_id peer)) (Some from) req 0)))),
     net_order = (\<lambda>r cs. cs), net_task_fails = (\<lambda>r c. False)\<rparr>"

lemma meet_swarm:
  assumes "in_meeting s" "local_id s \<noteq> meet_key" "\<And>p. p \<in> meet_ids \<Longrightarrow> in_meeting (nodes (to_hex p)) \<and> local_id (nodes (to_hex p)) = p"
  shows "greedy_swarm sample_externs s (meet_net nodes) (\<lambda>i. nodes) (\<lambda>i. 0) meet_key meet_world {to_hex meet_key}"
proof -
  have me: "ct_peer_id (local_contact sample_externs s) \<in> meet_world"
    using assms(1) by (simp add: local_contact_def contact_new_def in_meeting_def meet_world_def)
  have node: "in_meeting (nodes pid) \<and> to_hex (local_id (nodes pid)) = pid" if "pid \<in> meet_world" for pid
    using that assms(3) by (auto simp: meet_world_def)
  have serves: "swarm_serves sample_externs s (meet_net nodes) (\<lambda>i. nodes) (\<lambda>i. 0) meet_world"
    unfolding swarm_serves_def
  proof (intro conjI allI impI)
    fix c :: contact and req assume "ct_peer_id c \<in> meet_world"
    then have "ready sample_externs (nodes (ct_peer_id c))" using node by (simp add: in_meeting_def)
    from handle_request_returns[OF this, of "Some (local_contact sample_externs s)" req 0]
    show "\<exists>resp n. handle_request_from sample_externs (nodes (ct_peer_id c)) (Some (local_contact sample_externs s)) req 0
        = Some (resp, n) \<and> net_rpc (meet_net nodes) i (local_contact sample_externs s) c req = Inr resp" for i
      by (auto simp: returns_def meet_net_def)
  qed (simp_all add: network_ok_def meet_net_def)
  have greedy: "greedy_node sample_externs meet_key meet_world {to_hex meet_key} pid n"
    if "pid \<in> meet_world" "handle_request_from sample_externs (nodes pid) (Some (local_contact sample_externs s))
      (FindProviders (to_hex meet_key)) 0 = Some (resp, n)" for pid resp n
    using in_meeting_keeps[OF _ that(2) me] in_meeting_greedy[of n] node[OF that(1)] by auto
  have "to_hex (local_id s) \<noteq> to_hex meet_key"
    using assms(1,2) meet_key_facts(1,5) by (metis hex64_to_hex in_meeting_def option.inject)
  with in_meeting_greedy[OF assms(1)] have "seed_contacts sample_externs s meet_key \<noteq> []"
    "ct_peer_id ` set (seed_contacts sample_externs s meet_key) \<subseteq> meet_world"
    by (auto simp: greedy_node_def names_nearer_def seed_contacts_def)
  with serves greedy meet_world_facts assms(1) show ?thesis
    by (auto simp: greedy_swarm_def in_meeting_def)
qed

definition meet_announcer :: dht_service where "meet_announcer = meet_node (replicate 32 7)"
definition meet_seeker :: dht_service where "meet_seeker = meet_node (replicate 32 9)"

definition meet_before :: "string \<Rightarrow> dht_service" where
  "meet_before pid = meet_node (the (hex64_to_bytes pid))"

definition meet_record :: provider_record where
  "meet_record = own_record sample_externs meet_announcer meet_key 0 None"

definition meet_after :: "string \<Rightarrow> dht_service" where
  "meet_after pid = snd (the (handle_request_from sample_externs (meet_before pid)
     (Some (local_contact sample_externs meet_announcer)) (AddProvider meet_record) 0))"

lemma meet_nodes:
  "in_meeting meet_announcer" "local_id meet_announcer = replicate 32 7"
  "in_meeting meet_seeker" "local_id meet_seeker = replicate 32 9"
  using meet_node_in by (simp_all add: meet_announcer_def meet_seeker_def meet_ids_def)

lemma meet_before_in: "p \<in> meet_ids \<Longrightarrow> in_meeting (meet_before (to_hex p)) \<and> local_id (meet_before (to_hex p)) = p"
  using meet_node_in[of p] meet_key_facts(5) by (simp add: meet_before_def hex64_to_hex)

lemma meet_contact: "ct_peer_id (local_contact sample_externs meet_announcer) = to_hex (replicate 32 7)"
  by (simp add: local_contact_def contact_new_def meet_nodes)

lemma meet_accepts:
  assumes "p \<in> meet_ids"
  shows "handle_request_from sample_externs (meet_before (to_hex p)) (Some (local_contact sample_externs meet_announcer))
    (AddProvider meet_record) 0 = Some (AddProviderOk, meet_after (to_hex p))"
proof -
  let ?s = "meet_before (to_hex p)"
  have node: "ready sample_externs ?s" "svc_inv sample_externs 100 ?s" using meet_before_in[OF assms] by (simp_all add: in_meeting_def)
  have "ps_len (authoritative ?s) < max_total_records (limits (authoritative ?s))"
    using meet_node_in[OF assms] meet_key_facts(5) assms by (simp add: meet_before_def hex64_to_hex ps_len_def default_limits_def)
  moreover have "store_ok (authoritative ?s)" using node(2) by (simp add: svc_inv_def authoritative_inv_def store_inv_def)
  ultimately obtain s' where "handle_request_from sample_externs ?s (Some (local_contact sample_externs meet_announcer))
    (AddProvider meet_record) 0 = Some (AddProviderOk, s')"
    using add_provider_room[OF node(1) refl, of "local_contact sample_externs meet_announcer" meet_record 0]
    by (auto simp: meet_contact meet_record_def local_id_hex_def meet_nodes)
  then show ?thesis by (simp add: meet_after_def)
qed

lemma meet_after_in: "p \<in> meet_ids \<Longrightarrow> in_meeting (meet_after (to_hex p)) \<and> local_id (meet_after (to_hex p)) = p"
proof -
  assume p: "p \<in> meet_ids"
  have "ct_peer_id (local_contact sample_externs meet_announcer) \<in> meet_world"
    "provider_peer_id meet_record = ct_peer_id (local_contact sample_externs meet_announcer)"
    by (simp_all add: meet_contact meet_world_def meet_ids_def meet_record_def local_id_hex_def meet_nodes)
  with in_meeting_keeps[OF _ meet_accepts[OF p]] meet_before_in[OF p] show ?thesis by auto
qed

lemma meet_swarms:
  "greedy_swarm sample_externs meet_announcer (meet_net meet_before) (\<lambda>i. meet_before) (\<lambda>i. 0)
     (content_to_key sample_externs held_content) meet_world {to_hex meet_key}"
  "greedy_swarm sample_externs meet_seeker (meet_net meet_after) (\<lambda>i. meet_after) (\<lambda>i. 0)
     (content_to_key sample_externs held_content) meet_world {to_hex meet_key}"
  "ready sample_externs meet_announcer" "ready sample_externs meet_seeker"
proof -
  show "greedy_swarm sample_externs meet_announcer (meet_net meet_before) (\<lambda>i. meet_before) (\<lambda>i. 0)
     (content_to_key sample_externs held_content) meet_world {to_hex meet_key}"
    unfolding meet_key_facts(4) using meet_nodes meet_before_in meet_key_facts(2) by (intro meet_swarm) auto
  show "greedy_swarm sample_externs meet_seeker (meet_net meet_after) (\<lambda>i. meet_after) (\<lambda>i. 0)
     (content_to_key sample_externs held_content) meet_world {to_hex meet_key}"
    unfolding meet_key_facts(4) using meet_nodes meet_after_in meet_key_facts(3) by (intro meet_swarm) auto
  show "ready sample_externs meet_announcer" "ready sample_externs meet_seeker"
    using meet_nodes by (simp_all add: in_meeting_def)
qed

lemma meet_seeker_cache: "ps_get (discovered meet_seeker) ck now = []"
  using meet_node_in(5)[of "replicate 32 9"] by (simp add: meet_seeker_def meet_ids_def ps_get_def)

lemma meet_held: "r \<in> held_in (\<lambda>i. meet_after) (\<lambda>i. 0) meet_world ck \<Longrightarrow> \<not> is_expired r 0"
  by (auto simp: held_in_def ps_get_def live_providers_def split: option.splits)

lemma meet_ttl: "(0 :: u64) < saturating_add 0 (provider_ttl_secs small_config)"
  by (simp add: saturating_add_def config_defs small_config_def default_config_def)

lemma meet_accepts_sent:
  assumes "(\<lambda>(j, p, req). ct_peer_id p) ` set sent = {to_hex meet_key}"
    "\<forall>(j, p, req)\<in>set sent. MAX_LOOKUP_ROUNDS \<le> j \<and> req = AddProvider meet_record" "x \<in> set sent"
  shows "accepts sample_externs meet_announcer (\<lambda>i. meet_before) (\<lambda>i. 0) x"
proof -
  obtain j p req where x: "x = (j, p, req)" by (cases x)
  have "ct_peer_id p \<in> (\<lambda>(j, p, req). ct_peer_id p) ` set sent"
    using assms(3) unfolding x by (rule rev_image_eqI) simp
  then have "ct_peer_id p = to_hex meet_key" "req = AddProvider meet_record"
    using assms(1,2) bspec[OF assms(2,3)] by (simp_all add: x)
  moreover have "meet_key \<in> meet_ids" by (simp add: meet_ids_def)
  ultimately show ?thesis by (simp add: x accepts_def meet_accepts)
qed

lemma meet_others: "{to_hex meet_key} - {local_id_hex sample_externs meet_announcer} = {to_hex meet_key}"
proof -
  have "to_hex (replicate 32 7) \<noteq> to_hex meet_key"
    using meet_key_facts by (metis hex64_to_hex length_replicate option.inject)
  then show ?thesis by (auto simp: local_id_hex_def meet_nodes)
qed

lemma meet_record_eq: "meet_record = own_record sample_externs meet_announcer (content_to_key sample_externs held_content)
    ((\<lambda>_. 0) (0 :: nat)) (map_option to_hex64 None)"
  by (simp add: meet_record_def meet_key_facts(4))

text \<open>The announcement of the example: one PUT, at the node of the key, accepted.\<close>

lemma one_sent:
  assumes "distinct (map (\<lambda>(j, p, req). ct_peer_id p) sent)" "(\<lambda>(j, p, req). ct_peer_id p) ` set sent = {pid}"
  shows "length sent = 1"
  using assms by (metis card.empty card_insert_disjoint distinct_card empty_iff finite.emptyI length_map list.set_map One_nat_def)

lemma meet_announced:
  "\<exists>sent a'. announce_traced sample_externs meet_announcer (meet_net meet_before) (\<lambda>_. 0) held_content None
      = Some (Inr 1, sent, a')
    \<and> (\<lambda>(j, p, req). ct_peer_id p) ` set sent = {to_hex meet_key}
    \<and> (\<forall>(j, p, req)\<in>set sent. req = AddProvider meet_record)"
proof -
  from announce_reaches_facts[OF meet_swarms(3,1) meet_record_eq] obtain sent a' where
    run: "announce_traced sample_externs meet_announcer (meet_net meet_before) (\<lambda>_. 0) held_content None
      = Some (Inr (length (filter (accepts sample_externs meet_announcer (\<lambda>i. meet_before) (\<lambda>i. 0)) sent)), sent, a')"
    "distinct (map (\<lambda>(j, p, req). ct_peer_id p) sent)"
    "(\<lambda>(j, p, req). ct_peer_id p) ` set sent = {to_hex meet_key}"
    "\<forall>(j, p, req)\<in>set sent. MAX_LOOKUP_ROUNDS \<le> j \<and> req = AddProvider meet_record"
    unfolding meet_others by blast
  have "filter (accepts sample_externs meet_announcer (\<lambda>i. meet_before) (\<lambda>i. 0)) sent = sent"
    using meet_accepts_sent[OF run(3,4)] by (intro filter_True) blast
  with run one_sent[OF run(2,3)] show ?thesis by (intro exI[of _ sent] exI[of _ a']) auto
qed

theorem announce_reaches_nearest_witness:
  "\<exists>sent a'. announce_traced sample_externs meet_announcer (meet_net meet_before) (\<lambda>_. 0) held_content None
      = Some (Inr 1, sent, a')
    \<and> announce_provider_with_collateral sample_externs meet_announcer (meet_net meet_before) (\<lambda>_. 0) held_content None
      = Some (Inr 1, a')
    \<and> (\<lambda>(j, p, req). ct_peer_id p) ` set sent = {to_hex meet_key}"
proof -
  from announce_reaches_nearest[OF meet_swarms(3,1) meet_record_eq] obtain sent a' where
    run: "announce_traced sample_externs meet_announcer (meet_net meet_before) (\<lambda>_. 0) held_content None
      = Some (Inr (length (filter (accepts sample_externs meet_announcer (\<lambda>i. meet_before) (\<lambda>i. 0)) sent)), sent, a')"
    "announce_provider_with_collateral sample_externs meet_announcer (meet_net meet_before) (\<lambda>_. 0) held_content None
      = Some (Inr (length (filter (accepts sample_externs meet_announcer (\<lambda>i. meet_before) (\<lambda>i. 0)) sent)), a')"
    "distinct (map (\<lambda>(j, p, req). ct_peer_id p) sent)"
    "(\<lambda>(j, p, req). ct_peer_id p) ` set sent = {to_hex meet_key}"
    "\<forall>(j, p, req)\<in>set sent. MAX_LOOKUP_ROUNDS \<le> j \<and> req = AddProvider meet_record"
    unfolding meet_others by blast
  have "filter (accepts sample_externs meet_announcer (\<lambda>i. meet_before) (\<lambda>i. 0)) sent = sent"
    using meet_accepts_sent[OF run(4,5)] by (intro filter_True) blast
  with run one_sent[OF run(3,4)] show ?thesis by (intro exI[of _ sent] exI[of _ a']) auto
qed

theorem request_teaches_only_participants_witness:
  "\<exists>resp s'. handle_request_from sample_externs meet_seeker (Some (local_contact sample_externs meet_announcer)) (Ping 7) 0
      = Some (resp, s')
    \<and> rt_ids (routing meet_seeker) \<subseteq> rt_ids (routing s')
    \<and> rt_ids (routing s') \<subseteq> insert (to_hex (replicate 32 7)) (rt_ids (routing meet_seeker))"
proof -
  from handle_request_returns[OF meet_swarms(4), of "Some (local_contact sample_externs meet_announcer)" "Ping 7" 0] obtain resp s' where h:
    "handle_request_from sample_externs meet_seeker (Some (local_contact sample_externs meet_announcer)) (Ping 7) 0
      = Some (resp, s')" by (auto simp: returns_def)
  have "rt_wf sample_externs (routing meet_seeker)" using meet_swarms(4) by (simp add: ready_def)
  from request_teaches_only_participants[OF sample_externs_ok this h] h show ?thesis by (simp add: meet_contact)
qed

theorem swarm_search_succeeds_witness:
  "\<exists>rs s'. find_providers sample_externs meet_seeker (meet_net meet_after) (\<lambda>_. 0) held_content = Some (Inr rs, s') \<and> rs \<noteq> []"
proof -
  have key: "meet_key \<in> meet_ids" "to_hex meet_key \<in> meet_world" by (simp_all add: meet_ids_def meet_world_def)
  let ?c = "saturating_add 0 (provider_ttl_secs (config (meet_before (to_hex meet_key))))"
  have cfg: "config (meet_before (to_hex meet_key)) = small_config" "config meet_announcer = small_config"
    using meet_before_in[OF key(1)] meet_nodes by (simp_all add: in_meeting_def)
  from add_provider_stored[OF meet_accepts[OF key(1)]] obtain e where
    e: "ps_lookup (authoritative (meet_after (to_hex meet_key))) (to_hex meet_key) (local_id_hex sample_externs meet_announcer) = Some e"
      "pe_record e = sanitized sample_externs meet_record ?c"
    by (auto simp: meet_record_def)
  have inv: "svc_inv sample_externs 100 (meet_after (to_hex meet_key))"
    using meet_after_in[OF key(1)] by (simp add: in_meeting_def)
  have "\<not> is_expired (sanitized sample_externs meet_record ?c) 0"
    using meet_ttl by (simp add: is_expired_def sanitized_def meet_record_def cfg not_le)
  from accepted_record_served[OF inv e _ this]
  have "\<exists>r\<in>set (ps_get (authoritative (meet_after (to_hex meet_key))) (to_hex meet_key) 0). content_key r = to_hex meet_key"
    by (simp add: meet_record_def)
  then show ?thesis
    using swarm_search_succeeds[OF meet_swarms(4,2) _ refl, of "to_hex meet_key" "\<lambda>_. 0"] meet_held meet_seeker_cache
    unfolding meet_key_facts(4) by blast
qed

theorem announce_then_search_witness:
  "\<exists>sent a' rs c'. announce_traced sample_externs meet_announcer (meet_net meet_before) (\<lambda>_. 0) held_content None
      = Some (Inr 1, sent, a')
    \<and> find_providers sample_externs meet_seeker (meet_net meet_after) (\<lambda>_. 0) held_content = Some (Inr rs, c') \<and> rs \<noteq> []"
proof -
  from meet_announced obtain sent a' where
    a': "announce_traced sample_externs meet_announcer (meet_net meet_before) (\<lambda>_. 0) held_content None
      = Some (Inr 1, sent, a')"
    "(\<lambda>(j, p, req). ct_peer_id p) ` set sent = {to_hex meet_key}"
    "\<forall>(j, p, req)\<in>set sent. req = AddProvider meet_record" by blast
  obtain x where x: "x \<in> set sent" "to_hex meet_key = (\<lambda>(j, p, req). ct_peer_id p) x"
    using a'(2) by (metis (lifting) imageE insertI1)
  obtain j p req where "x = (j, p, req)" by (cases x)
  with x bspec[OF a'(3) x(1)] have p: "(j, p, AddProvider meet_record) \<in> set sent" "ct_peer_id p = to_hex meet_key"
    by simp_all
  have key: "meet_key \<in> meet_ids" by (simp add: meet_ids_def)
  note accepted = meet_accepts[OF key, folded p(2)]
  have after: "svc_inv sample_externs 100 (meet_after (to_hex meet_key))"
    "config (meet_before (to_hex meet_key)) = small_config" "config meet_announcer = small_config"
    using meet_after_in[OF key] meet_before_in[OF key] meet_nodes by (simp_all add: in_meeting_def)
  have "\<exists>rs c'. find_providers sample_externs meet_seeker (meet_net meet_after) (\<lambda>_. 0) held_content = Some (Inr rs, c')
    \<and> rs \<noteq> [] \<and> set rs \<subseteq> set (ps_get (authoritative meet_seeker) (to_hex meet_key) 0)
       \<union> normalize_discovered sample_externs ` held_in (\<lambda>i. meet_after) (\<lambda>i. 0) meet_world (to_hex meet_key)"
    using after meet_held meet_seeker_cache meet_ttl
    by (intro announce_then_search[OF meet_swarms(3,1) a'(1) p(1) accepted meet_swarms(4,2),
          where clock_c = "\<lambda>_. 0" and hi = "100"])
      (auto simp: meet_key_facts(4) p(2))
  with a'(1) show ?thesis by blast
qed

text \<open>An announcement with its walk, and the request it sends.\<close>

theorem methods_refine_sections_witness:
  "\<exists>a'. announce_provider_with_collateral sample_externs meet_announcer (meet_net meet_before) (\<lambda>_. 0) held_content None
        = Some (Inr 1, a')
     \<and> steps sample_externs 100 meet_announcer a'
     \<and> to_hex meet_key \<in> set (ps_local_announcements (authoritative a'))
     \<and> by_key (authoritative (meet_before (to_hex meet_key))) = []
     \<and> steps sample_externs 100 (meet_before (to_hex meet_key)) (meet_after (to_hex meet_key))
     \<and> ps_lookup (authoritative (meet_after (to_hex meet_key))) (to_hex meet_key) (to_hex (replicate 32 7)) \<noteq> None"
proof -
  have key: "meet_key \<in> meet_ids" by (simp add: meet_ids_def)
  have inv: "svc_inv sample_externs 100 meet_announcer" "svc_inv sample_externs 100 (meet_before (to_hex meet_key))"
    using meet_nodes meet_before_in[OF key] by (simp_all add: in_meeting_def)
  from meet_announced obtain sent a' where
    traced: "announce_traced sample_externs meet_announcer (meet_net meet_before) (\<lambda>_. 0) held_content None
      = Some (Inr 1, sent, a')" by blast
  then have run: "announce_provider_with_collateral sample_externs meet_announcer (meet_net meet_before) (\<lambda>_. 0) held_content None
      = Some (Inr 1, a')" by (simp add: announce_provider_with_collateral_def)
  have none: "\<forall>c. None = Some c \<longrightarrow> length c = 32" by simp
  have clock: "\<forall>i :: nat. (0 :: u64) \<le> 100" "(0 :: u64) \<le> 100" by simp_all
  note all = methods_refine_sections[OF sample_externs_ok _ clock none]
  have "steps sample_externs 100 meet_announcer a'" 
    using run by (rule all[OF inv(1), THEN conjunct2, THEN conjunct2, THEN conjunct2, THEN conjunct2, THEN conjunct2, THEN conjunct2, THEN conjunct1, THEN mp])
  moreover have "steps sample_externs 100 (meet_before (to_hex meet_key)) (meet_after (to_hex meet_key))"
    
    using meet_accepts[OF key] by (rule all[OF inv(2), THEN conjunct2, THEN conjunct2, THEN conjunct2, THEN conjunct2, THEN conjunct2, THEN conjunct2, THEN conjunct2, THEN conjunct2, THEN conjunct2, THEN conjunct1, THEN mp])
  moreover have "to_hex meet_key \<in> set (ps_local_announcements (authoritative a'))"
    using run
  proof (cases rule: announce_cases)
    case (1 outcome store n)
    then show ?thesis
      by (simp add: meet_key_def ps_local_announcements_def ps_mark_announced_with_collateral_def dom_update)
  qed
  moreover have "by_key (authoritative (meet_before (to_hex meet_key))) = []"
    using meet_node_in(3)[OF key] meet_key_facts(5) key by (simp add: meet_before_def hex64_to_hex)
  moreover have "ps_lookup (authoritative (meet_after (to_hex meet_key))) (to_hex meet_key) (to_hex (replicate 32 7)) \<noteq> None"
    using add_provider_stored[OF meet_accepts[OF key]] by (auto simp: meet_record_def local_id_hex_def meet_nodes)
  ultimately show ?thesis using run by blast
qed

end
