(* ===== verification/Search_Limits.thy ===== *)
theory Search_Limits
  imports Service_Composition
begin

text \<open>
  Two ways one answer ends a provider search early: naming enough unreachable contacts that are nearer
  than everybody else, and answering with a record that has expired.
\<close>

subsection \<open>Rounds in which everybody fails\<close>

definition dead_entry :: "shortlist_entry \<Rightarrow> shortlist_entry" where
  "dead_entry e = e\<lparr>sl_queried := True, sl_failed := True\<rparr>"

lemma dead_entry_sel [simp]:
  "sl_contact (dead_entry e) = sl_contact e" "sl_distance (dead_entry e) = sl_distance e"
  "sl_queried (dead_entry e)" "sl_failed (dead_entry e)" "dead_entry (dead_entry e) = dead_entry e"
  by (simp_all add: dead_entry_def)

lemma mark_failed:
  "distinct (map sid sl) \<Longrightarrow>
   mark_queried pid True sl = map (\<lambda>e. if sid e = pid then dead_entry e else e) sl"
proof (induction sl)
  case (Cons e sl)
  have "map (\<lambda>e. if sid e = sid a then dead_entry e else e) xs = xs" if "sid a \<notin> sid ` set xs" for a xs
    using that by (intro map_idI) (metis imageI)
  with Cons show ?case by (auto simp: dead_entry_def)
qed simp

lemma fold_failures:
  assumes "distinct (map sid (ls_shortlist st))"
  shows "ls_shortlist (fold (fold_answer E target k) (map (\<lambda>c. (c, None)) cs) st) =
      map (\<lambda>e. if sid e \<in> ct_peer_id ` set cs then dead_entry e else e) (ls_shortlist st)
    \<and> ls_providers (fold (fold_answer E target k) (map (\<lambda>c. (c, None)) cs) st) = ls_providers st"
  using assms
proof (induction cs arbitrary: st)
  case (Cons c cs)
  let ?st = "fold_answer E target k (c, None) st"
  have step: "ls_shortlist ?st = map (\<lambda>e. if sid e = ct_peer_id c then dead_entry e else e) (ls_shortlist st)"
    "ls_providers ?st = ls_providers st"
    using mark_failed[OF Cons.prems] by (simp_all add: fold_answer_def Let_def)
  have "map sid (ls_shortlist ?st) = map sid (ls_shortlist st)" by (simp add: step(1))
  with Cons.IH[of ?st] Cons.prems step(2)
  have "ls_shortlist (fold (fold_answer E target k) (map (\<lambda>c. (c, None)) cs) ?st) =
      map (\<lambda>e. if sid e \<in> ct_peer_id ` set cs then dead_entry e else e) (ls_shortlist ?st)"
    "ls_providers (fold (fold_answer E target k) (map (\<lambda>c. (c, None)) cs) ?st) = ls_providers st" by simp_all
  then show ?case by (simp add: step(1))
qed simp

lemma join_failures:
  assumes "env_ok env" "\<forall>c\<in>set batch. le_query env r c = Joined None"
  shows "join_results env r batch = map (\<lambda>c. (c, None)) (le_order env r batch)"
    "set (le_order env r batch) = set batch"
proof -
  show mem: "set (le_order env r batch) = set batch" using assms(1) by (metis env_ok_def mset_eq_setD)
  have "List.map_filter (\<lambda>c. case le_query env r c of JoinFailed \<Rightarrow> None | Joined res \<Rightarrow> Some (c, res)) cs
      = map (\<lambda>c. (c, None)) cs" if "\<forall>c\<in>set cs. le_query env r c = Joined None" for cs
    using that by (induction cs) (simp_all add: map_filter_simps)
  with mem assms(2) show "join_results env r batch = map (\<lambda>c. (c, None)) (le_order env r batch)"
    by (simp add: join_results_def)
qed

text \<open>A walk whose nearest known contacts all fail. The first \<open>m\<close> of \<open>P\<close> have failed, the rest of \<open>P\<close>
  has not been asked, and \<open>R\<close> is farther.\<close>

lemma failing_walk:
  assumes "env_ok env" "shortlist_cap k al = Some cap"
    "\<forall>e\<in>set P. \<not> sl_queried e \<and> \<not> sl_failed e" "\<forall>e\<in>set P. \<forall>r. le_query env r (sl_contact e) = Joined None"
    "distinct (map sid (P @ R))" "sorted (map sl_distance (P @ R))" "length (P @ R) \<le> cap" "k + al \<le> length P"
  shows "ls_shortlist st = map dead_entry (take m P) @ drop m P @ R \<Longrightarrow> m < k \<Longrightarrow> ls_providers st = [] \<Longrightarrow>
    \<exists>st'. lookup_loop E env target k al stop left st = Some st' \<and> ls_providers st' = []
      \<and> set (ls_asked st') \<subseteq> set (ls_asked st) \<union> sl_contact ` set P"
proof (induction left arbitrary: st m)
  case (Suc left)
  let ?sl = "\<lambda>m. map dead_entry (take m P) @ drop m P @ R"
  let ?b = "map sl_contact (take al (drop m P))"
  have fresh: "filter (\<lambda>e. \<not> sl_queried e \<and> \<not> sl_failed e) (drop m P) = drop m P"
    using assms(3) by (intro filter_True) (auto dest: in_set_dropD)
  have "filter (\<lambda>e. \<not> sl_queried e \<and> \<not> sl_failed e) (map dead_entry xs) = []" for xs
    by (simp add: filter_empty_conv)
  then have batch: "next_batch al (ls_shortlist st) = ?b"
    using assms(8) Suc.prems(2) by (simp add: Suc.prems(1) next_batch_def fresh)
  have P: "set (take al (drop m P)) \<subseteq> set P" by (meson set_drop_subset set_take_subset subset_trans)
  then have fails: "\<forall>c\<in>set ?b. le_query env (ls_rounds st) c = Joined None" using assms(4) by auto
  note joined = join_failures[OF assms(1) fails]
  define st1 where "st1 = fold (fold_answer E target k) (join_results env (ls_rounds st) ?b)
    (st\<lparr>ls_asked := ls_asked st @ ?b, ls_rounds := Suc (ls_rounds st)\<rparr>)"
  have ids: "map sid (?sl m) = map sid (P @ R)" for m
    by (simp add: comp_def) (metis append_take_drop_id map_append)
  have dist: "map sl_distance (?sl m) = map sl_distance (P @ R)" for m
    by (simp add: comp_def) (metis append_take_drop_id map_append)
  have marks: "map (\<lambda>e. if sid e \<in> ct_peer_id ` set ?b then dead_entry e else e) (?sl m) = ?sl (m + al)"
  proof -
    let ?f = "\<lambda>e. if sid e \<in> sid ` set (take al (drop m P)) then dead_entry e else e"
    have split: "P @ R = take m P @ take al (drop m P) @ drop (m + al) P @ R"
      by (simp add: add.commute flip: drop_drop)
    have "distinct (map sid (take m P @ take al (drop m P) @ drop (m + al) P @ R))"
      using assms(5) split by simp
    then have "sid e \<notin> sid ` set (take al (drop m P))" if "e \<in> set (drop (m + al) P @ R)" for e
      using that by auto
    then have rest: "map ?f (drop (m + al) P @ R) = drop (m + al) P @ R" by (intro map_idI) simp
    have now: "map ?f (take al (drop m P)) = map dead_entry (take al (drop m P))" by simp
    have before: "map ?f (map dead_entry (take m P)) = map dead_entry (take m P)" by simp
    have parts: "?sl m = map dead_entry (take m P) @ take al (drop m P) @ (drop (m + al) P @ R)"
      by (simp add: add.commute flip: drop_drop)
    have "map ?f (?sl m) = map dead_entry (take m P) @ map dead_entry (take al (drop m P)) @ (drop (m + al) P @ R)"
      unfolding parts map_append[of ?f "map dead_entry (take m P)"] map_append[of ?f "take al (drop m P)"]
        before now rest ..
    then show ?thesis by (simp add: image_image take_add)
  qed
  have "distinct (map sid (ls_shortlist st))" using assms(5) by (simp only: Suc.prems(1) ids)
  then have st1: "ls_shortlist st1 = ?sl (m + al)" "ls_providers st1 = []"
    "ls_asked st1 = ls_asked st @ ?b"
    using fold_failures[of "st\<lparr>ls_asked := ls_asked st @ ?b, ls_rounds := Suc (ls_rounds st)\<rparr>" E target k
        "le_order env (ls_rounds st) ?b"] marks Suc.prems(3)
    unfolding st1_def joined(1) joined(2) Suc.prems(1)
    by (simp_all add: Suc.prems(1))
  have cut: "sort_and_cap k al (ls_shortlist st1) = Some (?sl (m + al))"
  proof -
    have "sort_key sl_distance (?sl (m + al)) = ?sl (m + al)"
      using assms(6) unfolding dist[symmetric, of "m + al"] by (rule sort_key_id_if_sorted)
    moreover have "length (?sl (m + al)) \<le> cap"
      using assms(7) arg_cong[OF ids[of "m + al"], of length] by simp
    ultimately show ?thesis by (simp add: sort_and_cap_take[OF assms(2)] st1(1) del: append_assoc)
  qed
  show ?case
  proof (cases "?b = []")
    case True
    with batch Suc.prems(3) show ?thesis by simp
  next
    case False
    let ?st2 = "st1\<lparr>ls_shortlist := ?sl (m + al)\<rparr>"
    have loop: "lookup_loop E env target k al stop (Suc left) st =
        (if list_ex (\<lambda>e. \<not> sl_queried e \<and> \<not> sl_failed e) (take k (?sl (m + al)))
         then lookup_loop E env target k al stop left ?st2 else Some ?st2)"
      using False cut st1(2) by (simp add: batch Let_def flip: st1_def)
    have asked: "set (ls_asked ?st2) \<subseteq> set (ls_asked st) \<union> sl_contact ` set P" using P st1(3) by auto
    show ?thesis
    proof (cases "m + al < k")
      case True
      from Suc.IH[of ?st2 "m + al"] True st1(2) obtain st' where
        "lookup_loop E env target k al stop left ?st2 = Some st'" "ls_providers st' = []"
        "set (ls_asked st') \<subseteq> set (ls_asked ?st2) \<union> sl_contact ` set P" by auto
      with loop asked st1(2) show ?thesis by (cases "list_ex (\<lambda>e. \<not> sl_queried e \<and> \<not> sl_failed e) (take k (?sl (m + al)))") auto
    next
      case enough: False
      have "take k (?sl (m + al)) = map dead_entry (take k P)"
        using enough assms(8) by (simp add: take_map min_def)
      then have "\<not> list_ex (\<lambda>e. \<not> sl_queried e \<and> \<not> sl_failed e) (take k (?sl (m + al)))"
        by (simp add: list_ex_iff)
      with loop asked st1(2) show ?thesis by simp
    qed
  qed
qed auto

subsection \<open>The first round\<close>

lemma contact_pid_distance:
  "contact_key E c \<noteq> None \<Longrightarrow> decodes E (ct_peer_id c) \<and> contact_distance E target c = pid_distance E target (ct_peer_id c)"
  by (cases rule: contact_key_cases[where E = E and c = c and target = target]) (simp_all add: contact_distance_def)

lemma join_results_from:
  assumes "env_ok env" "a \<in> set (join_results env r batch)"
  shows "fst a \<in> set batch \<and> le_query env r (fst a) = Joined (snd a)"
proof -
  have order: "set (le_order env r batch) = set batch"
    using assms(1) unfolding env_ok_def by (auto dest: mset_eq_setD)
  from assms(2) obtain c where c: "c \<in> set (le_order env r batch)"
    "(case le_query env r c of JoinFailed \<Rightarrow> None | Joined res \<Rightarrow> Some (c, res)) = Some a"
    unfolding join_results_def List.map_filter_def by fastforce
  then have "fst a = c \<and> le_query env r c = Joined (snd a)" by (cases "le_query env r c") auto
  with c(1) order show ?thesis by simp
qed

text \<open>The state after the first round, before the cut: the nearest seeds were asked, and their answers are all
  the walk has.\<close>

definition first_round :: "externs \<Rightarrow> lookup_env \<Rightarrow> key \<Rightarrow> contact list \<Rightarrow> nat \<Rightarrow> nat \<Rightarrow> lookup_state" where
  "first_round E env target seeds k al = fold (fold_answer E target k) (join_results env 0 (take al seeds))
     \<lparr>ls_shortlist = map (fresh_entry E target) seeds, ls_seen = ct_peer_id ` set seeds, ls_providers = [],
      ls_asked = take al seeds, ls_answers = [], ls_rounds = Suc 0\<rparr>"

lemma first_round_run:
  assumes "env_ok env" "shortlist_cap k al = Some cap" "\<forall>c\<in>set seeds. contact_key E c \<noteq> None"
    "distinct (map ct_peer_id seeds)" "sorted (map (contact_distance E target) seeds)" "length seeds \<le> k"
    "take al seeds \<noteq> []"
  defines "st \<equiv> first_round E env target seeds k al"
  defines "sl \<equiv> take cap (sort_key sl_distance (ls_shortlist st))"
  shows "iterative_find E env target seeds k al stop =
      map_option (\<lambda>st'. (lookup_finish k st', st'))
        (if stop \<and> ls_providers st \<noteq> [] then Some (st\<lparr>ls_shortlist := sl\<rparr>)
         else if list_ex (\<lambda>e. \<not> sl_queried e \<and> \<not> sl_failed e) (take k sl)
         then lookup_loop E env target k al stop 63 (st\<lparr>ls_shortlist := sl\<rparr>) else Some (st\<lparr>ls_shortlist := sl\<rparr>))"
    "lookup_inv E target seeds k cap (st\<lparr>ls_shortlist := sl\<rparr>)" "sorted (map sl_distance sl)" "length sl \<le> cap"
    "ls_answers st = join_results env 0 (take al seeds)" "ls_asked st = take al seeds"
proof -
  let ?sl = "map (fresh_entry E target) seeds"
  let ?st0 = "\<lparr>ls_shortlist = ?sl, ls_seen = ct_peer_id ` set seeds, ls_providers = [],
      ls_asked = [], ls_answers = [], ls_rounds = 0\<rparr>"
  have "length seeds \<le> cap" using shortlist_cap_Some[OF assms(2)] assms(6) by simp
  moreover have "sort_key sl_distance ?sl = ?sl" using assms(5) by (intro sort_key_id_if_sorted) (simp add: comp_def)
  ultimately have start: "lookup_start E target seeds k al = Some ?st0"
    using merge_seeds[OF assms(3,4), of "{}" target "[]"]
    by (simp add: lookup_start_def sort_and_cap_take[OF assms(2)])
  have batch: "next_batch al ?sl = take al seeds" by (simp add: next_batch_def filter_True take_map comp_def)
  have st: "st = fold (fold_answer E target k) (join_results env 0 (take al seeds))
      (?st0\<lparr>ls_asked := ls_asked ?st0 @ take al seeds, ls_rounds := Suc (ls_rounds ?st0)\<rparr>)"
    by (simp add: st_def first_round_def)
  have form: "fold (fold_answer E target k) (join_results env 0 (take al seeds))
     \<lparr>ls_shortlist = ?sl, ls_seen = ct_peer_id ` set seeds, ls_providers = [],
      ls_asked = take al seeds, ls_answers = [], ls_rounds = Suc 0\<rparr> = st"
    by (simp add: st_def first_round_def)
  have cut: "sort_and_cap k al (ls_shortlist st) = Some sl" by (simp add: sort_and_cap_take[OF assms(2)] sl_def)
  have step: "lookup_loop E env target k al stop (Suc left) ?st0 =
      (if stop \<and> ls_providers st \<noteq> [] then Some (st\<lparr>ls_shortlist := sl\<rparr>)
       else if list_ex (\<lambda>e. \<not> sl_queried e \<and> \<not> sl_failed e) (take k sl)
       then lookup_loop E env target k al stop left (st\<lparr>ls_shortlist := sl\<rparr>) else Some (st\<lparr>ls_shortlist := sl\<rparr>))" for left
    using assms(7) cut by (simp add: batch Let_def form)
  have "MAX_LOOKUP_ROUNDS = Suc 63" by (simp add: MAX_LOOKUP_ROUNDS_def)
  with step[of 63] show "iterative_find E env target seeds k al stop =
      map_option (\<lambda>st'. (lookup_finish k st', st'))
        (if stop \<and> ls_providers st \<noteq> [] then Some (st\<lparr>ls_shortlist := sl\<rparr>)
         else if list_ex (\<lambda>e. \<not> sl_queried e \<and> \<not> sl_failed e) (take k sl)
         then lookup_loop E env target k al stop 63 (st\<lparr>ls_shortlist := sl\<rparr>) else Some (st\<lparr>ls_shortlist := sl\<rparr>))"
    by (simp only: iterative_find_def start option.simps Option.bind.simps Option.map_conv_bind_option comp_def)
  from lookup_start_facts[OF assms(2), of E target seeds] start
  have "lookup_inv E target seeds k cap ?st0" by simp
  from round_ok[OF assms(1) this refl, of 0 al "Suc 0"] have "lookup_inv E target seeds k cap st"
    by (simp add: batch st)
  from cut_ok[OF this] show "lookup_inv E target seeds k cap (st\<lparr>ls_shortlist := sl\<rparr>)" by (simp add: sl_def)
  show "sorted (map sl_distance sl)" "length sl \<le> cap" by (simp_all add: sl_def sorted_take_map)
  show "ls_answers st = join_results env 0 (take al seeds)" "ls_asked st = take al seeds" by (simp_all add: st)
qed

subsection \<open>Shadowing a holder\<close>

lemma sorted_partition:
  assumes "sorted (map f xs)" "\<forall>x\<in>set xs. \<forall>y\<in>set xs. Q x \<longrightarrow> \<not> Q y \<longrightarrow> f x < f y"
  shows "xs = filter Q xs @ filter (\<lambda>x. \<not> Q x) xs"
  using assms
proof (induction xs)
  case (Cons x xs)
  then have IH: "xs = filter Q xs @ filter (\<lambda>x. \<not> Q x) xs" by simp
  show ?case
  proof (cases "Q x")
    case False
    have "\<not> Q y" if "y \<in> set xs" for y
      using Cons.prems that False by fastforce
    with False show ?thesis by simp
  qed (use IH in simp)
qed simp

text \<open>Known peers nearer than all others, fewer than the shortlist holds, are all in it and lead it.\<close>

lemma nearer_peers_lead:
  assumes "shortlist_ok E target cap (sl, seen)" "sorted (map sl_distance sl)" "seen = far \<union> near" "finite near"
    "\<forall>u\<in>near. \<forall>c\<in>far. pid_distance E target u < pid_distance E target c" "card near \<le> cap"
  shows "sl = filter (\<lambda>e. sid e \<in> near) sl @ filter (\<lambda>e. sid e \<notin> near) sl"
    "sid ` set (filter (\<lambda>e. sid e \<in> near) sl) = near" "length (filter (\<lambda>e. sid e \<in> near) sl) = card near"
proof -
  let ?P = "filter (\<lambda>e. sid e \<in> near) sl"
  have ok: "distinct (map sid sl)" "sid ` set sl \<subseteq> seen" "\<forall>e\<in>set sl. sl_distance e = pid_distance E target (sid e)"
    "\<forall>pid\<in>seen - sid ` set sl. cap \<le> length (filter (\<lambda>e. sl_distance e \<le> pid_distance E target pid) sl)"
    using assms(1) by (simp_all add: shortlist_ok_def)
  have "sl_distance x < sl_distance y" if "x \<in> set sl" "y \<in> set sl" "sid x \<in> near" "sid y \<notin> near" for x y
  proof -
    have "sid y \<in> far" using that(2,4) ok(2) assms(3) by blast
    with that(3) assms(5) have "pid_distance E target (sid x) < pid_distance E target (sid y)" by blast
    with that(1,2) ok(3) show ?thesis by simp
  qed
  then show "sl = ?P @ filter (\<lambda>e. sid e \<notin> near) sl" by (intro sorted_partition[OF assms(2)]) blast
  have lenP: "length ?P = card (sid ` set ?P)"
    using distinct_map_filter[OF ok(1), of "\<lambda>e. sid e \<in> near"] by (metis distinct_card length_map set_map)
  show ids: "sid ` set ?P = near"
  proof (rule ccontr)
    assume "sid ` set ?P \<noteq> near"
    then obtain u where u: "u \<in> near" "u \<notin> sid ` set ?P" by auto
    let ?near = "filter (\<lambda>e. sl_distance e \<le> pid_distance E target u) sl"
    have "u \<in> seen - sid ` set sl" using u assms(3) by auto
    with ok(4) have "cap \<le> length ?near" by blast
    also have "\<dots> \<le> length ?P"
    proof -
      have "sid e \<in> near" if "e \<in> set sl" "sl_distance e \<le> pid_distance E target u" for e
      proof (rule ccontr)
        assume "sid e \<notin> near"
        then have "sid e \<in> far" using that(1) ok(2) assms(3) by blast
        with u(1) assms(5) have "pid_distance E target u < pid_distance E target (sid e)" by blast
        with that ok(3) show False by simp
      qed
      then have "?near = filter (\<lambda>e. sl_distance e \<le> pid_distance E target u) ?P"
        unfolding filter_filter by (intro filter_cong) auto
      then show ?thesis by (metis length_filter_le)
    qed
    also have "\<dots> < card near" unfolding lenP using u assms(4) by (intro psubset_card_mono) auto
    finally show False using assms(6) by simp
  qed
  show "length ?P = card near" using lenP ids by simp
qed

lemma shadowed_walk:
  assumes "env_ok env" "shortlist_cap k al = Some cap"
    "\<forall>c\<in>set (seeds @ us). contact_key E c \<noteq> None" "distinct (map ct_peer_id (seeds @ us))"
    "sorted (map (contact_distance E target) seeds)" "length seeds \<le> k"
    "\<forall>u\<in>set us. \<forall>c\<in>set seeds. contact_distance E target u < contact_distance E target c"
    "attacker \<in> set (take al seeds)" "le_query env 0 attacker = Joined (Some \<lparr>qo_closer = us, qo_providers = []\<rparr>)"
    "\<forall>c\<in>set (take al seeds). \<forall>q. le_query env 0 c = Joined (Some q) \<longrightarrow> set (qo_closer q) \<subseteq> set us \<and> qo_providers q = []"
    "\<forall>r c. ct_peer_id c \<in> ct_peer_id ` set us \<longrightarrow> le_query env r c = Joined None"
    "length us = k + al" "k + al \<le> max_closer_per_response k"
  shows "\<exists>res st. iterative_find E env target seeds k al stop = Some (res, st) \<and> lr_providers res = []
    \<and> ct_peer_id ` set (ls_asked st) \<subseteq> ct_peer_id ` set (take al seeds) \<union> ct_peer_id ` set us"
proof -
  let ?U = "ct_peer_id ` set us" and ?B = "take al seeds"
  have seeds: "\<forall>c\<in>set seeds. contact_key E c \<noteq> None" "distinct (map ct_peer_id seeds)" using assms(3,4) by simp_all
  have "?B \<noteq> []" using assms(8) by (metis empty_iff empty_set)
  define st where "st = first_round E env target seeds k al"
  define sl where "sl = take cap (sort_key sl_distance (ls_shortlist st))"
  define P where "P = filter (\<lambda>e. sid e \<in> ?U) sl"
  define R where "R = filter (\<lambda>e. sid e \<notin> ?U) sl"
  note run = first_round_run[OF assms(1,2) seeds assms(5,6) \<open>?B \<noteq> []\<close>, folded st_def, folded sl_def]
  have ans: "fst a \<in> set ?B \<and> le_query env 0 (fst a) = Joined (snd a)" if "a \<in> set (ls_answers st)" for a
    using join_results_from[OF assms(1)] that unfolding run(5) .
  have inv: "shortlist_ok E target cap (sl, ls_seen st)"
    "flags_ok (answered_ids (ls_answers st)) (failed_ids (ls_answers st)) sl"
    "ls_seen st = valid_ids E (seeds @ told_contacts k (ls_answers st))"
    "collected_ok (ls_providers st) (told_providers k (ls_answers st))"
    using run(2) unfolding lookup_inv_shortlist by blast+
  have told: "set (told_contacts k (ls_answers st)) = set us"
  proof
    show "set (told_contacts k (ls_answers st)) \<subseteq> set us"
      using ans assms(10) by (fastforce simp: told_contacts_def split: option.splits dest: in_set_takeD)
    have "(attacker, Some \<lparr>qo_closer = us, qo_providers = []\<rparr>) \<in> set (ls_answers st)"
      unfolding run(5) by (rule join_results_mem[OF assms(1,8,9)])
    then show "set us \<subseteq> set (told_contacts k (ls_answers st))"
      using assms(12,13) by (force simp: told_contacts_def)
  qed
  have "told_providers k (ls_answers st) = []"
    using ans assms(10) by (force simp: told_providers_def split: option.split)
  with inv(4) have none: "ls_providers st = []" by (simp add: collected_ok_def)
  have seen: "ls_seen st = ct_peer_id ` set seeds \<union> ?U"
    using told assms(3) contact_pid_distance[of E] by (fastforce simp: inv(3) valid_ids_def)
  have nearer: "\<forall>u\<in>?U. \<forall>c\<in>ct_peer_id ` set seeds. pid_distance E target u < pid_distance E target c"
    using assms(3,7) contact_pid_distance[of E _ target] by force
  have card: "card ?U = length us"
    using assms(4) by (metis distinct_append distinct_card length_map map_append set_map)
  then have "card ?U \<le> cap" using shortlist_cap_Some[OF assms(2)] assms(12) by simp
  note lead = nearer_peers_lead[OF inv(1) run(3) seen _ nearer this, folded P_def R_def]
  then have split: "sl = P @ R" and idsP: "sid ` set P = ?U" and len: "k + al \<le> length P"
    using card assms(12) by simp_all
  have fresh: "\<forall>e\<in>set P. \<not> sl_queried e \<and> \<not> sl_failed e"
  proof
    fix e assume e: "e \<in> set P"
    have "sid e \<notin> answered_ids (ls_answers st)"
    proof
      assume "sid e \<in> answered_ids (ls_answers st)"
      then have "sid e \<in> ct_peer_id ` set seeds"
        using ans by (fastforce simp: answered_ids_def answer_id_def dest: in_set_takeD)
      moreover have "sid e \<in> ?U" using e by (simp add: P_def)
      ultimately show False using assms(4) by auto
    qed
    then show "\<not> sl_queried e \<and> \<not> sl_failed e"
      using inv(2) e failed_subset_answered by (fastforce simp: flags_ok_def P_def)
  qed
  have dead: "\<forall>e\<in>set P. \<forall>r. le_query env r (sl_contact e) = Joined None" using assms(11) by (simp add: P_def)
  have "distinct (map sid (P @ R))" "sorted (map sl_distance (P @ R))" "length (P @ R) \<le> cap"
    using inv(1) run(3,4) by (simp_all add: shortlist_ok_def flip: split)
  from failing_walk[OF assms(1,2) fresh dead this len, of "st\<lparr>ls_shortlist := sl\<rparr>" 0 E target stop 63]
  have walk: "0 < k \<Longrightarrow> \<exists>st'. lookup_loop E env target k al stop 63 (st\<lparr>ls_shortlist := sl\<rparr>) = Some st'
      \<and> ls_providers st' = [] \<and> set (ls_asked st') \<subseteq> set ?B \<union> sl_contact ` set P"
    using split none run(6) by simp
  show ?thesis
  proof (cases "list_ex (\<lambda>e. \<not> sl_queried e \<and> \<not> sl_failed e) (take k sl)")
    case True
    then have "0 < k" by (cases k) simp_all
    with walk obtain st' where st': "lookup_loop E env target k al stop 63 (st\<lparr>ls_shortlist := sl\<rparr>) = Some st'"
      "ls_providers st' = []" "set (ls_asked st') \<subseteq> set ?B \<union> sl_contact ` set P" by blast
    then have "ct_peer_id ` set (ls_asked st') \<subseteq> ct_peer_id ` set ?B \<union> ?U" using idsP by blast
    with st' True none show ?thesis by (simp add: run(1) lookup_finish_def)
  next
    case False
    with none run(6) show ?thesis by (simp add: run(1) lookup_finish_def)
  qed
qed

text \<open>C39. One responder can end a provider search before the holders the searcher already knows are asked.
  Let the searcher know \<open>seeds\<close>, and let one of the \<open>alpha\<close> it asks first answer with \<open>k + alpha\<close>
  contacts of its own making, each nearer to the target than every seed, none of which ever
  answers; the others asked first know of no further contacts and no record. Then the failed contacts fill the
  \<open>k\<close> nearest places, which the stopping rule counts as asked: the search returns with no record, and
  it has asked nobody but the first \<open>alpha\<close> seeds and the invented contacts, whatever record the other
  seeds would have answered with.\<close>

theorem lookup_shadowed_by_unreachable_contacts:
  assumes "env_ok env" "\<forall>c\<in>set (seeds @ us). contact_key E c \<noteq> None" "distinct (map ct_peer_id (seeds @ us))"
    "sorted (map (contact_distance E target) seeds)" "length seeds \<le> k"
    "\<forall>u\<in>set us. \<forall>c\<in>set seeds. contact_distance E target u < contact_distance E target c"
    "attacker \<in> set (take al seeds)" "le_query env 0 attacker = Joined (Some \<lparr>qo_closer = us, qo_providers = []\<rparr>)"
    "\<forall>c\<in>set (take al seeds). \<forall>q. le_query env 0 c = Joined (Some q) \<longrightarrow> set (qo_closer q) \<subseteq> set us \<and> qo_providers q = []"
    "\<forall>r c. ct_peer_id c \<in> ct_peer_id ` set us \<longrightarrow> le_query env r c = Joined None"
    "length us = k + al" "k + al \<le> max_closer_per_response k"
    "k * 3 < 2 ^ 64" "al * 2 < 2 ^ 64" "k + al * 2 < 2 ^ 64"
  shows "\<exists>res st. iterative_find E env target seeds k al True = Some (res, st) \<and> lr_providers res = []
    \<and> ct_peer_id ` set (ls_asked st) \<subseteq> ct_peer_id ` set (take al seeds) \<union> ct_peer_id ` set us"
proof -
  from assms(13-15) obtain cap where "shortlist_cap k al = Some cap"
    using shortlist_cap_None[of k al] by (cases "shortlist_cap k al") auto
  from shadowed_walk[OF assms(1) this assms(2-12)] show ?thesis .
qed

text \<open>Two places and one query a round. The searcher knows peers 4 and 8, and 8 holds a record. If
  4 names the unreachable peers 1, 2 and 3, the record is not found; if 4 names nobody, it is.\<close>

definition found_record :: provider_record where
  "found_record = provider_record_new sample_externs sample_target (replicate 31 0 @ [8]) [] 100"

definition holder_env :: "contact list \<Rightarrow> lookup_env" where
  "holder_env named =
     \<lparr>le_query = (\<lambda>r c. Joined
        (if ct_peer_id c = ct_peer_id (sample_peer 8) then Some \<lparr>qo_closer = [], qo_providers = [found_record]\<rparr>
         else if ct_peer_id c = ct_peer_id (sample_peer 4) then Some \<lparr>qo_closer = named, qo_providers = []\<rparr>
         else None)),
      le_order = (\<lambda>r cs. cs)\<rparr>"

theorem lookup_shadowed_by_unreachable_contacts_witness:
  "(\<exists>res st. iterative_find sample_externs (holder_env [sample_peer 1, sample_peer 2, sample_peer 3]) sample_target
        [sample_peer 4, sample_peer 8] 2 1 True = Some (res, st)
      \<and> lr_providers res = [] \<and> ct_peer_id (sample_peer 8) \<notin> ct_peer_id ` set (ls_asked st))
   \<and> (\<exists>res st. iterative_find sample_externs (holder_env []) sample_target
        [sample_peer 4, sample_peer 8] 2 1 True = Some (res, st) \<and> lr_providers res = [found_record])"
proof
  let ?us = "[sample_peer 1, sample_peer 2, sample_peer 3]"
  have pid: "ct_peer_id (sample_peer m) = ct_peer_id (sample_peer n) \<longleftrightarrow> m = n" for m n
    using sample_peer_pid[of m] sample_peer_pid[of n] by auto
  have d: "contact_distance sample_externs sample_target (sample_peer n) = replicate 31 0 @ [n]" for n
    by (simp add: contact_distance_def sample_peer_key sample_distance)
  have less: "replicate 31 0 @ [m :: u8] < replicate 31 0 @ [n] \<longleftrightarrow> m < n" for m n
    by (auto simp: order.strict_iff_order)
  have per: "max_closer_per_response 2 = 64" "max_providers_per_response 2 = 64"
    by (simp_all add: max_closer_per_response_def max_providers_per_response_def saturating_usize_def
        MAX_CLOSER_PER_RESPONSE_def MAX_PROVIDERS_PER_RESPONSE_def usize_limit_def)
  have "\<exists>res st. iterative_find sample_externs (holder_env ?us) sample_target [sample_peer 4, sample_peer 8] 2 1 True = Some (res, st)
      \<and> lr_providers res = [] \<and> ct_peer_id ` set (ls_asked st) \<subseteq>
        ct_peer_id ` set (take 1 [sample_peer 4, sample_peer 8]) \<union> ct_peer_id ` set ?us"
    by (rule lookup_shadowed_by_unreachable_contacts[where attacker = "sample_peer 4"])
      (auto simp: holder_env_def env_ok_def sample_peer_key pid d per less)
  then show "\<exists>res st. iterative_find sample_externs (holder_env ?us) sample_target [sample_peer 4, sample_peer 8] 2 1 True = Some (res, st)
      \<and> lr_providers res = [] \<and> ct_peer_id (sample_peer 8) \<notin> ct_peer_id ` set (ls_asked st)"
    by (elim exE conjE) (intro exI conjI, assumption, assumption, auto simp: pid)
  show "\<exists>res st. iterative_find sample_externs (holder_env []) sample_target [sample_peer 4, sample_peer 8] 2 1 True = Some (res, st)
      \<and> lr_providers res = [found_record]"
  proof -
    have cap: "shortlist_cap 2 (Suc 0) = Some 6"
      by (simp add: shortlist_cap_def checked_usize_def usize_limit_def)
    show ?thesis
      by (simp add: iterative_find_def MAX_LOOKUP_ROUNDS_def lookup_loop_numeral lookup_start_def
          merge_contact_def sample_peer_key sample_distance sort_and_cap_take[OF cap] next_batch_def pid holder_env_def
          join_results_def map_filter_simps fold_answer_def lookup_finish_def Let_def per entry_or_insert_def)
  qed
qed

subsection \<open>Stopping on an expired record\<close>

text \<open>A provider search stops after the first round when an answer of that round has a record.\<close>

lemma first_round_stops:
  assumes "env_ok env" "iterative_find E env target seeds k al True = Some (res, st)"
    "\<forall>c\<in>set seeds. contact_key E c \<noteq> None" "distinct (map ct_peer_id seeds)"
    "sorted (map (contact_distance E target) seeds)" "length seeds \<le> k"
    "c \<in> set (take al seeds)" "le_query env 0 c = Joined (Some q)"
    "take (max_providers_per_response k) (qo_providers q) \<noteq> []"
  shows "ls_answers st = join_results env 0 (take al seeds)"
proof -
  obtain cap where cap: "shortlist_cap k al = Some cap"
    using iterative_find_None[OF assms(1), of E target seeds k al True] assms(2)
    by (cases "shortlist_cap k al") auto
  have "take al seeds \<noteq> []" using assms(7) by (metis empty_iff empty_set)
  note run = first_round_run[OF assms(1) cap assms(3-6) this]
  let ?st = "first_round E env target seeds k al"
  have "(c, Some q) \<in> set (ls_answers ?st)"
    unfolding run(5) by (rule join_results_mem[OF assms(1,7,8)])
  then have "told_providers k (ls_answers ?st) \<noteq> []"
    using assms(9) by (force simp: told_providers_def)
  moreover have "collected_ok (ls_providers ?st) (told_providers k (ls_answers ?st))"
    using run(2) unfolding lookup_inv_shortlist by blast
  ultimately have "ls_providers ?st \<noteq> []" by (auto simp: collected_ok_def)
  with assms(2) run(1,5) show ?thesis by auto
qed

text \<open>C40. A provider search also ends on records nobody can use. Suppose the discovery cache holds no live
  record for the key, some contact among the \<open>alpha\<close> asked first answers with a record for the key,
  and every record for the key that any of those \<open>alpha\<close> answers with has expired when the answers are
  merged. Then the expired record counts as found: the walk stops there, the merge drops it, and the
  answer is at most what this node holds itself, whatever live records the peers not asked yet would
  have answered with.\<close>

theorem expired_record_ends_search:
  assumes "ready E s" "network_ok net" "ck = to_hex (content_to_key E content)"
    "ps_get (discovered s) ck (clock 0) = []"
    "first = set (take (alpha (config s)) (seed_contacts E s (content_to_key E content)))"
    "peer \<in> first" "\<not> net_task_fails net 0 peer"
    "net_rpc net 0 (local_contact E s) peer (FindProviders ck) = Inr (Providers ps closer)"
    "\<exists>r\<in>set ps. content_key r = ck"
    "\<And>c ps closer q. c \<in> first \<Longrightarrow> net_rpc net 0 (local_contact E s) c (FindProviders ck) = Inr (Providers ps closer) \<Longrightarrow>
       q \<in> set ps \<Longrightarrow> content_key q = ck \<Longrightarrow> is_expired q (clock 2)"
  shows "\<exists>rs s'. find_providers E s net clock content = Some (Inr rs, s')
    \<and> set rs \<subseteq> set (ps_get (authoritative s) ck (clock 0))"
proof -
  let ?key = "content_to_key E content" and ?k = "cfg_k (config s)"
  let ?seeds = "seed_contacts E s ?key" and ?env = "lookup_env_of E s net ?key"
  from find_providers_returns[OF assms(1,2), of clock content] obtain res s' where
    run: "find_providers E s net clock content = Some (res, s')" by (auto simp: returns_def)
  from run show ?thesis
  proof (cases rule: find_providers_cases)
    case cached
    with assms(3,4) show ?thesis by simp
  next
    case nobody
    with run assms(3) show ?thesis by simp
  next
    case (walked result st s1)
    let ?q = "\<lparr>qo_closer = closer, qo_providers = filter (\<lambda>r. content_key r = ck) ps\<rparr>"
    note walk = walked(2)[unfolded run_lookup_def]
    have "le_query ?env 0 peer = Joined (Some ?q)"
      using assms(7,8) unfolding assms(3) by (simp add: lookup_env_of_def query_outcome_of_def)
    moreover have "take (max_providers_per_response ?k) (qo_providers ?q) \<noteq> []"
      using assms(9) by (auto simp: max_providers_per_response_def MAX_PROVIDERS_PER_RESPONSE_def filter_empty_conv)
    ultimately have answers: "ls_answers st = join_results ?env 0 (take (alpha (config s)) ?seeds)"
      using first_round_stops[OF lookup_env_ok[OF assms(2)] walk seed_contacts_facts[OF assms(1)]] assms(5,6) by blast
    have "is_expired q (clock 2)" if q: "q \<in> set (lr_providers result)" for q
    proof -
      have "q \<in> set (told_providers ?k (ls_answers st))"
        using lookup_sound_facts[OF lookup_env_ok[OF assms(2)] walk] q by blast
      then obtain a o' where a: "a \<in> set (ls_answers st)" "snd a = Some o'" "q \<in> set (qo_providers o')"
        by (auto simp: told_providers_def split: option.splits dest!: in_set_takeD)
      from join_results_from[OF lookup_env_ok[OF assms(2)] a(1)[unfolded answers]] a(2)
      have "fst a \<in> first" "le_query ?env 0 (fst a) = Joined (Some o')" by (simp_all add: assms(5))
      with a(3) obtain ps' closer' where
        "net_rpc net 0 (local_contact E s) (fst a) (FindProviders ck) = Inr (Providers ps' closer')"
        "q \<in> set ps'" "content_key q = ck"
        by (auto simp: lookup_env_of_def query_outcome_of_def assms(3) split: if_splits sum.splits dht_response.splits)
      with assms(10) \<open>fst a \<in> first\<close> show ?thesis by blast
    qed
    then have "set (merge_dedup_by_provider (ps_get (authoritative s) (to_hex ?key) (clock 0))
        (map (normalize_discovered E) (lr_providers result)) (clock 2)) \<subseteq> set (ps_get (authoritative s) ck (clock 0))"
      using merge_facts(2)[of "ps_get (authoritative s) ck (clock 0)" "map (normalize_discovered E) (lr_providers result)" "clock 2"]
      unfolding assms(3) by auto
    with run walked(5) show ?thesis by simp
  qed
qed

lemma rt_insert_second:
  assumes "externs_ok E" "rt_wf E t" "1 < rt_k t" "rt_contacts t = [c]" "routable E t c'"
    "ct_peer_id c' \<noteq> ct_peer_id c" "contact_distance E target c < contact_distance E target c'"
  obtains t' where "rt_insert E t c' = Some (Inserted, t')" "rt_closest E t' target = [c, c']"
proof -
  have k: "0 < rt_k t" using assms(3) by simp
  from rt_insert_total[OF assms(1,2) k, of c'] obtain outcome t' where
    ins: "rt_insert E t c' = Some (outcome, t')" by blast
  have "outcome = Inserted"
    using assms(1,2)
  proof (cases rule: rt_insert_cases[where c = c'])
    case (offered i)
    then have i: "i < length (rt_buckets t)" using assms(2) by (simp add: rt_wf_def)
    have "bucket_wf E (rt_local_key t) (rt_k t) i (rt_buckets t ! i)"
      using assms(2) offered(1) by (simp add: rt_wf_def)
    then have b: "kb_capacity (rt_buckets t ! i) = rt_k t" "distinct (kb_contacts (rt_buckets t ! i))"
      by (auto simp: bucket_wf_def distinct_map)
    have "set (kb_contacts (rt_buckets t ! i)) \<subseteq> {c}" using bucket_contacts_subset[OF i] assms(4) by simp
    then have "card (set (kb_contacts (rt_buckets t ! i))) \<le> card {c}" by (intro card_mono) simp_all
    then have "length (kb_contacts (rt_buckets t ! i)) < kb_capacity (rt_buckets t ! i)"
      using b assms(3) by (simp add: distinct_card)
    with offered(4) ins show ?thesis by (auto simp: bucket_offer_def Let_def split: if_splits option.splits)
  qed (use ins in simp)
  note wf' = rt_insert_wf[OF assms(1,2) ins]
  have ids: "rt_ids t' = {ct_peer_id c, ct_peer_id c'}"
    using rt_insert_ids[OF assms(1,2) ins] assms(4,5) \<open>outcome = Inserted\<close> by (auto simp: rt_ids_def)
  have sub: "set (rt_contacts t') \<subseteq> {c, c'}" "rt_k t' = rt_k t" using rt_insert_contacts[OF ins] assms(4) by auto
  have "card (rt_ids t') = length (rt_contacts t')"
    using rt_contacts_distinct[of E t'] wf' unfolding rt_ids_def
    by (metis distinct_card length_map set_map)
  with ids assms(6) have "rt_len t' = 2" by (simp add: rt_len_contacts card_insert_if)
  then have cl: "length (rt_closest E t' target) = 2" "set (rt_closest E t' target) \<subseteq> {c, c'}"
    "distinct (map ct_peer_id (rt_closest E t' target))" "sorted (map (contact_distance E target) (rt_closest E t' target))"
    using rt_closest_facts[of E t' target] assms(1,3) wf' sub by auto
  then have "rt_closest E t' target = [c, c']"
    using assms(7) by (auto simp: numeral_2_eq_2 length_Suc_conv)
  with ins \<open>outcome = Inserted\<close> show thesis by (auto intro: that)
qed

lemma rt_first_contact:
  assumes "externs_ok E" "rt_wf E t" "rt_contacts t = []" "routable E t c" "rt_insert E t c = Some (Inserted, t')"
  shows "rt_contacts t' = [c]"
proof -
  have "rt_ids t' = {ct_peer_id c}"
    using rt_insert_ids[OF assms(1,2,5)] assms(3,4) by (simp add: rt_ids_def)
  then have "length (rt_contacts t') = 1"
    using rt_contacts_distinct[OF rt_insert_wf[OF assms(1,2,5), THEN conjunct1]]
    by (metis One_nat_def card.empty card_insert_disjoint distinct_card empty_iff finite.emptyI length_map rt_ids_def set_map)
  moreover have "set (rt_contacts t') \<subseteq> {c}" using rt_insert_contacts[OF assms(5)] assms(3) by auto
  ultimately show ?thesis by (auto simp: length_Suc_conv)
qed

text \<open>A node that knows peers 1 and 2 and asks one of them at a time, the nearer peer 1 first. Peer 2 always
  answers with a live record.\<close>

definition answering :: "provider_record list \<Rightarrow> string network" where
  "answering rs = \<lparr>net_rpc = (\<lambda>i from peer req. Inr (Providers
       (if ct_peer_id peer = ct_peer_id (sample_peer 1) then rs else [sample_record held_key ''zz'' 50]) [])),
     net_order = (\<lambda>r cs. cs), net_task_fails = (\<lambda>r c. False)\<rparr>"

lemma pair_service:
  obtains s where "ready sample_externs s" "config s = default_config\<lparr>alpha := Suc 0\<rparr>"
    "seed_contacts sample_externs s (content_to_key sample_externs held_content) = [sample_peer 1, sample_peer 2]"
    "by_key (discovered s) = []" "by_key (authoritative s) = []"
proof -
  let ?key = "content_to_key sample_externs held_content" and ?cfg = "default_config\<lparr>alpha := Suc 0\<rparr>"
  let ?s0 = "service_new (replicate 32 0) [] ?cfg"
  have sel: "config ?s0 = ?cfg" "by_key (authoritative ?s0) = []" "by_key (discovered ?s0) = []"
    "routing ?s0 = rt_new (replicate 32 0) 20"
    by (simp_all add: service_new_def ps_with_limits_def default_config_def del: upt_rec_numeral)
  have sane: "config_sane ?cfg" by (simp add: config_sane_def default_config_def)
  have "svc_inv sample_externs 100 ?s0" by (rule service_new_inv) simp
  from ready_inv[OF sample_externs_ok this] have ready0: "ready sample_externs ?s0" by (simp add: sel(1) sane)
  have new: "rt_k (rt_new p k) = k" "rt_local_key (rt_new p k) = p" for p k
    by (simp_all add: rt_new_def key_from_peer_id_def)
  have wf: "rt_wf sample_externs (routing ?s0)" "0 < rt_k (routing ?s0)" "rt_contacts (routing ?s0) = []"
    unfolding sel(4) by (simp_all add: rt_new_wf new del: upt_rec_numeral)
  have "n \<noteq> 0 \<Longrightarrow> replicate 31 0 @ [n :: u8] \<noteq> replicate 32 0" for n
    by (simp add: list_eq_iff_nth_eq nth_append) auto
  then have routable: "n \<noteq> 0 \<Longrightarrow> rt_local_key t = replicate 32 0 \<Longrightarrow> routable sample_externs t (sample_peer n)" for n t
    by (simp add: routable_def sample_peer_key del: upt_rec_numeral)
  have "routable sample_externs (routing ?s0) (sample_peer 1)"
    by (intro routable) (simp_all add: sel(4) new)
  from rt_insert_first[OF sample_externs_ok wf this] rt_first_contact[OF sample_externs_ok wf(1,3) this] obtain t1 where
    t1: "rt_insert sample_externs (routing ?s0) (sample_peer 1) = Some (Inserted, t1)" "rt_contacts t1 = [sample_peer 1]"
    by metis
  note c1 = rt_insert_contacts[OF t1(1)]
  have ready1: "ready sample_externs (?s0\<lparr>routing := t1\<rparr>)"
    using rt_insert_returns[OF ready0, of "sample_peer 1"] t1(1) by simp
  then have wf1: "rt_wf sample_externs t1" by (simp add: ready_def)
  have k1: "1 < rt_k t1" "rt_local_key t1 = replicate 32 0" using c1 by (simp_all add: sel(4) new)
  have pids: "ct_peer_id (sample_peer 2) \<noteq> ct_peer_id (sample_peer 1)"
    using sample_peer_pid[of 1] sample_peer_pid[of 2] by auto
  have "distance ?key (replicate 31 0 @ [1]) < distance ?key (replicate 31 0 @ [2])" by code_simp
  then have "contact_distance sample_externs ?key (sample_peer 1) < contact_distance sample_externs ?key (sample_peer 2)"
    by (simp add: contact_distance_def sample_peer_key)
  from rt_insert_second[OF sample_externs_ok wf1 k1(1) t1(2) routable[OF _ k1(2)] pids this] obtain t2 where
    t2: "rt_insert sample_externs t1 (sample_peer 2) = Some (Inserted, t2)"
    "rt_closest sample_externs t2 ?key = [sample_peer 1, sample_peer 2]" by auto
  have k2: "rt_k t2 = 20" using rt_insert_contacts[OF t2(1)] c1 by (simp add: sel(4) new)
  have "ready sample_externs (?s0\<lparr>routing := t2\<rparr>)"
    using rt_insert_returns[OF ready1, of "sample_peer 2"] t2(1) by simp
  then show thesis
    by (rule that) (simp_all add: sel seed_contacts_def t2(2))
qed

theorem expired_record_ends_search_witness:
  "\<exists>s. (\<exists>s'. find_providers sample_externs s (answering [sample_record held_key ''yy'' 10]) (\<lambda>_. 20) held_content
        = Some (Inr [], s'))
     \<and> (\<exists>rs s'. find_providers sample_externs s (answering []) (\<lambda>_. 20) held_content = Some (Inr rs, s')
        \<and> ''zz'' \<in> provider_peer_id ` set rs)"
proof -
  let ?key = "content_to_key sample_externs held_content"
  obtain s where s: "ready sample_externs s" "config s = default_config\<lparr>alpha := Suc 0\<rparr>"
    "seed_contacts sample_externs s ?key = [sample_peer 1, sample_peer 2]"
    "by_key (discovered s) = []" "by_key (authoritative s) = []" by (rule pair_service)
  have empty: "ps_get (discovered s) ck t = []" "ps_get (authoritative s) ck t = []" for ck t
    by (simp_all add: ps_get_def s)
  have net: "network_ok (answering rs)" "\<not> net_task_fails (answering rs) r c"
    "net_rpc (answering rs) i from peer req = Inr (Providers
       (if ct_peer_id peer = ct_peer_id (sample_peer 1) then rs else [sample_record held_key ''zz'' 50]) [])"
    "net_order (answering rs) r cs = cs" for rs r c i "from" peer req cs
    by (simp_all add: answering_def network_ok_def)
  have "\<exists>rs s'. find_providers sample_externs s (answering [sample_record held_key ''yy'' 10]) (\<lambda>_. 20) held_content
        = Some (Inr rs, s') \<and> set rs \<subseteq> set (ps_get (authoritative s) held_key 20)"
    by (rule expired_record_ends_search[where peer = "sample_peer 1" and first = "{sample_peer 1}" and
          ps = "[sample_record held_key ''yy'' 10]" and closer = "[]" and clock = "\<lambda>_. 20",
          OF s(1) net(1) held_key_def empty(1)])
      (auto simp: s(2,3) net is_expired_def default_config_def)
  then have stale: "\<exists>s'. find_providers sample_externs s (answering [sample_record held_key ''yy'' 10]) (\<lambda>_. 20) held_content
        = Some (Inr [], s')" by (simp add: empty)
  let ?live = "sample_record held_key ''zz'' 50" and ?env = "lookup_env_of sample_externs s (answering []) ?key"
  have pid: "ct_peer_id (sample_peer m) = ct_peer_id (sample_peer n) \<longleftrightarrow> m = n" for m n
    using sample_peer_pid[of m] sample_peer_pid[of n] by auto
  have order: "distance ?key (replicate 31 0 @ [1]) < distance ?key (replicate 31 0 @ [2])" by code_simp
  have cap: "shortlist_cap 20 (Suc 0) = Some 60" by (simp add: shortlist_cap_def checked_usize_def usize_limit_def)
  have per: "max_closer_per_response 20 = 64" "max_providers_per_response 20 = 64"
    by (simp_all add: max_closer_per_response_def max_providers_per_response_def saturating_usize_def
        MAX_CLOSER_PER_RESPONSE_def MAX_PROVIDERS_PER_RESPONSE_def usize_limit_def)
  have env: "le_order ?env r cs = cs"
    "le_query ?env r (sample_peer 1) = Joined (Some \<lparr>qo_closer = [], qo_providers = []\<rparr>)"
    "le_query ?env r (sample_peer 2) = Joined (Some \<lparr>qo_closer = [], qo_providers = [?live]\<rparr>)" for r cs
    by (simp_all add: lookup_env_of_def net query_outcome_of_def pid held_key_def)
  have walk: "\<exists>st cs. iterative_find sample_externs ?env ?key [sample_peer 1, sample_peer 2] 20 (Suc 0) True
      = Some (\<lparr>lr_closest = cs, lr_providers = [?live]\<rparr>, st)"
    using order
    by (simp add: iterative_find_def MAX_LOOKUP_ROUNDS_def lookup_loop_numeral lookup_start_def
        merge_contact_def sample_peer_key sort_and_cap_take[OF cap] next_batch_def pid env
        join_results_def map_filter_simps fold_answer_def lookup_finish_def Let_def per entry_or_insert_def)
  from find_providers_returns[OF s(1) net(1), of "[]" "\<lambda>_. 20" held_content] obtain res s' where
    run: "find_providers sample_externs s (answering []) (\<lambda>_. 20) held_content = Some (res, s')"
    by (auto simp: returns_def)
  then have "\<exists>rs. res = Inr rs \<and> ''zz'' \<in> provider_peer_id ` set rs"
  proof (cases rule: find_providers_cases)
    case (walked result st s1)
    have "lr_providers result = [?live]"
      using walk walked(2) by (auto simp: run_lookup_def s(2,3) default_config_def)
    moreover have "''zz'' \<in> provider_peer_id ` {r \<in> set (ps_get (authoritative s) (to_hex ?key) 20) \<union>
        set [normalize_discovered sample_externs ?live]. \<not> is_expired r 20}"
      by (rule image_eqI[of _ _ "normalize_discovered sample_externs ?live"]) (simp_all add: is_expired_def[of ?live])
    ultimately show ?thesis using walked(5) by (simp add: merge_facts(3))
  qed (use s(3) empty in simp_all)
  with stale run show ?thesis by blast
qed

end
