(* ===== verification/Wire_Messages.thy ===== *)
theory Wire_Messages
  imports Wire_Frame
begin

text \<open>
  The messages of \<^verbatim>\<open>src/wire.rs\<close> on the wire. The JSON text and the derived (de)serializers are
  \<open>serde_json\<close>'s and \<open>serde\<close>'s, a parameter: \<open>parse\<close> reads a body into a raw message, whose fields are
  as the peer wrote them. What the crate adds are its two \<open>deserialize_with\<close> hooks, on every address
  list (of \<^verbatim>\<open>ProviderRecord\<close> in \<^verbatim>\<open>src/record.rs\<close> and of \<^verbatim>\<open>Contact\<close> in \<^verbatim>\<open>src/routing.rs\<close>) and on the
  mirror-coin pointer, and the omission of an absent pointer. The pointer's raw value is any JSON value,
  of which \<open>as_str\<close> yields the text of a string.
\<close>

record 'v raw_record =
  rr_content_key :: string
  rr_provider_peer_id :: string
  rr_addresses :: "candidate_addr list"
  rr_expires_at :: u64
  rr_mirror_coin :: "'v option"

record raw_contact =
  rc_peer_id :: string
  rc_addresses :: "candidate_addr list"

datatype 'v raw_request =
    RawFindNode string
  | RawFindProviders string
  | RawAddProvider "'v raw_record"
  | RawPing u64

datatype 'v raw_response =
    RawNodes "raw_contact list"
  | RawProviders "'v raw_record list" "raw_contact list"
  | RawAddProviderOk
  | RawPong u64
  | RawError u32 string

subsection \<open>Reading: the hooks on every field\<close>

definition read_record :: "externs \<Rightarrow> ('v \<Rightarrow> string option) \<Rightarrow> 'v raw_record \<Rightarrow> provider_record" where
  "read_record E as_str r =
     \<lparr>content_key = rr_content_key r, provider_peer_id = rr_provider_peer_id r,
      pr_addresses = sort_and_cap_addresses E (rr_addresses r), expires_at = rr_expires_at r,
      unverified_mirror_coin_id = deserialize_mirror_coin_id as_str (rr_mirror_coin r)\<rparr>"

definition read_contact :: "externs \<Rightarrow> raw_contact \<Rightarrow> contact" where
  "read_contact E c =
     \<lparr>ct_peer_id = rc_peer_id c, ct_addresses = sort_and_cap_addresses E (rc_addresses c)\<rparr>"

fun read_request :: "externs \<Rightarrow> ('v \<Rightarrow> string option) \<Rightarrow> 'v raw_request \<Rightarrow> dht_request" where
  "read_request E as_str (RawFindNode target) = FindNode target"
| "read_request E as_str (RawFindProviders ck) = FindProviders ck"
| "read_request E as_str (RawAddProvider r) = AddProvider (read_record E as_str r)"
| "read_request E as_str (RawPing nonce) = Ping nonce"

fun read_response :: "externs \<Rightarrow> ('v \<Rightarrow> string option) \<Rightarrow> 'v raw_response \<Rightarrow> dht_response" where
  "read_response E as_str (RawNodes cs) = Nodes (map (read_contact E) cs)"
| "read_response E as_str (RawProviders rs cs) = Providers (map (read_record E as_str) rs) (map (read_contact E) cs)"
| "read_response E as_str RawAddProviderOk = AddProviderOk"
| "read_response E as_str (RawPong nonce) = Pong nonce"
| "read_response E as_str (RawError code message) = ErrorResponse code message"

definition read_with :: "('r \<Rightarrow> 'm) \<Rightarrow> (u8 list \<Rightarrow> 'j + 'r) \<Rightarrow> u8 list \<Rightarrow> 'j + 'm" where
  "read_with read parse body = (case parse body of Inl e \<Rightarrow> Inl e | Inr raw \<Rightarrow> Inr (read raw))"

subsection \<open>Writing\<close>

definition write_record :: "(string \<Rightarrow> 'v) \<Rightarrow> provider_record \<Rightarrow> 'v raw_record" where
  "write_record str r =
     \<lparr>rr_content_key = content_key r, rr_provider_peer_id = provider_peer_id r,
      rr_addresses = pr_addresses r, rr_expires_at = expires_at r,
      rr_mirror_coin = map_option str (unverified_mirror_coin_id r)\<rparr>"

definition write_contact :: "contact \<Rightarrow> raw_contact" where
  "write_contact c = \<lparr>rc_peer_id = ct_peer_id c, rc_addresses = ct_addresses c\<rparr>"

fun write_request :: "(string \<Rightarrow> 'v) \<Rightarrow> dht_request \<Rightarrow> 'v raw_request" where
  "write_request str (FindNode target) = RawFindNode target"
| "write_request str (FindProviders ck) = RawFindProviders ck"
| "write_request str (AddProvider r) = RawAddProvider (write_record str r)"
| "write_request str (Ping nonce) = RawPing nonce"

fun write_response :: "(string \<Rightarrow> 'v) \<Rightarrow> dht_response \<Rightarrow> 'v raw_response" where
  "write_response str (Nodes cs) = RawNodes (map write_contact cs)"
| "write_response str (Providers rs cs) = RawProviders (map (write_record str) rs) (map write_contact cs)"
| "write_response str AddProviderOk = RawAddProviderOk"
| "write_response str (Pong nonce) = RawPong nonce"
| "write_response str (ErrorResponse code message) = RawError code message"

subsection \<open>What the hooks guarantee\<close>

text \<open>A record or contact is clean when the hooks change nothing of it.\<close>

definition clean_record :: "externs \<Rightarrow> provider_record \<Rightarrow> bool" where
  "clean_record E r \<longleftrightarrow> capped_addresses (pr_addresses r)
     \<and> sort_and_cap_addresses E (pr_addresses r) = pr_addresses r \<and> canonical_coin (unverified_mirror_coin_id r)"

definition clean_contact :: "externs \<Rightarrow> contact \<Rightarrow> bool" where
  "clean_contact E c \<longleftrightarrow> capped_addresses (ct_addresses c)
     \<and> sort_and_cap_addresses E (ct_addresses c) = ct_addresses c"

fun clean_request :: "externs \<Rightarrow> dht_request \<Rightarrow> bool" where
  "clean_request E (AddProvider r) = clean_record E r"
| "clean_request E _ = True"

fun clean_response :: "externs \<Rightarrow> dht_response \<Rightarrow> bool" where
  "clean_response E (Nodes cs) = list_all (clean_contact E) cs"
| "clean_response E (Providers rs cs) = (list_all (clean_record E) rs \<and> list_all (clean_contact E) cs)"
| "clean_response E _ = True"

lemma read_record_clean: "clean_record E (read_record E as_str r)"
  by (simp add: clean_record_def read_record_def sort_and_cap_capped sort_and_cap_idem
      deserialize_mirror_coin_id_def normalize_canonical)

lemma read_contact_clean: "clean_contact E (read_contact E c)"
  by (simp add: clean_contact_def read_contact_def sort_and_cap_capped sort_and_cap_idem)

lemma read_request_clean: "clean_request E (read_request E as_str raw)"
  by (cases raw) (simp_all add: read_record_clean)

lemma read_response_clean: "clean_response E (read_response E as_str raw)"
  by (cases raw) (simp_all add: read_record_clean read_contact_clean list_all_iff)

text \<open>Writing a clean message and reading it back gives the message.\<close>

lemma read_write_record:
  assumes "\<And>s. as_str (str s) = Some s" "clean_record E r"
  shows "read_record E as_str (write_record str r) = r"
  using assms normalize_canonical_id[of "unverified_mirror_coin_id r"]
  by (cases "unverified_mirror_coin_id r")
    (simp_all add: clean_record_def read_record_def write_record_def deserialize_mirror_coin_id_def)

lemma read_write_contact: "clean_contact E c \<Longrightarrow> read_contact E (write_contact c) = c"
  by (simp add: clean_contact_def read_contact_def write_contact_def)

lemma read_write_request:
  assumes "\<And>s. as_str (str s) = Some s" "clean_request E m"
  shows "read_request E as_str (write_request str m) = m"
  using assms by (cases m) (simp_all add: read_write_record)

lemma read_write_response:
  assumes "\<And>s. as_str (str s) = Some s" "clean_response E m"
  shows "read_response E as_str (write_response str m) = m"
  using assms by (cases m) (simp_all add: read_write_record read_write_contact list_all_iff map_idI)

subsection \<open>Properties\<close>

text \<open>C33. Whatever bytes a peer sends, a message that is decoded from them is clean: every record and
  every contact in it has at most eight addresses, none with an over-long host, in the crate's
  order, and every mirror-coin pointer is absent or 64 lower-case hex digits.\<close>

theorem decoded_messages_clean:
  "(request_decode T (read_with (read_request E as_str) parse) bytes = (Inr req, rest) \<longrightarrow> clean_request E req)
   \<and> (response_decode T (read_with (read_response E as_str) parse') bytes = (Inr resp, rest) \<longrightarrow> clean_response E resp)"
  unfolding request_decode_def response_decode_def decode_framed_iff read_with_def
  using read_request_clean read_response_clean by (fastforce split: sum.splits)

text \<open>A peer's coin pointer that is no string, next to an over-long host, is read as a clean record.\<close>

theorem decoded_messages_clean_witness:
  "clean_request sample_externs
     (read_request sample_externs (map_option id)
       (RawAddProvider \<lparr>rr_content_key = ''k'', rr_provider_peer_id = ''p'',
          rr_addresses = [\<lparr>ca_host = replicate 300 CHR ''h'', ca_port = 1, ca_kind = Direct\<rparr>],
          rr_expires_at = 5, rr_mirror_coin = Some None\<rparr>))"
  (is "clean_request _ (read_request _ _ ?raw)")
proof -
  have "request_decode sample_safe_text (read_with (read_request sample_externs (map_option id)) (\<lambda>_. Inr ?raw))
      (u32_to_be_bytes 1 @ [0x7b]) = (Inr (read_request sample_externs (map_option id) ?raw), [])"
    by (simp add: request_decode_def read_with_def MAX_FRAMED_BODY_def
        decode_frame[of "[0x7b]" _ _ "[]", simplified] del: read_request.simps)
  then show ?thesis
    using decoded_messages_clean[where T = sample_safe_text and E = sample_externs and rest = "[]"
        and as_str = "map_option id" and parse = "\<lambda>_. Inr ?raw" and bytes = "u32_to_be_bytes 1 @ [0x7b]"]
    by blast
qed

text \<open>C34. A message survives its trip exactly when it is clean. With a JSON codec that reads back what it
  writes, a clean request or response whose body fits a frame decodes to itself and leaves the reader
  at the next frame; any message decodes to a clean one, so a message that is not clean never
  survives unchanged.\<close>

theorem wire_round_trip_clean:
  assumes "\<And>s. as_str (str s) = Some s"
    "to_vec (write_request str req) = Some body" "parse body = Inr (write_request str req)"
    "to_vec' (write_response str resp) = Some body'" "parse' body' = Inr (write_response str resp)"
    "length body \<le> MAX_FRAMED_BODY" "length body' \<le> MAX_FRAMED_BODY"
  shows "(\<exists>frame out. request_encode (to_vec \<circ> write_request str) req = Some frame
      \<and> request_decode T (read_with (read_request E as_str) parse) (frame @ rest) = (Inr out, rest)
      \<and> (out = req \<longleftrightarrow> clean_request E req))
   \<and> (\<exists>frame out. response_encode (to_vec' \<circ> write_response str) resp = Some frame
      \<and> response_decode T (read_with (read_response E as_str) parse') (frame @ rest) = (Inr out, rest)
      \<and> (out = resp \<longleftrightarrow> clean_response E resp))"
proof -
  have "read_request E as_str (write_request str req) = req \<longleftrightarrow> clean_request E req"
    using read_write_request[of as_str str, OF assms(1)] read_request_clean by metis
  moreover have "read_response E as_str (write_response str resp) = resp \<longleftrightarrow> clean_response E resp"
    using read_write_response[of as_str str, OF assms(1)] read_response_clean by metis
  ultimately show ?thesis
    using assms(2-7)
    by (simp add: request_encode_def request_decode_def response_encode_def response_decode_def
        encode_framed_def decode_frame read_with_def)
qed

theorem wire_round_trip_clean_witness:
  "\<exists>frame out. request_encode ((\<lambda>_. Some [0x7b]) \<circ> write_request id) (Ping 7) = Some frame
     \<and> request_decode sample_safe_text
         (read_with (read_request sample_externs Some) (\<lambda>_. Inr (write_request id (Ping 7)))) (frame @ [1, 2])
       = (Inr out, [1, 2])
     \<and> (out = Ping 7 \<longleftrightarrow> clean_request sample_externs (Ping 7))"
  by (rule wire_round_trip_clean[where to_vec' = "\<lambda>_. Some [0x7d]"
        and resp = AddProviderOk and parse' = "\<lambda>_. Inr RawAddProviderOk", THEN conjunct1]) (simp_all add: MAX_FRAMED_BODY_def)+

end
