(* ===== verification/Store_Refinement.thy ===== *)
theory Store_Refinement
  imports Provider_Store_Facts
begin

text \<open>
  What the provider store of \<^verbatim>\<open>src/provider_store.rs\<close> promises, as an abstract state machine: a finite
  map from (content key, provider) to the latest record and a map of announced keys, with the two
  bounds. The nested hash maps, the admission ordinals and the choice of the victim are gone. The
  operations of \<open>Provider_Store\<close> simulate it.
\<close>


record store_spec =
  sp_held :: "string \<times> string \<Rightarrow> provider_record option"
  sp_marks :: "string \<Rightarrow> string option option"

definition spec_providers :: "store_spec \<Rightarrow> string \<Rightarrow> string set" where
  "spec_providers s ck = {pid. sp_held s (ck, pid) \<noteq> None}"

definition spec_live :: "store_spec \<Rightarrow> string \<Rightarrow> u64 \<Rightarrow> provider_record set" where
  "spec_live s ck now = {r. \<exists>pid. sp_held s (ck, pid) = Some r \<and> \<not> is_expired r now}"

inductive spec_step :: "provider_store_limits \<Rightarrow> store_op \<Rightarrow> store_spec \<Rightarrow> store_spec \<Rightarrow> bool" for l where
  spec_refresh: "provider_peer_id r \<in> spec_providers s (content_key r) \<Longrightarrow>
    spec_step l (OpPut r now) s (s\<lparr>sp_held := (sp_held s)((content_key r, provider_peer_id r) \<mapsto> r)\<rparr>)"
| spec_refuse: "provider_peer_id r \<notin> spec_providers s (content_key r) \<Longrightarrow>
    max_total_records l \<le> card (dom (sp_held s)) \<Longrightarrow> spec_step l (OpPut r now) s s"
| spec_admit: "provider_peer_id r \<notin> spec_providers s (content_key r) \<Longrightarrow>
    card (dom (sp_held s)) < max_total_records l \<Longrightarrow>
    spec_providers s (content_key r) = {} \<or> card (spec_providers s (content_key r)) < max_providers_per_key l \<Longrightarrow>
    spec_step l (OpPut r now) s (s\<lparr>sp_held := (sp_held s)((content_key r, provider_peer_id r) \<mapsto> r)\<rparr>)"
| spec_evict: "provider_peer_id r \<notin> spec_providers s (content_key r) \<Longrightarrow>
    card (dom (sp_held s)) < max_total_records l \<Longrightarrow>
    max_providers_per_key l \<le> card (spec_providers s (content_key r)) \<Longrightarrow>
    sp_held s (content_key r, v) = Some old \<Longrightarrow>
    is_expired old now \<or> (\<forall>pid q. sp_held s (content_key r, pid) = Some q \<longrightarrow> \<not> is_expired q now) \<Longrightarrow>
    spec_step l (OpPut r now) s (s\<lparr>sp_held := ((sp_held s)((content_key r, v) := None))
      ((content_key r, provider_peer_id r) \<mapsto> r)\<rparr>)"
| spec_remove: "spec_step l (OpRemove ck pid) s (s\<lparr>sp_held := (sp_held s)((ck, pid) := None)\<rparr>)"
| spec_remove_key: "spec_step l (OpRemoveKey ck) s
    (s\<lparr>sp_held := (\<lambda>(ck', pid). if ck' = ck then None else sp_held s (ck', pid))\<rparr>)"
| spec_gc: "spec_step l (OpGc now) s
    (s\<lparr>sp_held := (\<lambda>p. case sp_held s p of Some r \<Rightarrow> if is_expired r now then None else Some r | None \<Rightarrow> None)\<rparr>)"
| spec_mark: "spec_step l (OpMark ck coin) s (s\<lparr>sp_marks := (sp_marks s)(ck \<mapsto> coin)\<rparr>)"
| spec_unmark: "spec_step l (OpUnmark ck) s (s\<lparr>sp_marks := (sp_marks s)(ck := None)\<rparr>)"

inductive_cases spec_stepE: "spec_step l op s s'"

definition store_abs :: "provider_store \<Rightarrow> store_spec" where
  "store_abs s = \<lparr>sp_held = (\<lambda>(ck, pid). map_option pe_record (ps_lookup s ck pid)), sp_marks = map_of (announced s)\<rparr>"

lemma store_abs_held [simp]: "sp_held (store_abs s) (ck, pid) = map_option pe_record (ps_lookup s ck pid)"
  by (simp add: store_abs_def)

lemma store_abs_marks [simp]: "sp_marks (store_abs s) = map_of (announced s)"
  by (simp add: store_abs_def)

lemma store_abs_eqI:
  "(\<And>ck pid. map_option pe_record (ps_lookup s ck pid) = sp_held t (ck, pid)) \<Longrightarrow>
   map_of (announced s) = sp_marks t \<Longrightarrow> store_abs s = t"
  unfolding store_abs_def by (rule store_spec.equality) (auto simp: fun_eq_iff)

subsection \<open>Counting\<close>

lemma pairs_card:
  assumes "distinct (map fst kps)" "\<forall>p\<in>set kps. distinct (map fst (snd p))"
  shows "card {(ck, pid). \<exists>ps. map_of kps ck = Some ps \<and> map_of ps pid \<noteq> None} = (\<Sum>p\<leftarrow>kps. length (snd p))
    \<and> finite {(ck, pid). \<exists>ps. map_of kps ck = Some ps \<and> map_of ps pid \<noteq> None}"
  using assms
proof (induction kps)
  case (Cons kp kps)
  obtain k ps where kp: "kp = (k, ps)" by fastforce
  let ?D = "{(ck, pid). \<exists>ps. map_of kps ck = Some ps \<and> map_of ps pid \<noteq> None}"
  have eq: "{(ck, pid). \<exists>ps. map_of (kp # kps) ck = Some ps \<and> map_of ps pid \<noteq> None} = Pair k ` fst ` set ps \<union> ?D"
    using Cons.prems(1) by (auto simp: kp map_of_eq_None_iff dest: map_of_SomeD split: if_splits)
      (force dest: map_of_SomeD)+
  have "Pair k ` fst ` set ps \<inter> ?D = {}"
    using Cons.prems(1) by (force simp: kp dest: map_of_SomeD)
  moreover have "card (Pair k ` fst ` set ps) = length ps"
    using Cons.prems(2) distinct_card[of "map fst ps"] by (simp add: kp card_image inj_on_def)
  ultimately show ?case
    using Cons.IH Cons.prems unfolding eq by (simp add: card_Un_disjoint) (simp add: kp)
qed simp

lemma store_abs_card:
  assumes "store_ok s"
  shows "card (dom (sp_held (store_abs s))) = ps_len s"
proof -
  have "dom (sp_held (store_abs s)) = {(ck, pid). \<exists>ps. map_of (by_key s) ck = Some ps \<and> map_of ps pid \<noteq> None}"
    by (auto simp: dom_def ps_lookup_def bind_eq_Some_conv)
  moreover have "distinct (map fst (by_key s))" "\<forall>p\<in>set (by_key s). distinct (map fst (snd p))"
    using assms by (auto simp: store_ok_def providers_ok_def entries_ok_def)
  ultimately show ?thesis using pairs_card[of "by_key s"] by (simp add: ps_len_def)
qed

lemma spec_providers_abs: "spec_providers (store_abs s) ck = {pid. ps_lookup s ck pid \<noteq> None}"
  by (simp add: spec_providers_def)

lemma spec_providers_key:
  assumes "store_ok s" "map_of (by_key s) ck = Some ps"
  shows "spec_providers (store_abs s) ck = fst ` set ps" "card (spec_providers (store_abs s) ck) = length ps"
proof -
  have d: "distinct (map fst ps)" using store_ok_entries[OF assms] by (simp add: entries_ok_def)
  show "spec_providers (store_abs s) ck = fst ` set ps"
    using assms(2) by (auto simp: spec_providers_abs ps_lookup_def map_of_eq_None_iff)
  then show "card (spec_providers (store_abs s) ck) = length ps"
    using distinct_card[OF d] by simp
qed


subsection \<open>The refinement\<close>

lemma abs_admit:
  "store_abs (ps_admit s r) =
     (store_abs s)\<lparr>sp_held := (sp_held (store_abs s))((content_key r, provider_peer_id r) \<mapsto> r)\<rparr>"
  by (rule store_abs_eqI) (auto simp: admit_lookup)

lemma put_refines:
  assumes "store_ok s"
  shows "spec_step (limits s) (OpPut r now) (store_abs s) (store_abs (snd (ps_put_at s r now)))"
proof -
  obtain outcome s' where put: "ps_put_at s r now = (outcome, s')" by fastforce
  let ?ck = "content_key r" and ?p = "provider_peer_id r" and ?a = "store_abs s"
  have new: "?p \<notin> spec_providers ?a ?ck" if "ps_lookup s ?ck ?p = None"
    using that by (simp add: spec_providers_abs)
  from put show ?thesis
  proof (cases rule: put_at_cases)
    case (refresh ps old)
    have look: "ps_lookup s ?ck pid = map_of ps pid" for pid using refresh(1) by (simp add: ps_lookup_def)
    have "store_abs s' = ?a\<lparr>sp_held := (sp_held ?a)((?ck, ?p) \<mapsto> r)\<rparr>"
      by (rule store_abs_eqI) (auto simp: refresh(4) look map_of_update)
    moreover have "?p \<in> spec_providers ?a ?ck" using look refresh(2) by (simp add: spec_providers_abs)
    ultimately show ?thesis using spec_refresh[of r ?a "limits s" now] put by simp
  next
    case full
    with put new[OF full(1)] store_abs_card[OF assms] show ?thesis
      by (simp add: spec_refuse)
  next
    case (stuck ps)
    with store_ok_entries[OF assms stuck(1)] victim_total show ?thesis by blast
  next
    case plain
    have "spec_providers ?a ?ck = {} \<or> card (spec_providers ?a ?ck) < max_providers_per_key (limits s)"
      using plain(3) spec_providers_key[OF assms, of ?ck]
      by (cases "map_of (by_key s) ?ck") (auto simp: spec_providers_abs ps_lookup_def)
    with plain put new[OF plain(1)] store_abs_card[OF assms] show ?thesis
      by (simp add: abs_admit spec_admit)
  next
    case (evict ps v)
    have look: "ps_lookup s ?ck pid = map_of ps pid" for pid using evict(1) by (simp add: ps_lookup_def)
    have ent: "entries_ok (next_admitted_seq s) ?ck ps" using store_ok_entries[OF assms evict(1)] by simp
    then have dist: "distinct (map fst ps)" by (simp add: entries_ok_def)
    have mem: "map_of ps pid = Some e \<longleftrightarrow> (pid, e) \<in> set ps" for pid e
      using dist by (rule map_of_eq_Some_iff)
    have filed: "provider_peer_id (pe_record e) = p" if "(p, e) \<in> set ps" for p e
      using ent that by (auto simp: entries_ok_def)
    have v: "\<exists>e. map_of ps v = Some e \<and>
        (is_expired (pe_record e) now \<or> (\<forall>q\<in>set ps. \<not> is_expired (pe_record (snd q)) now))"
      using evict(5)
    proof (cases rule: victim_cases)
      case (dead p e)
      with filed[OF dead(1)] show ?thesis by (auto simp: mem)
    next
      case (live p e)
      with filed[OF live(1)] show ?thesis by (auto simp: mem)
    qed
    then obtain e where e: "map_of ps v = Some e"
      "is_expired (pe_record e) now \<or> (\<forall>q\<in>set ps. \<not> is_expired (pe_record (snd q)) now)" by blast
    have "store_abs s' = ?a\<lparr>sp_held := ((sp_held ?a)((?ck, v) := None))((?ck, ?p) \<mapsto> r)\<rparr>"
      by (rule store_abs_eqI) (auto simp: evict(7) admit_lookup look map_of_delete)
    moreover have "spec_step (limits s) (OpPut r now) ?a
        (?a\<lparr>sp_held := ((sp_held ?a)((?ck, v) := None))((?ck, ?p) \<mapsto> r)\<rparr>)"
    proof (rule spec_evict)
      show "?p \<notin> spec_providers ?a ?ck" using evict(2) by (intro new) (simp add: look)
      show "card (dom (sp_held ?a)) < max_total_records (limits s)"
        using evict(3) store_abs_card[OF assms] by simp
      show "max_providers_per_key (limits s) \<le> card (spec_providers ?a ?ck)"
        using evict(4) spec_providers_key(2)[OF assms evict(1)] by simp
      show "sp_held ?a (?ck, v) = Some (pe_record e)" using e(1) by (simp add: look)
      show "is_expired (pe_record e) now
          \<or> (\<forall>pid q. sp_held ?a (?ck, pid) = Some q \<longrightarrow> \<not> is_expired q now)"
        using e(2) by (fastforce simp: look mem)
    qed
    ultimately show ?thesis using put by simp
  qed
qed

lemma lookup_delete_key:
  "ps_lookup (s\<lparr>by_key := AList.delete ck (by_key s)\<rparr>) ck' pid = (if ck' = ck then None else ps_lookup s ck' pid)"
  by (simp add: ps_lookup_def map_of_delete)

lemma step_refines:
  assumes "store_inv s"
  shows "spec_step (limits s) op (store_abs s) (store_abs (store_step s op))"
proof -
  have ok: "store_ok s" using assms by (simp add: store_inv_def)
  show ?thesis
  proof (cases op)
    case (OpPut r now)
    with put_refines[OF ok] show ?thesis by simp
  next
    case (OpRemove ck pid)
    from remove_effect[OF ok surjective_pairing, of ck pid]
    have "store_abs (snd (ps_remove s ck pid)) = (store_abs s)\<lparr>sp_held := (sp_held (store_abs s))((ck, pid) := None)\<rparr>"
      by (intro store_abs_eqI) auto
    with OpRemove show ?thesis by (simp add: spec_remove)
  next
    case (OpRemoveKey ck)
    have "store_abs (snd (ps_remove_key s ck)) = (store_abs s)\<lparr>sp_held :=
        (\<lambda>(ck', pid). if ck' = ck then None else sp_held (store_abs s) (ck', pid))\<rparr>"
      by (intro store_abs_eqI) (auto simp: ps_remove_key_def lookup_delete_key)
    with OpRemoveKey show ?thesis by (simp only: store_step.simps spec_remove_key)
  next
    case (OpGc now)
    from gc_effect[OF ok surjective_pairing, of now]
    have "store_abs (snd (ps_gc s now)) = (store_abs s)\<lparr>sp_held := (\<lambda>p. case sp_held (store_abs s) p of
        Some r \<Rightarrow> if is_expired r now then None else Some r | None \<Rightarrow> None)\<rparr>"
      by (intro store_abs_eqI) (auto split: option.split)
    with OpGc show ?thesis by (simp only: store_step.simps spec_gc)
  next
    case (OpMark ck coin)
    have "store_abs (ps_mark_announced_with_collateral s ck coin) =
        (store_abs s)\<lparr>sp_marks := (sp_marks (store_abs s))(ck \<mapsto> coin)\<rparr>"
      by (intro store_abs_eqI)
        (simp_all add: ps_mark_announced_with_collateral_def ps_lookup_def map_of_update fun_eq_iff)
    with OpMark show ?thesis by (simp only: store_step.simps spec_mark)
  next
    case (OpUnmark ck)
    have "store_abs (snd (ps_unmark_announced s ck)) =
        (store_abs s)\<lparr>sp_marks := (sp_marks (store_abs s))(ck := None)\<rparr>"
      by (intro store_abs_eqI) (simp_all add: ps_unmark_announced_def ps_lookup_def map_of_delete fun_eq_iff)
    with OpUnmark show ?thesis by (simp only: store_step.simps spec_unmark)
  qed
qed

lemma live_abs: "store_ok s \<Longrightarrow> set (ps_get s ck now) = spec_live (store_abs s) ck now"
  by (fastforce simp: get_mem spec_live_def)

interpretation store_sim: forward_simulation store_abs "\<lambda>s. store_inv s \<and> limits s = l" store_step "spec_step l"
  for l :: provider_store_limits
  by unfold_locales (auto simp: store_step_inv store_step_limits intro: step_refines)

subsection \<open>Properties\<close>

text \<open>C19. The provider store implements its abstract specification: a finite map from (key, provider) to
  the latest record, under a total and a per-key bound. Every sequence of operations on the hash maps
  is a run of the specification on their abstraction, in which a put refreshes, is refused at the
  total bound, takes a free slot, or takes the slot of one other provider of the same key (a live one
  only when none of the key's is expired); and the queries read the abstraction off exactly.\<close>

theorem store_refines_spec:
  assumes "store_inv s" "s' = foldl store_step s ops"
  shows "spec_run (spec_step (limits s)) ops (store_abs s) (store_abs s')
    \<and> (\<forall>ck now. set (ps_get s' ck now) = spec_live (store_abs s') ck now)
    \<and> ps_len s' = card (dom (sp_held (store_abs s')))
    \<and> set (ps_local_announcements s') = dom (sp_marks (store_abs s'))"
proof -
  have ok: "store_ok s'" using store_run_inv[OF assms(1)] assms(2) by (simp add: store_inv_def)
  have "set (ps_local_announcements s') = dom (sp_marks (store_abs s'))"
    by (simp add: ps_local_announcements_def dom_map_of_conv_image_fst)
  then show ?thesis
    using store_sim.run_simulated[of s "limits s" ops] assms(1) assms(2) live_abs[OF ok] store_abs_card[OF ok] by simp
qed

theorem store_refines_spec_witness:
  "spec_run (spec_step default_limits) [OpPut (sample_record ''k'' ''p'' 9) 0, OpGc 9]
     (store_abs ps_new) (store_abs (foldl store_step ps_new [OpPut (sample_record ''k'' ''p'' 9) 0, OpGc 9]))
   \<and> ps_get (foldl store_step ps_new [OpPut (sample_record ''k'' ''p'' 9) 0, OpGc 9]) ''k'' 0 = []"
proof -
  have "store_inv ps_new" "limits ps_new = default_limits"
    unfolding ps_new_def using empty_store_inv by simp_all
  moreover have "ps_get (foldl store_step ps_new [OpPut (sample_record ''k'' ''p'' 9) 0, OpGc 9]) ''k'' 0 = []"
    by (simp add: ps_new_def ps_put_at_def ps_admit_def ps_len_def ps_gc_def ps_get_def live_providers_def
        default_limits_def is_expired_def Let_def)
  ultimately show ?thesis
    using store_refines_spec[of ps_new _ "[OpPut (sample_record ''k'' ''p'' 9) 0, OpGc 9]"] by metis
qed
end
