(* ===== verification/Memory_Swarm.thy ===== *)
theory Memory_Swarm
  imports Routing_Table Wire_Frame
begin

text \<open>
  \<^verbatim>\<open>src/transport.rs\<close>: the transport trait is one operation, which the service takes as an argument
  (the field \<open>net_rpc\<close> of its network); the in-memory swarm is the implementation of it the
  repository has. Handlers are functions from request to response; the maps are association lists;
  the JSON codecs of the two message types are the fields of \<open>wire_codec\<close>. A failure to serialize is
  the panic of \<open>expect\<close>, hence the option.
\<close>

type_synonym handler = "dht_request \<Rightarrow> dht_response"

record swarm =
  sw_nodes :: "(string \<times> handler) list"
  sw_offline :: "(string \<times> unit) list"

record 'j wire_codec =
  request_to_vec :: "dht_request \<Rightarrow> u8 list option"
  request_from_slice :: "u8 list \<Rightarrow> 'j + dht_request"
  response_to_vec :: "dht_response \<Rightarrow> u8 list option"
  response_from_slice :: "u8 list \<Rightarrow> 'j + dht_response"

definition swarm_new :: swarm where
  "swarm_new = \<lparr>sw_nodes = [], sw_offline = []\<rparr>"

definition swarm_register :: "swarm \<Rightarrow> string \<Rightarrow> handler \<Rightarrow> swarm" where
  "swarm_register sw pid h = sw\<lparr>sw_nodes := AList.update pid h (sw_nodes sw)\<rparr>"

definition swarm_set_offline :: "swarm \<Rightarrow> string \<Rightarrow> swarm" where
  "swarm_set_offline sw pid = sw\<lparr>sw_offline := AList.update pid () (sw_offline sw)\<rparr>"

definition memory_rpc ::
  "('t, 'j) safe_text \<Rightarrow> 'j wire_codec \<Rightarrow> swarm \<Rightarrow> contact \<Rightarrow> contact \<Rightarrow> dht_request \<Rightarrow>
     ('t dht_error + dht_response) option" where
  "memory_rpc T C sw sender peer request =
     (if map_of (sw_offline sw) (ct_peer_id peer) \<noteq> None
      then Some (Inl (transport_from_untrusted T (ct_peer_id peer @ '' is offline'')))
      else (case map_of (sw_nodes sw) (ct_peer_id peer) of
              None \<Rightarrow> Some (Inl (transport_from_untrusted T (''no route to '' @ ct_peer_id peer)))
            | Some h \<Rightarrow>
                (case request_encode (request_to_vec C) request of
                   None \<Rightarrow> None
                 | Some encoded \<Rightarrow>
                     (case fst (request_decode T (request_from_slice C) encoded) of
                        Inl e \<Rightarrow> Some (Inl (transport_from_untrusted T (snd e)))
                      | Inr decoded \<Rightarrow>
                          (case response_encode (response_to_vec C) (h decoded) of
                             None \<Rightarrow> None
                           | Some answer \<Rightarrow>
                               (case fst (response_decode T (response_from_slice C) answer) of
                                  Inl e \<Rightarrow> Some (Inl (transport_from_untrusted T (snd e)))
                                | Inr resp \<Rightarrow> Some (Inr resp)))))))"

subsection \<open>The codec contract\<close>

text \<open>What serde promises of one message: it serializes, and its bytes parse back to it. The frame
  adds that the body is within the bound.\<close>

definition framed_message :: "('m \<Rightarrow> u8 list option) \<Rightarrow> (u8 list \<Rightarrow> 'j + 'm) \<Rightarrow> 'm \<Rightarrow> bool" where
  "framed_message to_vec from_slice m \<longleftrightarrow>
     (\<exists>body. to_vec m = Some body \<and> from_slice body = Inr m \<and> length body \<le> MAX_FRAMED_BODY)"

lemma framed_round_trip:
  assumes "framed_message to_vec from_slice m"
  obtains frame where "encode_framed to_vec m = Some frame" "decode_framed T from_slice frame = (Inr m, [])"
proof -
  from assms obtain body where b: "to_vec m = Some body" "from_slice body = Inr m" "length body \<le> MAX_FRAMED_BODY"
    by (auto simp: framed_message_def)
  then show thesis
    using decode_frame[OF b(3), of T from_slice "[]"] by (intro that) (simp_all add: encode_framed_def)
qed

subsection \<open>Properties\<close>

text \<open>An RPC over the swarm is the handler's answer. To a registered peer that is not offline it
  returns exactly what the peer's handler says to the request sent, when both messages survive their
  codec and fit a frame; to an offline or an unknown peer it is a transport error and no handler
  runs; registering or silencing one peer changes nothing for another.\<close>

theorem memory_rpc_delivers:
  assumes "framed_message (request_to_vec C) (request_from_slice C) request"
    "framed_message (response_to_vec C) (response_from_slice C) (h request)"
    "ct_peer_id other \<noteq> ct_peer_id peer" "map_of (sw_offline sw) (ct_peer_id peer) = None"
  shows "memory_rpc T C (swarm_register sw (ct_peer_id peer) h) sender peer request = Some (Inr (h request))
    \<and> memory_rpc T C (swarm_set_offline sw (ct_peer_id peer)) sender peer request
        = Some (Inl (transport_from_untrusted T (ct_peer_id peer @ '' is offline'')))
    \<and> (map_of (sw_nodes sw) (ct_peer_id peer) = None \<longrightarrow> memory_rpc T C sw sender peer request
        = Some (Inl (transport_from_untrusted T (''no route to '' @ ct_peer_id peer))))
    \<and> memory_rpc T C (swarm_register sw (ct_peer_id peer) h) sender other request
        = memory_rpc T C sw sender other request
    \<and> memory_rpc T C (swarm_set_offline sw (ct_peer_id peer)) sender other request
        = memory_rpc T C sw sender other request"
proof -
  from framed_round_trip[OF assms(1), of T] obtain f1 where f1:
    "encode_framed (request_to_vec C) request = Some f1"
    "decode_framed T (request_from_slice C) f1 = (Inr request, [])" .
  from framed_round_trip[OF assms(2), of T] obtain f2 where f2:
    "encode_framed (response_to_vec C) (h request) = Some f2"
    "decode_framed T (response_from_slice C) f2 = (Inr (h request), [])" .
  show ?thesis
    using assms(3,4) f1 f2
    by (simp add: memory_rpc_def swarm_register_def swarm_set_offline_def map_of_update request_encode_def
        request_decode_def response_encode_def response_decode_def)
qed

theorem memory_rpc_delivers_witness:
  "memory_rpc sample_safe_text
     \<lparr>request_to_vec = (\<lambda>_. Some [1]), request_from_slice = (\<lambda>_. Inr (Ping 7)),
      response_to_vec = (\<lambda>_. Some [2]), response_from_slice = (\<lambda>_. Inr (Pong 7))\<rparr>
     (swarm_register swarm_new ''a'' (\<lambda>_. Pong 7)) \<lparr>ct_peer_id = ''c'', ct_addresses = []\<rparr> \<lparr>ct_peer_id = ''a'', ct_addresses = []\<rparr> (Ping 7)
   = Some (Inr (Pong 7))"
  using memory_rpc_delivers[where request = "Ping 7" and h = "\<lambda>_. Pong 7"
      and C = "\<lparr>request_to_vec = (\<lambda>_. Some [1]), request_from_slice = (\<lambda>_. Inr (Ping 7)),
        response_to_vec = (\<lambda>_. Some [2]), response_from_slice = (\<lambda>_. Inr (Pong 7))\<rparr> :: string wire_codec"
      and peer = "\<lparr>ct_peer_id = ''a'', ct_addresses = []\<rparr>"
      and other = "\<lparr>ct_peer_id = ''b'', ct_addresses = []\<rparr>" and sw = swarm_new and T = sample_safe_text
      and sender = "\<lparr>ct_peer_id = ''c'', ct_addresses = []\<rparr>"]
  by (simp add: framed_message_def MAX_FRAMED_BODY_def swarm_new_def)

end
