(* ===== verification/Wall_Clock.thy ===== *)
theory Wall_Clock
  imports Dht_Prelude
begin

text \<open>
  \<^verbatim>\<open>src/clock.rs\<close>: the one reading of the system clock. The reading is the argument, in nanoseconds
  since the Unix epoch, negative for a clock set before it; \<open>SystemTime::duration_since\<close> is an error
  there. The operations of the store and the service take the resulting seconds as arguments.
\<close>

definition duration_since_epoch :: "int \<Rightarrow> unit + nat" where
  "duration_since_epoch reading = (if reading < 0 then Inl () else Inr (nat reading))"

definition now_secs :: "int \<Rightarrow> u64" where
  "now_secs reading =
     (let nanos = (case duration_since_epoch reading of Inl _ \<Rightarrow> 0 | Inr d \<Rightarrow> d)
      in of_nat (nanos div 10 ^ 9))"

text \<open>A clock that does not go back, within the range of a Rust \<open>Duration\<close>, gives readings that do not
  go back, which is what the monotonicity hypotheses on readings ask of it.\<close>

lemma now_secs_mono:
  assumes "r \<le> r'" "r' div 10 ^ 9 < 2 ^ 64"
  shows "now_secs r \<le> now_secs r'"
proof -
  let ?s = "\<lambda>x. nat x div 10 ^ 9"
  have val: "now_secs x = of_nat (?s x)" for x
    by (simp add: now_secs_def duration_since_epoch_def)
  have le: "?s r \<le> ?s r'" using assms(1) by (intro div_le_mono nat_mono)
  have "?s r' = nat (r' div 10 ^ 9)" by (simp add: nat_div_distrib')
  then have "?s r' < 2 ^ 64" using assms(2) by simp
  with le show ?thesis unfolding val by (simp add: word_le_nat_alt unat_of_nat)
qed

end
