(* ===== verification/Record_Tests.thy ===== *)
theory Record_Tests
  imports Wire_Messages
begin

text \<open>
  The unit tests of \<^verbatim>\<open>src/record.rs\<close>, each a closed statement over the model. A test that writes a
  record as JSON and reads it back is the trip through the raw messages of \<open>Wire_Messages\<close>; one that
  reads a literal JSON text starts from the raw record that text denotes. \<open>json_value\<close> stands for the
  shapes of a JSON value those tests put in the pointer field.
\<close>

datatype json_value = JString string | JNumber nat | JBool bool | JObject | JArray

fun json_as_str :: "json_value \<Rightarrow> string option" where
  "json_as_str (JString s) = Some s"
| "json_as_str _ = None"

definition test_pid :: "u8 \<Rightarrow> peer_id" where
  "test_pid b = replicate 32 b"

definition COIN_ID :: "u8 list" where
  "COIN_ID =
     [0x9a, 0x0b, 0xff, 0x01, 0x23, 0x45, 0x67, 0x89, 0xab, 0xcd, 0xef, 0x10, 0x20, 0x30, 0x40,
      0x50, 0x60, 0x70, 0x80, 0x90, 0xa0, 0xb0, 0xc0, 0xd0, 0xe0, 0xf0, 0x11, 0x22, 0x33, 0x44,
      0x55, 0x66]"

definition COIN_ID_HEX :: string where
  "COIN_ID_HEX = ''9a0bff0123456789abcdef102030405060708090a0b0c0d0e0f0112233445566''"

definition plain_record :: "externs \<Rightarrow> provider_record" where
  "plain_record E =
     provider_record_new E (key_from_bytes (replicate 32 0xAB)) (test_pid 0x07)
       [candidate_direct ''203.0.113.7'' 9444] 1000"

definition json_trip :: "externs \<Rightarrow> provider_record \<Rightarrow> provider_record" where
  "json_trip E r = read_record E json_as_str (write_record JString r)"

subsection \<open>The pointer\<close>

definition a_pointer_round_trips_and_decodes_to_its_bytes :: "externs \<Rightarrow> bool" where
  "a_pointer_round_trips_and_decodes_to_its_bytes E \<longleftrightarrow>
     (let rec = with_unverified_mirror_coin_id (plain_record E) COIN_ID; back = json_trip E rec
      in unverified_mirror_coin_id rec = Some COIN_ID_HEX
       \<and> back = rec \<and> unverified_mirror_coin_id_bytes back = Some COIN_ID)"

record legacy_provider_record =
  l_content_key :: string
  l_provider_peer_id :: string
  l_addresses :: "candidate_addr list"
  l_expires_at :: u64

definition read_legacy :: "'v raw_record \<Rightarrow> legacy_provider_record" where
  "read_legacy r =
     \<lparr>l_content_key = rr_content_key r, l_provider_peer_id = rr_provider_peer_id r,
      l_addresses = rr_addresses r, l_expires_at = rr_expires_at r\<rparr>"

definition an_old_peer_parses_a_record_carrying_the_new_pointer :: "externs \<Rightarrow> bool" where
  "an_old_peer_parses_a_record_carrying_the_new_pointer E \<longleftrightarrow>
     (let rec = with_unverified_mirror_coin_id (plain_record E) COIN_ID;
          legacy = read_legacy (write_record JString rec)
      in l_content_key legacy = content_key rec \<and> l_provider_peer_id legacy = provider_peer_id rec
       \<and> l_addresses legacy = pr_addresses rec \<and> l_expires_at legacy = expires_at rec)"

definition literal_record :: "json_value option \<Rightarrow> json_value raw_record" where
  "literal_record pointer =
     \<lparr>rr_content_key = concat (replicate 32 ''ab''), rr_provider_peer_id = concat (replicate 32 ''07''),
      rr_addresses = [\<lparr>ca_host = ''203.0.113.7'', ca_port = 9444, ca_kind = Direct\<rparr>],
      rr_expires_at = 1000, rr_mirror_coin = pointer\<rparr>"

definition a_new_peer_parses_a_record_with_no_pointer_field_at_all :: "externs \<Rightarrow> bool" where
  "a_new_peer_parses_a_record_with_no_pointer_field_at_all E \<longleftrightarrow>
     (let rec = read_record E json_as_str (literal_record None)
      in unverified_mirror_coin_id rec = None \<and> unverified_mirror_coin_id_bytes rec = None
       \<and> rec = plain_record E)"

definition an_absent_pointer_is_omitted_from_the_wire_entirely :: "externs \<Rightarrow> bool" where
  "an_absent_pointer_is_omitted_from_the_wire_entirely E \<longleftrightarrow>
     rr_mirror_coin (write_record JString (plain_record E)) = None"

definition every_malformed_pointer_normalizes_to_none_without_failing_the_record :: "externs \<Rightarrow> bool" where
  "every_malformed_pointer_normalizes_to_none_without_failing_the_record E \<longleftrightarrow>
     (let oversize = replicate (MAX_FRAMED_BODY - 512) (CHR ''a'');
          cases = [None, Some (JString ''''), Some (JString (replicate 63 (CHR ''a''))),
                   Some (JString (replicate 65 (CHR ''a''))), Some (JString (replicate 64 (CHR ''z''))),
                   Some (JNumber 12345), Some (JBool True), Some JObject, Some JArray,
                   Some (JString oversize)]
      in list_all (\<lambda>value.
           let rec = read_record E json_as_str (literal_record value)
           in unverified_mirror_coin_id rec = None \<and> rec = plain_record E) cases)"

definition the_sixty_four_hex_bound_holds_from_both_sides :: bool where
  "the_sixty_four_hex_bound_holds_from_both_sides \<longleftrightarrow>
     hex64_to_bytes (replicate 64 (CHR ''a'')) \<noteq> None
     \<and> hex64_to_bytes (replicate 65 (CHR ''a'')) = None
     \<and> hex64_to_bytes (replicate 63 (CHR ''a'')) = None"

definition to_ascii_uppercase :: "string \<Rightarrow> string" where
  "to_ascii_uppercase s =
     map (\<lambda>c. let n = (of_char c :: nat) in if 97 \<le> n \<and> n \<le> 122 then char_of (n - 32) else c) s"

definition an_uppercase_pointer_is_canonicalized_rather_than_dropped :: "externs \<Rightarrow> bool" where
  "an_uppercase_pointer_is_canonicalized_rather_than_dropped E \<longleftrightarrow>
     (let rec = read_record E json_as_str (literal_record (Some (JString (to_ascii_uppercase COIN_ID_HEX))))
      in unverified_mirror_coin_id rec = Some COIN_ID_HEX
       \<and> unverified_mirror_coin_id_bytes rec = Some COIN_ID
       \<and> rec = with_unverified_mirror_coin_id (plain_record E) COIN_ID)"

definition record_round_trips_through_json :: "externs \<Rightarrow> bool" where
  "record_round_trips_through_json E \<longleftrightarrow>
     (let key = key_from_bytes (replicate 32 0xAB);
          rec = provider_record_new E key (test_pid 0x07) [candidate_direct ''203.0.113.7'' 9444] 1000;
          back = json_trip E rec
      in rec = back \<and> record_peer_id E back = Some (test_pid 0x07) \<and> content_key back = to_hex key)"

definition ttl_expiry :: "externs \<Rightarrow> bool" where
  "ttl_expiry E \<longleftrightarrow>
     (let rec = provider_record_new E (key_from_bytes (replicate 32 0)) (test_pid 1) [] 100
      in \<not> is_expired rec 99 \<and> is_expired rec 100 \<and> is_expired rec 101)"

subsection \<open>The stored order\<close>

definition best_address_prefers_most_direct :: "externs \<Rightarrow> bool" where
  "best_address_prefers_most_direct E \<longleftrightarrow>
     (let rec = provider_record_new E (key_from_bytes (replicate 32 0)) (test_pid 1)
                  [\<lparr>ca_host = ''r'', ca_port = 1, ca_kind = Reflexive\<rparr>, candidate_direct ''d'' 2, relay_marker] 10
      in map_option ca_kind (best_address (pr_addresses rec)) = Some Direct)"

definition best_address_none_when_only_relay :: "externs \<Rightarrow> bool" where
  "best_address_none_when_only_relay E \<longleftrightarrow>
     (let rec = provider_record_new E (key_from_bytes (replicate 32 0)) (test_pid 1) [relay_marker] 10
      in best_address (pr_addresses rec) = None)"

definition address_rank_ordering :: bool where
  "address_rank_ordering \<longleftrightarrow>
     kind_rank Direct < kind_rank Mapped \<and> kind_rank Mapped < kind_rank Reflexive
     \<and> kind_rank Reflexive < kind_rank Relay \<and> \<not> is_dialable Relay \<and> is_dialable Direct"

definition record_with :: "externs \<Rightarrow> candidate_addr list \<Rightarrow> provider_record" where
  "record_with E addresses =
     provider_record_new E (key_from_bytes (replicate 32 0)) (test_pid 1) addresses 10"

definition hosts :: "candidate_addr list \<Rightarrow> string list" where
  "hosts as = map ca_host as"

definition provider_record_new_sorts_addresses_ipv6_first :: "externs \<Rightarrow> bool" where
  "provider_record_new_sorts_addresses_ipv6_first E \<longleftrightarrow>
     hosts (pr_addresses (record_with E
       [candidate_direct ''203.0.113.7'' 9444, candidate_direct ''2001:db8::1'' 9444,
        \<lparr>ca_host = ''198.51.100.2'', ca_port = 1, ca_kind = Reflexive\<rparr>,
        \<lparr>ca_host = ''2001:db8::2'', ca_port = 1, ca_kind = Reflexive\<rparr>]))
     = [''2001:db8::1'', ''2001:db8::2'', ''203.0.113.7'', ''198.51.100.2'']"

definition family_key_derives_from_dig_ip_family :: "externs \<Rightarrow> bool" where
  "family_key_derives_from_dig_ip_family E \<longleftrightarrow>
     hosts (pr_addresses (record_with E
       [candidate_direct ''::ffff:203.0.113.9'' 9444, candidate_direct ''2001:db8::1'' 9444]))
     = [''2001:db8::1'', ''::ffff:203.0.113.9'']"

definition directness_kind_rank_preserved_as_tiebreak_within_a_family :: "externs \<Rightarrow> bool" where
  "directness_kind_rank_preserved_as_tiebreak_within_a_family E \<longleftrightarrow>
     hosts (pr_addresses (record_with E
       [\<lparr>ca_host = ''2001:db8::3'', ca_port = 1, ca_kind = Reflexive\<rparr>,
        \<lparr>ca_host = ''2001:db8::2'', ca_port = 1, ca_kind = Mapped\<rparr>,
        candidate_direct ''2001:db8::1'' 9444]))
     = [''2001:db8::1'', ''2001:db8::2'', ''2001:db8::3'']"

definition best_address_prefers_ipv6_over_ipv4_at_same_rank :: "externs \<Rightarrow> bool" where
  "best_address_prefers_ipv6_over_ipv4_at_same_rank E \<longleftrightarrow>
     map_option ca_host (best_address (pr_addresses (record_with E
       [candidate_direct ''203.0.113.7'' 9444, candidate_direct ''2001:db8::1'' 9444])))
     = Some ''2001:db8::1''"

subsection \<open>The address bound\<close>

definition provider_record_new_caps_addresses_at_the_constant :: "externs \<Rightarrow> bool" where
  "provider_record_new_caps_addresses_at_the_constant E \<longleftrightarrow>
     (let many = map (\<lambda>i. candidate_direct (''203.0.113.'' @ nat_to_string 10 (i mod 255)) 9444) [0..<1000]
      in length (pr_addresses (record_with E many)) = MAX_ADDRESSES_PER_RECORD)"

definition filler :: "nat \<Rightarrow> candidate_addr list" where
  "filler n =
     map (\<lambda>i. \<lparr>ca_host = ''198.51.100.'' @ nat_to_string 10 (i mod 255), ca_port = 1, ca_kind = Relay\<rparr>) [0..<n]"

definition provider_record_new_cap_keeps_most_preferred_after_sort :: "externs \<Rightarrow> bool" where
  "provider_record_new_cap_keeps_most_preferred_after_sort E \<longleftrightarrow>
     (let rec = record_with E (candidate_direct ''2001:db8::1'' 9444 # filler 1000)
      in length (pr_addresses rec) = MAX_ADDRESSES_PER_RECORD
       \<and> ca_host (pr_addresses rec ! 0) = ''2001:db8::1'')"

definition record_json_with :: "candidate_addr list \<Rightarrow> json_value raw_record" where
  "record_json_with addrs =
     \<lparr>rr_content_key = concat (replicate 32 ''aa''), rr_provider_peer_id = concat (replicate 32 ''bb''),
      rr_addresses = addrs, rr_expires_at = 1, rr_mirror_coin = None\<rparr>"

definition record_json_with_addresses :: "nat \<Rightarrow> json_value raw_record" where
  "record_json_with_addresses n = record_json_with (filler n)"

definition deserialization_bounds_the_address_count :: "externs \<Rightarrow> bool" where
  "deserialization_bounds_the_address_count E \<longleftrightarrow>
     (let rec = read_record E json_as_str (record_json_with_addresses 1000)
      in length (pr_addresses rec) = MAX_ADDRESSES_PER_RECORD)"

definition deserialization_bound_is_one_off_exact :: "externs \<Rightarrow> bool" where
  "deserialization_bound_is_one_off_exact E \<longleftrightarrow>
     (let at_cap = read_record E json_as_str (record_json_with_addresses MAX_ADDRESSES_PER_RECORD);
          over_by_one = read_record E json_as_str (record_json_with_addresses (MAX_ADDRESSES_PER_RECORD + 1))
      in length (pr_addresses at_cap) = MAX_ADDRESSES_PER_RECORD
       \<and> length (pr_addresses over_by_one) = MAX_ADDRESSES_PER_RECORD)"

definition deserialization_keeps_the_most_preferred_addresses :: "externs \<Rightarrow> bool" where
  "deserialization_keeps_the_most_preferred_addresses E \<longleftrightarrow>
     (let addrs = rotate 1 (\<lparr>ca_host = ''2001:db8::1'', ca_port = 9444, ca_kind = Direct\<rparr> # filler 1000);
          rec = read_record E json_as_str (record_json_with addrs)
      in length (pr_addresses rec) = MAX_ADDRESSES_PER_RECORD
       \<and> ca_host (pr_addresses rec ! 0) = ''2001:db8::1'')"

subsection \<open>The dial set\<close>

definition dial_of :: "externs \<Rightarrow> candidate_addr list \<Rightarrow> candidate_addr list" where
  "dial_of E addresses = dial_candidates E (pr_addresses (record_with E addresses))"

definition dial_candidates_order_v6_then_v4_then_unresolvable :: "externs \<Rightarrow> bool" where
  "dial_candidates_order_v6_then_v4_then_unresolvable E \<longleftrightarrow>
     hosts (dial_of E [candidate_direct ''not-a-literal'' 9444, candidate_direct ''203.0.113.7'' 9444,
                       candidate_direct ''2001:db8::1'' 9444])
     = [''2001:db8::1'', ''203.0.113.7'', ''not-a-literal'']"

definition dial_candidates_keep_the_ipv4_fallback_behind_an_ipv6_candidate :: "externs \<Rightarrow> bool" where
  "dial_candidates_keep_the_ipv4_fallback_behind_an_ipv6_candidate E \<longleftrightarrow>
     (let candidates = dial_of E [candidate_direct ''2001:db8::1'' 9444, candidate_direct ''172.31.79.22'' 9444]
      in length candidates = 2 \<and> ca_host (candidates ! 0) = ''2001:db8::1''
       \<and> ca_host (candidates ! 1) = ''172.31.79.22'')"

definition dial_candidates_treat_v4_mapped_v6_as_ipv4 :: "externs \<Rightarrow> bool" where
  "dial_candidates_treat_v4_mapped_v6_as_ipv4 E \<longleftrightarrow>
     hosts (dial_of E [candidate_direct ''::ffff:203.0.113.9'' 9444, candidate_direct ''2001:db8::1'' 9444])
     = [''2001:db8::1'', ''::ffff:203.0.113.9'']"

definition dial_candidates_exclude_relay_markers :: "externs \<Rightarrow> bool" where
  "dial_candidates_exclude_relay_markers E \<longleftrightarrow>
     (let candidates = dial_of E [relay_marker, candidate_direct ''2001:db8::1'' 9444]
      in length candidates = 1 \<and> ca_host (candidates ! 0) = ''2001:db8::1'')"

definition dial_candidates_are_bounded_and_deduped :: "externs \<Rightarrow> bool" where
  "dial_candidates_are_bounded_and_deduped E \<longleftrightarrow>
     (let candidates = dial_of E (replicate 3 (candidate_direct ''2001:db8::1'' 9444)
                         @ map (\<lambda>i. candidate_direct (''10.0.0.'' @ nat_to_string 10 i) 9444) [0..<5])
      in length candidates = MAX_DIAL_CANDIDATES
       \<and> length (filter (\<lambda>a. ca_host a = ''2001:db8::1'') candidates) = 1)"

definition dial_candidates_of_a_relay_only_record_are_empty :: "externs \<Rightarrow> bool" where
  "dial_candidates_of_a_relay_only_record_are_empty E \<longleftrightarrow> dial_of E [relay_marker] = []"

definition unresolvable_host_sorts_after_an_ipv4_literal_in_the_stored_order :: "externs \<Rightarrow> bool" where
  "unresolvable_host_sorts_after_an_ipv4_literal_in_the_stored_order E \<longleftrightarrow>
     hosts (pr_addresses (record_with E [candidate_direct ''not-a-literal'' 1, candidate_direct ''203.0.113.7'' 1]))
     = [''203.0.113.7'', ''not-a-literal'']"

definition dial_candidates_reserve_a_slot_for_the_ipv4_fallback :: "externs \<Rightarrow> bool" where
  "dial_candidates_reserve_a_slot_for_the_ipv4_fallback E \<longleftrightarrow>
     (let candidates = dial_of E
            [candidate_direct ''2001:db8::1'' 9444, candidate_direct ''2001:db8::2'' 9444,
             candidate_direct ''2001:db8::3'' 9444, candidate_direct ''2001:db8::4'' 9444,
             candidate_direct ''203.0.113.7'' 9444]
      in length candidates = MAX_DIAL_CANDIDATES
       \<and> list_ex (\<lambda>a. ca_host a = ''203.0.113.7'') candidates
       \<and> ca_host (candidates ! 0) = ''2001:db8::1'')"

definition dial_candidates_reserve_the_fallback_only_when_it_would_be_lost :: "externs \<Rightarrow> bool" where
  "dial_candidates_reserve_the_fallback_only_when_it_would_be_lost E \<longleftrightarrow>
     hosts (dial_of E
       [candidate_direct ''2001:db8::1'' 9444, candidate_direct ''2001:db8::2'' 9444,
        candidate_direct ''2001:db8::3'' 9444, candidate_direct ''203.0.113.7'' 9444])
     = [''2001:db8::1'', ''2001:db8::2'', ''2001:db8::3'', ''203.0.113.7'']"

definition dial_candidates_dedupe_equivalent_spellings_of_one_address :: "externs \<Rightarrow> bool" where
  "dial_candidates_dedupe_equivalent_spellings_of_one_address E \<longleftrightarrow>
     (let candidates = dial_of E
            [candidate_direct ''2001:db8::1'' 9444, candidate_direct ''2001:0db8::1'' 9444,
             candidate_direct ''2001:db8:0:0:0:0:0:1'' 9444, candidate_direct ''2001:DB8::1'' 9444,
             candidate_direct ''203.0.113.7'' 9444]
      in length candidates = 2 \<and> list_ex (\<lambda>a. ca_host a = ''203.0.113.7'') candidates)"

definition dial_candidates_treat_a_v4_mapped_spelling_as_the_same_address_as_its_ipv4 :: "externs \<Rightarrow> bool" where
  "dial_candidates_treat_a_v4_mapped_spelling_as_the_same_address_as_its_ipv4 E \<longleftrightarrow>
     length (dial_of E [candidate_direct ''::ffff:203.0.113.7'' 9444, candidate_direct ''203.0.113.7'' 9444]) = 1"

definition dial_candidates_keep_distinct_ports_of_one_host_apart :: "externs \<Rightarrow> bool" where
  "dial_candidates_keep_distinct_ports_of_one_host_apart E \<longleftrightarrow>
     length (dial_of E [candidate_direct ''2001:db8::1'' 9444, candidate_direct ''2001:db8::1'' 9445]) = 2"

subsection \<open>The model passes\<close>

text \<open>The host literals of the tests, parsed.\<close>

lemma replicate_step: "0 < n \<Longrightarrow> replicate n x = x # replicate (n - 1) x"
  by (cases n) simp_all

lemma read_groups_step:
  "0 < n \<Longrightarrow> read_groups limit n s =
     (let i = limit - n in
      case (if i < limit - 1 then read_separator (CHR '':'') i read_ipv4_addr s else None) of
        Some (octets, s') \<Rightarrow>
          ([u16_from_be_bytes (octets ! 0) (octets ! 1), u16_from_be_bytes (octets ! 2) (octets ! 3)],
           True, s')
      | None \<Rightarrow>
          (case read_separator (CHR '':'') i (read_number 16 4 True 65536) s of
             None \<Rightarrow> ([], False, s)
           | Some (g, s') \<Rightarrow>
               (let (gs, ipv4, s'') = read_groups limit (n - 1) s' in (of_nat g # gs, ipv4, s''))))"
  by (cases n) (simp_all only: read_groups.simps diff_Suc_1 less_irrefl)

lemma read_octets_step:
  "0 < n \<Longrightarrow> read_octets i n s =
     (case read_separator (CHR ''.'') i (read_number 10 3 False 256) s of
        None \<Rightarrow> None
      | Some (g, s') \<Rightarrow>
          (case read_octets (Suc i) (n - 1) s' of
             None \<Rightarrow> None
           | Some (gs, s'') \<Rightarrow> Some (of_nat g # gs, s'')))"
  by (cases n) (simp_all only: read_octets.simps diff_Suc_1 less_irrefl)

lemmas parse_steps = parse_ip_addr_def read_ipv4_addr_def read_ipv6_addr_def read_groups_step read_octets_step
  read_separator_def read_number_def digit_value_def digits_value_def read_given_char_def u16_from_be_bytes_def

lemma literal_parses [simp]:
  "parse_ip_addr ''2001:db8::1'' = Some (IpV6 [0x2001, 0xdb8, 0, 0, 0, 0, 0, 1])"
  "parse_ip_addr ''2001:db8::2'' = Some (IpV6 [0x2001, 0xdb8, 0, 0, 0, 0, 0, 2])"
  "parse_ip_addr ''2001:db8::3'' = Some (IpV6 [0x2001, 0xdb8, 0, 0, 0, 0, 0, 3])"
  "parse_ip_addr ''2001:db8::4'' = Some (IpV6 [0x2001, 0xdb8, 0, 0, 0, 0, 0, 4])"
  "parse_ip_addr ''2001:0db8::1'' = Some (IpV6 [0x2001, 0xdb8, 0, 0, 0, 0, 0, 1])"
  "parse_ip_addr ''2001:db8:0:0:0:0:0:1'' = Some (IpV6 [0x2001, 0xdb8, 0, 0, 0, 0, 0, 1])"
  "parse_ip_addr ''2001:DB8::1'' = Some (IpV6 [0x2001, 0xdb8, 0, 0, 0, 0, 0, 1])"
  "parse_ip_addr ''::ffff:203.0.113.9'' = Some (IpV6 [0, 0, 0, 0, 0, 0xffff, 0xcb00, 0x7109])"
  "parse_ip_addr ''::ffff:203.0.113.7'' = Some (IpV6 [0, 0, 0, 0, 0, 0xffff, 0xcb00, 0x7107])"
  "parse_ip_addr ''203.0.113.7'' = Some (IpV4 [203, 0, 113, 7])"
  "parse_ip_addr ''198.51.100.2'' = Some (IpV4 [198, 51, 100, 2])"
  "parse_ip_addr ''172.31.79.22'' = Some (IpV4 [172, 31, 79, 22])"
  "parse_ip_addr ''10.0.0.0'' = Some (IpV4 [10, 0, 0, 0])" "parse_ip_addr ''10.0.0.1'' = Some (IpV4 [10, 0, 0, 1])"
  "parse_ip_addr ''10.0.0.2'' = Some (IpV4 [10, 0, 0, 2])" "parse_ip_addr ''10.0.0.3'' = Some (IpV4 [10, 0, 0, 3])"
  "parse_ip_addr ''10.0.0.4'' = Some (IpV4 [10, 0, 0, 4])"
  "parse_ip_addr ''not-a-literal'' = None" "parse_ip_addr ''r'' = None" "parse_ip_addr ''d'' = None"
  by (simp_all add: parse_steps replicate_step)

lemma sample_family_rank:
  "family_rank sample_externs a =
     (case parse_ip_addr (ca_host a) of
        None \<Rightarrow> 2 | Some (IpV4 _) \<Rightarrow> 1
      | Some (IpV6 segs) \<Rightarrow> if to_ipv4_mapped segs = None then 0 else 1)"
  by (simp add: family_rank_def sample_externs_def split: option.split ip_addr.split)

lemma digit_char_nth: "d < 16 \<Longrightarrow> digit_char d = ''0123456789abcdef'' ! d"
proof -
  have "\<forall>d\<in>set [0..<16]. digit_char d = ''0123456789abcdef'' ! d" by code_simp
  then show "d < 16 \<Longrightarrow> digit_char d = ''0123456789abcdef'' ! d" by (simp del: upt_rec_numeral)
qed

lemma literal_displays [simp]:
  "display_ipv6 [0x2001, 0xdb8, 0, 0, 0, 0, 0, 1] = ''2001:db8::1''"
  "display_ipv6 [0x2001, 0xdb8, 0, 0, 0, 0, 0, 2] = ''2001:db8::2''"
  "display_ipv6 [0x2001, 0xdb8, 0, 0, 0, 0, 0, 3] = ''2001:db8::3''"
  "display_ipv6 [0x2001, 0xdb8, 0, 0, 0, 0, 0, 4] = ''2001:db8::4''"
  "display_ipv4 [203, 0, 113, 7] = ''203.0.113.7''"
  "display_ipv4 [203, 51968, 113, 28935] = ''203.0.113.7''"
  "display_ipv4 [203, 51968, 113, 28937] = ''203.0.113.9''"
  "display_ipv4 [10, 0, 0, 0] = ''10.0.0.0''" "display_ipv4 [10, 0, 0, 1] = ''10.0.0.1''"
  "display_ipv4 [10, 0, 0, 2] = ''10.0.0.2''" "display_ipv4 [10, 0, 0, 3] = ''10.0.0.3''"
  "display_ipv4 [10, 0, 0, 4] = ''10.0.0.4''"
  "display_ipv4 [172, 31, 79, 22] = ''172.31.79.22''"
  by (simp_all add: display_ipv6_def display_ipv4_def fmt_subslice_def to_ipv4_mapped_def nat_to_string.simps digit_char_nth
      longest_zeroes.simps)

lemmas order_steps = record_with_def provider_record_new_def sort_and_cap_addresses_def sort_addresses_ipv6_first_def
  family_then_kind_rank_def sample_family_rank candidate_direct_def to_ipv4_mapped_def less_eq_prod_def
  address_bounds hosts_def relay_marker_def best_address_def Let_def

lemmas dial_steps = dial_of_def dial_candidates_def reserve_fallback_slot_and_cap_def is_ipv6_literal_def
  dial_identity_def order_steps

text \<open>A filler host is a short text.\<close>

lemma nat_to_string_short: "n < 1000 \<Longrightarrow> length (nat_to_string 10 n) \<le> 3"
  by (simp add: nat_to_string.simps[of 10 n] nat_to_string.simps[of 10 "n div 10"]
      nat_to_string.simps[of 10 "n div 10 div 10"])

lemma filler_mem:
  assumes "a \<in> set (filler n)"
  shows "length (ca_host a) \<le> MAX_HOST_LEN" "ca_kind a = Relay"
proof -
  from assms obtain i where i: "ca_host a = ''198.51.100.'' @ nat_to_string 10 (i mod 255)" and "ca_kind a = Relay"
    by (auto simp: filler_def)
  then show "ca_kind a = Relay" by simp
  have "i mod 255 < 1000" by (rule less_trans[of _ 255]) simp_all
  from nat_to_string_short[OF this] show "length (ca_host a) \<le> MAX_HOST_LEN"
    using i by (simp add: MAX_HOST_LEN_def)
qed

lemma best_address_prefers_most_direct_passes: "best_address_prefers_most_direct sample_externs"
  by (simp add: best_address_prefers_most_direct_def order_steps)

lemma best_address_none_when_only_relay_passes: "best_address_none_when_only_relay sample_externs"
  by (simp add: best_address_none_when_only_relay_def order_steps)

lemma address_rank_ordering_passes: address_rank_ordering
  by (simp add: address_rank_ordering_def order_steps)

lemma provider_record_new_sorts_addresses_ipv6_first_passes: "provider_record_new_sorts_addresses_ipv6_first sample_externs"
  by (simp add: provider_record_new_sorts_addresses_ipv6_first_def order_steps)

lemma family_key_derives_from_dig_ip_family_passes: "family_key_derives_from_dig_ip_family sample_externs"
  by (simp add: family_key_derives_from_dig_ip_family_def order_steps)

lemma directness_kind_rank_preserved_as_tiebreak_within_a_family_passes: "directness_kind_rank_preserved_as_tiebreak_within_a_family sample_externs"
  by (simp add: directness_kind_rank_preserved_as_tiebreak_within_a_family_def order_steps)

lemma best_address_prefers_ipv6_over_ipv4_at_same_rank_passes: "best_address_prefers_ipv6_over_ipv4_at_same_rank sample_externs"
  by (simp add: best_address_prefers_ipv6_over_ipv4_at_same_rank_def order_steps)

lemma dial_candidates_order_v6_then_v4_then_unresolvable_passes: "dial_candidates_order_v6_then_v4_then_unresolvable sample_externs"
  by (simp add: dial_candidates_order_v6_then_v4_then_unresolvable_def dial_steps)

lemma dial_candidates_keep_the_ipv4_fallback_behind_an_ipv6_candidate_passes: "dial_candidates_keep_the_ipv4_fallback_behind_an_ipv6_candidate sample_externs"
  by (simp add: dial_candidates_keep_the_ipv4_fallback_behind_an_ipv6_candidate_def dial_steps)

lemma dial_candidates_treat_v4_mapped_v6_as_ipv4_passes: "dial_candidates_treat_v4_mapped_v6_as_ipv4 sample_externs"
  by (simp add: dial_candidates_treat_v4_mapped_v6_as_ipv4_def dial_steps)

lemma dial_candidates_exclude_relay_markers_passes: "dial_candidates_exclude_relay_markers sample_externs"
  by (simp add: dial_candidates_exclude_relay_markers_def dial_steps)

lemma dial_candidates_are_bounded_and_deduped_passes: "dial_candidates_are_bounded_and_deduped sample_externs"
proof -
  have "replicate 3 (candidate_direct ''2001:db8::1'' 9444)
      @ map (\<lambda>i. candidate_direct (''10.0.0.'' @ nat_to_string 10 i) 9444) [0..<5] =
    map (\<lambda>h. candidate_direct h 9444) [''2001:db8::1'', ''2001:db8::1'', ''2001:db8::1'',
      ''10.0.0.0'', ''10.0.0.1'', ''10.0.0.2'', ''10.0.0.3'', ''10.0.0.4'']"
    by (simp add: replicate_step upt_rec nat_to_string.simps digit_char_nth)
  then show ?thesis by (simp add: dial_candidates_are_bounded_and_deduped_def dial_steps)
qed

lemma dial_candidates_of_a_relay_only_record_are_empty_passes: "dial_candidates_of_a_relay_only_record_are_empty sample_externs"
  by (simp add: dial_candidates_of_a_relay_only_record_are_empty_def dial_steps)

lemma unresolvable_host_sorts_after_an_ipv4_literal_in_the_stored_order_passes: "unresolvable_host_sorts_after_an_ipv4_literal_in_the_stored_order sample_externs"
  by (simp add: unresolvable_host_sorts_after_an_ipv4_literal_in_the_stored_order_def dial_steps)

lemma dial_candidates_reserve_a_slot_for_the_ipv4_fallback_passes: "dial_candidates_reserve_a_slot_for_the_ipv4_fallback sample_externs"
  by (simp add: dial_candidates_reserve_a_slot_for_the_ipv4_fallback_def dial_steps)

lemma dial_candidates_reserve_the_fallback_only_when_it_would_be_lost_passes: "dial_candidates_reserve_the_fallback_only_when_it_would_be_lost sample_externs"
  by (simp add: dial_candidates_reserve_the_fallback_only_when_it_would_be_lost_def dial_steps)

lemma dial_candidates_dedupe_equivalent_spellings_of_one_address_passes: "dial_candidates_dedupe_equivalent_spellings_of_one_address sample_externs"
  by (simp add: dial_candidates_dedupe_equivalent_spellings_of_one_address_def dial_steps)

lemma dial_candidates_treat_a_v4_mapped_spelling_as_the_same_address_as_its_ipv4_passes: "dial_candidates_treat_a_v4_mapped_spelling_as_the_same_address_as_its_ipv4 sample_externs"
  by (simp add: dial_candidates_treat_a_v4_mapped_spelling_as_the_same_address_as_its_ipv4_def dial_steps)

lemma dial_candidates_keep_distinct_ports_of_one_host_apart_passes: "dial_candidates_keep_distinct_ports_of_one_host_apart sample_externs"
  by (simp add: dial_candidates_keep_distinct_ports_of_one_host_apart_def dial_steps)

subsection \<open>The pointer and the bound\<close>

lemma coin_hex: "to_hex COIN_ID = COIN_ID_HEX"
  by (simp add: COIN_ID_def COIN_ID_HEX_def to_hex_concat hex_pair_def)

lemma coin_bytes: "hex64_to_bytes COIN_ID_HEX = Some COIN_ID"
  using hex64_to_hex[of COIN_ID] unfolding coin_hex by (simp add: COIN_ID_def)

lemma coin_canonical: "canonical_coin (Some COIN_ID_HEX)"
  using canonical_to_hex[of COIN_ID] unfolding coin_hex by (simp add: COIN_ID_def canonical_coin_def)

lemma plain_record_clean: "clean_record E (plain_record E)"
  by (simp add: clean_record_def plain_record_def provider_record_new_def sort_and_cap_capped sort_and_cap_idem
      canonical_coin_def)

lemma pointed_record_clean: "clean_record E (with_unverified_mirror_coin_id (plain_record E) COIN_ID)"
  using plain_record_clean[of E] coin_canonical
  by (simp add: clean_record_def with_unverified_mirror_coin_id_def to_hex64_eq_to_hex coin_hex)

lemma json_trip_clean: "clean_record E r \<Longrightarrow> json_trip E r = r"
  unfolding json_trip_def by (rule read_write_record) simp

lemma plain_literal: "read_record E json_as_str (literal_record p) = (plain_record E)
    \<lparr>unverified_mirror_coin_id := deserialize_mirror_coin_id json_as_str p\<rparr>"
  if "\<And>p. pid_to_hex E p = to_hex p"
  by (simp add: that read_record_def literal_record_def plain_record_def provider_record_new_def test_pid_def
      candidate_direct_def key_from_bytes_def to_hex_concat hex_pair_def)

lemmas pointer_steps = with_unverified_mirror_coin_id_def unverified_mirror_coin_id_bytes_def to_hex64_eq_to_hex coin_hex
  coin_bytes

lemma a_pointer_round_trips_and_decodes_to_its_bytes_passes:
  "a_pointer_round_trips_and_decodes_to_its_bytes sample_externs"
  using pointed_record_clean[of sample_externs]
  by (simp add: a_pointer_round_trips_and_decodes_to_its_bytes_def json_trip_clean) (simp add: pointer_steps)

lemma an_old_peer_parses_a_record_carrying_the_new_pointer_passes:
  "an_old_peer_parses_a_record_carrying_the_new_pointer sample_externs"
  by (simp add: an_old_peer_parses_a_record_carrying_the_new_pointer_def read_legacy_def write_record_def)

lemma a_new_peer_parses_a_record_with_no_pointer_field_at_all_passes:
  "a_new_peer_parses_a_record_with_no_pointer_field_at_all sample_externs"
  by (simp add: a_new_peer_parses_a_record_with_no_pointer_field_at_all_def plain_literal plain_record_def
      provider_record_new_def deserialize_mirror_coin_id_def normalize_mirror_coin_id_def unverified_mirror_coin_id_bytes_def)

lemma an_absent_pointer_is_omitted_from_the_wire_entirely_passes:
  "an_absent_pointer_is_omitted_from_the_wire_entirely sample_externs"
  by (simp add: an_absent_pointer_is_omitted_from_the_wire_entirely_def write_record_def plain_record_def
      provider_record_new_def)

lemma normalize_wrong_length: "length s \<noteq> 64 \<Longrightarrow> normalize_mirror_coin_id (Some s) = None"
  by (simp add: normalize_mirror_coin_id_def hex64_to_bytes_def to_ascii_lowercase_def)

lemma non_hex_pointer: "normalize_mirror_coin_id (Some (replicate 64 (CHR ''z''))) = None"
proof -
  have "to_ascii_lowercase (replicate 64 (CHR ''z'')) = CHR ''z'' # replicate 63 (CHR ''z'')"
    by (simp add: to_ascii_lowercase_def ascii_lower_def Let_def replicate_step)
  then show ?thesis by (simp add: normalize_mirror_coin_id_def hex64_to_bytes_def replicate_step[of 63] to_digit16_def)
qed

lemma every_malformed_pointer_normalizes_to_none_without_failing_the_record_passes:
  "every_malformed_pointer_normalizes_to_none_without_failing_the_record sample_externs"
proof -
  have "unverified_mirror_coin_id (plain_record sample_externs) = None"
    by (simp add: plain_record_def provider_record_new_def)
  then show ?thesis
    by (simp add: non_hex_pointer every_malformed_pointer_normalizes_to_none_without_failing_the_record_def plain_literal
        deserialize_mirror_coin_id_def normalize_wrong_length MAX_FRAMED_BODY_def normalize_mirror_coin_id_def[of None])
qed

lemma the_sixty_four_hex_bound_holds_from_both_sides_passes: the_sixty_four_hex_bound_holds_from_both_sides
proof -
  have "to_hex (replicate 32 0xaa) = replicate 64 (CHR ''a'')"
    by (simp add: to_hex_concat hex_pair_def replicate_step)
  then have "hex64_to_bytes (replicate 64 (CHR ''a'')) = Some (replicate 32 0xaa)"
    using hex64_to_hex[of "replicate 32 0xaa"] by simp
  then show ?thesis by (simp add: the_sixty_four_hex_bound_holds_from_both_sides_def) (simp add: hex64_to_bytes_def)
qed

lemma an_uppercase_pointer_is_canonicalized_rather_than_dropped_passes:
  "an_uppercase_pointer_is_canonicalized_rather_than_dropped sample_externs"
proof -
  have "to_ascii_lowercase (to_ascii_uppercase COIN_ID_HEX) = COIN_ID_HEX" by code_simp
  then have "normalize_mirror_coin_id (Some (to_ascii_uppercase COIN_ID_HEX)) = Some COIN_ID_HEX"
    by (simp add: normalize_mirror_coin_id_def coin_bytes)
  then show ?thesis
    by (simp add: an_uppercase_pointer_is_canonicalized_rather_than_dropped_def plain_literal
        deserialize_mirror_coin_id_def pointer_steps)
qed

lemma record_round_trips_through_json_passes: "record_round_trips_through_json sample_externs"
proof -
  have "json_trip sample_externs (plain_record sample_externs) = plain_record sample_externs"
    by (rule json_trip_clean) (rule plain_record_clean)
  moreover have "record_peer_id sample_externs (plain_record sample_externs) = Some (test_pid 0x07)"
    by (simp add: record_peer_id_def plain_record_def provider_record_new_def test_pid_def hex64_to_hex)
  ultimately show ?thesis
    by (simp add: record_round_trips_through_json_def plain_record_def[symmetric])
      (simp add: plain_record_def provider_record_new_def)
qed

lemma ttl_expiry_passes: "ttl_expiry sample_externs"
  by (simp add: ttl_expiry_def provider_record_new_def is_expired_def)

lemma length_sort_and_cap:
  "(\<And>a. a \<in> set as \<Longrightarrow> length (ca_host a) \<le> MAX_HOST_LEN) \<Longrightarrow>
   length (sort_and_cap_addresses E as) = min (length as) MAX_ADDRESSES_PER_RECORD"
  by (simp add: sort_and_cap_addresses_def sort_addresses_ipv6_first_def filter_True)

lemma sort_key_first:
  assumes "a \<in> set xs" "\<And>b. b \<in> set xs \<Longrightarrow> f b \<le> f a \<Longrightarrow> b = a"
  shows "sort_key f xs ! 0 = a"
proof (cases "sort_key f xs")
  case Nil
  with assms(1) show ?thesis by (metis set_empty set_sort empty_iff)
next
  case (Cons y ys)
  then have "y \<in> set xs" by (metis list.set_intros(1) set_sort)
  moreover have "f y \<le> f a" if "a \<in> set ys" using Cons sorted_sort_key[of f xs] that by auto
  moreover have "a \<in> set (y # ys)" using assms(1) Cons by (metis set_sort)
  ultimately show ?thesis using assms(2)[of y] Cons by auto
qed

lemma preferred_first:
  assumes "a \<in> set as" "\<And>b. b \<in> set as \<Longrightarrow> length (ca_host b) \<le> MAX_HOST_LEN"
    "family_then_kind_rank E a = (0, 0)" "\<And>b. b \<in> set as \<Longrightarrow> b \<noteq> a \<Longrightarrow> ca_kind b = Relay"
  shows "sort_and_cap_addresses E as ! 0 = a"
proof -
  have "sort_key (family_then_kind_rank E) as ! 0 = a"
  proof (rule sort_key_first[OF assms(1)])
    fix b assume b: "b \<in> set as" "family_then_kind_rank E b \<le> family_then_kind_rank E a"
    with assms(3) have "kind_rank (ca_kind b) = 0" by (auto simp: family_then_kind_rank_def less_eq_prod_def)
    with assms(4) b(1) show "b = a" by fastforce
  qed
  then show ?thesis
    using assms(2) by (simp add: sort_and_cap_addresses_def sort_addresses_ipv6_first_def filter_True MAX_ADDRESSES_PER_RECORD_def)
qed

lemma many_hosts_short: "length (''203.0.113.'' @ nat_to_string 10 (i mod 255)) \<le> MAX_HOST_LEN"
proof -
  have "i mod 255 < 1000" by (rule less_trans[of _ 255]) simp_all
  from nat_to_string_short[OF this] show ?thesis by (simp add: MAX_HOST_LEN_def)
qed

lemma provider_record_new_caps_addresses_at_the_constant_passes:
  "provider_record_new_caps_addresses_at_the_constant sample_externs"
proof -
  define many where
    "many = map (\<lambda>i. candidate_direct (''203.0.113.'' @ nat_to_string 10 (i mod 255)) 9444) [0..<1000]"
  have "length (ca_host a) \<le> MAX_HOST_LEN" if "a \<in> set many" for a
    using that many_hosts_short by (auto simp: many_def candidate_direct_def simp del: length_append append.simps)
  from length_sort_and_cap[of many, OF this] have "length (sort_and_cap_addresses sample_externs many) = MAX_ADDRESSES_PER_RECORD"
    by (simp add: many_def MAX_ADDRESSES_PER_RECORD_def)
  then show ?thesis
    unfolding provider_record_new_caps_addresses_at_the_constant_def many_def[symmetric]
    by (simp add: record_with_def provider_record_new_def)
qed

lemma length_filler: "length (filler n) = n"
  by (simp add: filler_def)

lemma record_json_bounded:
  "length (pr_addresses (read_record E json_as_str (record_json_with_addresses n))) = min n MAX_ADDRESSES_PER_RECORD"
  by (simp add: read_record_def record_json_with_addresses_def record_json_with_def length_sort_and_cap filler_mem
      length_filler)

lemma deserialization_bounds_the_address_count_passes: "deserialization_bounds_the_address_count sample_externs"
  by (simp add: deserialization_bounds_the_address_count_def record_json_bounded MAX_ADDRESSES_PER_RECORD_def)

lemma deserialization_bound_is_one_off_exact_passes: "deserialization_bound_is_one_off_exact sample_externs"
  by (simp add: deserialization_bound_is_one_off_exact_def record_json_bounded)

text \<open>One direct IPv6 candidate among relay fillers, wherever it stands, is kept and comes first.\<close>

lemma buried_candidate:
  assumes "set as = insert a (set (filler 1000))" "length as = 1001"
    "a = \<lparr>ca_host = ''2001:db8::1'', ca_port = 9444, ca_kind = Direct\<rparr>"
  shows "length (sort_and_cap_addresses sample_externs as) = MAX_ADDRESSES_PER_RECORD"
    "sort_and_cap_addresses sample_externs as ! 0 = a"
proof -
  have short: "length (ca_host b) \<le> MAX_HOST_LEN" if "b \<in> set as" for b
    using that assms(1,3) filler_mem(1) by (auto simp: MAX_HOST_LEN_def)
  from length_sort_and_cap[of as, OF this] assms(2)
  show "length (sort_and_cap_addresses sample_externs as) = MAX_ADDRESSES_PER_RECORD"
    by (simp add: MAX_ADDRESSES_PER_RECORD_def)
  have "family_then_kind_rank sample_externs a = (0, 0)" by (simp add: assms(3) order_steps)
  with short assms(1) filler_mem(2) show "sort_and_cap_addresses sample_externs as ! 0 = a"
    by (intro preferred_first) auto
qed

lemma provider_record_new_cap_keeps_most_preferred_after_sort_passes:
  "provider_record_new_cap_keeps_most_preferred_after_sort sample_externs"
  using buried_candidate[OF _ _ refl, of "candidate_direct ''2001:db8::1'' 9444 # filler 1000"]
  by (simp add: provider_record_new_cap_keeps_most_preferred_after_sort_def record_with_def provider_record_new_def
      candidate_direct_def length_filler)

lemma deserialization_keeps_the_most_preferred_addresses_passes:
  "deserialization_keeps_the_most_preferred_addresses sample_externs"
  using buried_candidate[OF _ _ refl,
      of "rotate 1 (\<lparr>ca_host = ''2001:db8::1'', ca_port = 9444, ca_kind = Direct\<rparr> # filler 1000)"]
  by (simp add: deserialization_keeps_the_most_preferred_addresses_def read_record_def record_json_with_def length_filler)

text \<open>Four IPv6 literals ahead of an IPv4-mapped address and a name that is no literal: the mapped address
  is the fallback that keeps a slot.\<close>

definition crowded :: "candidate_addr list" where
  "crowded = [candidate_direct ''2001:db8::1'' 9444, candidate_direct ''2001:db8::2'' 9444,
     candidate_direct ''2001:db8::3'' 9444, candidate_direct ''2001:db8::4'' 9444,
     candidate_direct ''not-a-literal'' 9444, candidate_direct ''::ffff:203.0.113.9'' 9444]"

theorem dial_candidates_keep_fallback_witness:
  "list_all (is_ipv6_literal sample_externs) (take MAX_DIAL_CANDIDATES crowded)
   \<and> candidate_direct ''::ffff:203.0.113.9'' 9444 \<in> set (dial_candidates sample_externs crowded)"
proof -
  let ?a = "candidate_direct ''::ffff:203.0.113.9'' 9444"
  have rule: "family_documented sample_externs" by (simp add: family_documented_def sample_externs_def)
  have a: "?a \<in> set crowded" "is_dialable (ca_kind ?a)" "\<not> is_ipv6_literal sample_externs ?a"
    by (simp_all add: crowded_def candidate_direct_def is_ipv6_literal_def sample_family_rank to_ipv4_mapped_def)
  from dial_candidates_keep_fallback[OF rule a] obtain b where b: "b \<in> set (dial_candidates sample_externs crowded)"
    "\<not> is_ipv6_literal sample_externs b" "family_then_kind_rank sample_externs b \<le> family_then_kind_rank sample_externs ?a"
    using a by blast
  have "b \<in> set crowded" using b(1) dial_pool_subset reserve_subset unfolding dial_candidates_pool by blast
  then have "b = ?a"
    using b(2,3) by (auto simp: crowded_def candidate_direct_def is_ipv6_literal_def order_steps)
  with b(1) show ?thesis
    by (simp add: crowded_def candidate_direct_def is_ipv6_literal_def order_steps)
qed

end
