(* ===== verification/Routing_Tests.thy ===== *)
theory Routing_Tests
  imports Record_Tests "HOL-Library.Monad_Syntax"
begin

text \<open>
  The unit tests of \<^verbatim>\<open>src/routing.rs\<close> and \<^verbatim>\<open>src/wire.rs\<close>, each a closed statement over the model. A
  table of the tests has its contacts in one bucket, \<open>one_bucket\<close>, on which an operation of the table
  is the operation of that bucket.
\<close>

subsection \<open>\<open>routing.rs\<close>\<close>

definition test_contact :: "externs \<Rightarrow> u8 list \<Rightarrow> contact" where
  "test_contact E bytes = contact_new E bytes [candidate_direct ''h'' 1]"

definition test_local :: peer_id where
  "test_local = replicate 32 0"

definition key_0 :: "u8 \<Rightarrow> u8 list" where
  "key_0 x = (replicate 32 0)[0 := x]"

definition key_0_31 :: "u8 \<Rightarrow> u8 \<Rightarrow> u8 list" where
  "key_0_31 x y = (replicate 32 0)[0 := x, 31 := y]"

definition insert_and_len :: "externs \<Rightarrow> bool" where
  "insert_and_len E \<longleftrightarrow>
     (let t = rt_new test_local 20
      in rt_is_empty t
       \<and> (case rt_insert E t (test_contact E (key_0 0x80)) of
            None \<Rightarrow> False | Some (outcome, t) \<Rightarrow> outcome = Inserted \<and> rt_len t = 1))"

definition own_id_is_never_stored :: "externs \<Rightarrow> bool" where
  "own_id_is_never_stored E \<longleftrightarrow>
     (let t = rt_new test_local 20
      in case rt_insert E t (test_contact E (replicate 32 0)) of
           None \<Rightarrow> False | Some (outcome, t) \<Rightarrow> outcome = Inserted \<and> rt_len t = 0)"

definition reinsert_refreshes_recency_not_count :: "externs \<Rightarrow> bool" where
  "reinsert_refreshes_recency_not_count E \<longleftrightarrow>
     (let t = rt_new test_local 20; b = key_0 0x01
      in case do { (_, t) \<leftarrow> rt_insert E t (test_contact E b); rt_insert E t (test_contact E b) } of
           None \<Rightarrow> False | Some (_, t) \<Rightarrow> rt_len t = 1)"

text \<open>The three contacts \<open>a\<close>, \<open>b\<close>, \<open>c\<close> that share bucket 255 in the tests of a full bucket, and the
  table after their insertion with \<open>k = 2\<close>, with the outcomes.\<close>

definition test_a :: "externs \<Rightarrow> contact" where "test_a E = test_contact E (key_0_31 0x80 0x01)"
definition test_b :: "externs \<Rightarrow> contact" where "test_b E = test_contact E (key_0_31 0x80 0x02)"
definition test_c :: "externs \<Rightarrow> contact" where "test_c E = test_contact E (key_0_31 0x80 0x03)"

definition offer_abc :: "externs \<Rightarrow> (insert_outcome \<times> insert_outcome \<times> insert_outcome \<times> routing_table) option" where
  "offer_abc E =
     do { (o1, t) \<leftarrow> rt_insert E (rt_new test_local 2) (test_a E);
          (o2, t) \<leftarrow> rt_insert E t (test_b E);
          (o3, t) \<leftarrow> rt_insert E t (test_c E);
          Some (o1, o2, o3, t) }"

definition full_bucket_reports_lru_and_does_not_grow :: "externs \<Rightarrow> bool" where
  "full_bucket_reports_lru_and_does_not_grow E \<longleftrightarrow>
     (case offer_abc E of None \<Rightarrow> False
      | Some (o1, o2, o3, t) \<Rightarrow>
          o1 = Inserted \<and> o2 = Inserted
          \<and> (case o3 of Full lru \<Rightarrow> lru = test_a E | Inserted \<Rightarrow> False) \<and> rt_len t = 2)"

definition replace_evicts_lru_for_candidate :: "externs \<Rightarrow> bool" where
  "replace_evicts_lru_for_candidate E \<longleftrightarrow>
     (case do { (_, _, o3, t) \<leftarrow> offer_abc E;
                lru \<leftarrow> (case o3 of Full lru \<Rightarrow> Some lru | Inserted \<Rightarrow> None);
                rt_replace E t lru (test_c E) } of
        None \<Rightarrow> False
      | Some (replaced, t) \<Rightarrow>
          (let keys = map ct_peer_id (concat (map kb_contacts (rt_buckets t)))
           in replaced \<and> rt_len t = 2
            \<and> ct_peer_id (test_a E) \<notin> set keys \<and> ct_peer_id (test_c E) \<in> set keys))"

definition replace_is_noop_if_lru_slot_changed :: "externs \<Rightarrow> bool" where
  "replace_is_noop_if_lru_slot_changed E \<longleftrightarrow>
     (case do { (_, _, o3, t) \<leftarrow> offer_abc E;
                lru \<leftarrow> (case o3 of Full lru \<Rightarrow> Some lru | Inserted \<Rightarrow> None);
                (_, t) \<leftarrow> rt_insert E t (test_a E);
                rt_replace E t lru (test_c E) } of
        None \<Rightarrow> False | Some (replaced, t) \<Rightarrow> \<not> replaced \<and> rt_len t = 2)"

definition remove_contact :: "externs \<Rightarrow> bool" where
  "remove_contact E \<longleftrightarrow>
     (let c = test_contact E (key_0 0x40)
      in case do { (_, t) \<leftarrow> rt_insert E (rt_new test_local 20) c;
                   (r1, t) \<leftarrow> rt_remove E t (ct_peer_id c);
                   (r2, t) \<leftarrow> rt_remove E t (ct_peer_id c);
                   Some (r1, r2, t) } of
           None \<Rightarrow> False | Some (r1, r2, t) \<Rightarrow> r1 \<and> \<not> r2 \<and> rt_is_empty t)"

fun insert_keys :: "externs \<Rightarrow> u8 list \<Rightarrow> routing_table \<Rightarrow> routing_table option" where
  "insert_keys E [] t = Some t"
| "insert_keys E (i # is) t =
     do { (_, t) \<leftarrow> rt_insert E t (test_contact E (key_0 i)); insert_keys E is t }"

definition closest_returns_k_sorted_by_distance :: "externs \<Rightarrow> bool" where
  "closest_returns_k_sorted_by_distance E \<longleftrightarrow>
     (case insert_keys E [1, 2, 3, 4, 5, 6, 7, 8, 9, 10] (rt_new test_local 20) of None \<Rightarrow> False
      | Some t \<Rightarrow>
          (let target = key_from_bytes (replicate 32 0); closest = rt_closest E t target;
               dists = map (\<lambda>c. distance target (the (contact_key E c))) closest
           in length closest = 10 \<and> sorted dists))"

definition closest_caps_at_k :: "externs \<Rightarrow> bool" where
  "closest_caps_at_k E \<longleftrightarrow>
     (case insert_keys E [1, 2, 3, 4, 5, 6, 7, 8, 9, 10] (rt_new test_local 3) of None \<Rightarrow> False
      | Some t \<Rightarrow> length (rt_closest E t (key_from_bytes (replicate 32 0))) = 3)"

definition non_empty_bucket_indices_tracks_population :: "externs \<Rightarrow> bool" where
  "non_empty_bucket_indices_tracks_population E \<longleftrightarrow>
     (let t = rt_new test_local 20
      in non_empty_bucket_indices t = []
       \<and> (case rt_insert E t (test_contact E (key_0 0x80)) of
            None \<Rightarrow> False | Some (_, t) \<Rightarrow> non_empty_bucket_indices t = [255]))"

definition contact_key_and_best_address :: "externs \<Rightarrow> bool" where
  "contact_key_and_best_address E \<longleftrightarrow>
     (let c = test_contact E (key_0 0x22)
      in contact_key E c \<noteq> None \<and> map_option ca_kind (contact_best_address c) = Some Direct)"

definition contact_with :: "externs \<Rightarrow> candidate_addr list \<Rightarrow> contact" where
  "contact_with E addresses = contact_new E (test_pid 1) addresses"

definition contact_new_sorts_addresses_ipv6_first :: "externs \<Rightarrow> bool" where
  "contact_new_sorts_addresses_ipv6_first E \<longleftrightarrow>
     hosts (ct_addresses (contact_with E
       [candidate_direct ''203.0.113.7'' 9444, candidate_direct ''2001:db8::1'' 9444,
        \<lparr>ca_host = ''198.51.100.2'', ca_port = 1, ca_kind = Reflexive\<rparr>,
        \<lparr>ca_host = ''2001:db8::2'', ca_port = 1, ca_kind = Reflexive\<rparr>]))
     = [''2001:db8::1'', ''2001:db8::2'', ''203.0.113.7'', ''198.51.100.2'']"

definition contact_best_address_prefers_ipv6_over_ipv4_at_same_rank :: "externs \<Rightarrow> bool" where
  "contact_best_address_prefers_ipv6_over_ipv4_at_same_rank E \<longleftrightarrow>
     map_option ca_host (contact_best_address (contact_with E
       [candidate_direct ''203.0.113.7'' 9444, candidate_direct ''2001:db8::1'' 9444]))
     = Some ''2001:db8::1''"

definition contact_new_caps_addresses_at_the_constant :: "externs \<Rightarrow> bool" where
  "contact_new_caps_addresses_at_the_constant E \<longleftrightarrow>
     (let many = map (\<lambda>i. candidate_direct (''203.0.113.'' @ nat_to_string 10 (i mod 255)) 9444) [0..<1000]
      in length (ct_addresses (contact_with E many)) = MAX_ADDRESSES_PER_RECORD)"

definition contact_deserialization_bounds_the_address_count :: "externs \<Rightarrow> bool" where
  "contact_deserialization_bounds_the_address_count E \<longleftrightarrow>
     (let c = read_contact E \<lparr>rc_peer_id = concat (replicate 32 ''cc''), rc_addresses = filler 1000\<rparr>
      in length (ct_addresses c) = MAX_ADDRESSES_PER_RECORD)"

definition contact_dial_candidates_order_v6_then_v4_then_unresolvable :: "externs \<Rightarrow> bool" where
  "contact_dial_candidates_order_v6_then_v4_then_unresolvable E \<longleftrightarrow>
     hosts (contact_dial_candidates E (contact_with E
       [candidate_direct ''not-a-literal'' 9444, candidate_direct ''203.0.113.7'' 9444,
        candidate_direct ''2001:db8::1'' 9444, relay_marker]))
     = [''2001:db8::1'', ''203.0.113.7'', ''not-a-literal'']"

subsection \<open>\<open>wire.rs\<close>\<close>

definition find_node_round_trips_framed ::
  "externs \<Rightarrow> (json_value raw_request \<Rightarrow> u8 list option) \<Rightarrow> (u8 list \<Rightarrow> string + json_value raw_request) \<Rightarrow> bool" where
  "find_node_round_trips_framed E to_vec parse \<longleftrightarrow>
     (let req = FindNode (concat (replicate 32 ''ab''))
      in case request_encode (to_vec \<circ> write_request JString) req of None \<Rightarrow> False
         | Some bytes \<Rightarrow>
             fst (request_decode sample_safe_text (read_with (read_request E json_as_str) parse) bytes) = Inr req)"

definition test_response :: dht_response where
  "test_response =
     Providers
       [\<lparr>content_key = concat (replicate 32 ''cd''), provider_peer_id = concat (replicate 32 ''ef''),
         pr_addresses = [candidate_direct ''203.0.113.7'' 9444], expires_at = 1719763200,
         unverified_mirror_coin_id = None\<rparr>]
       [\<lparr>ct_peer_id = concat (replicate 32 ''12''),
         ct_addresses = [\<lparr>ca_host = ''h'', ca_port = 1, ca_kind = Mapped\<rparr>]\<rparr>]"

definition providers_response_round_trips ::
  "externs \<Rightarrow> (json_value raw_response \<Rightarrow> u8 list option) \<Rightarrow> (u8 list \<Rightarrow> string + json_value raw_response) \<Rightarrow> bool" where
  "providers_response_round_trips E to_vec parse \<longleftrightarrow>
     (case response_encode (to_vec \<circ> write_response JString) test_response of None \<Rightarrow> False
      | Some bytes \<Rightarrow>
          fst (response_decode sample_safe_text (read_with (read_response E json_as_str) parse) bytes) = Inr test_response)"

definition oversize_length_prefix_is_rejected :: "(u8 list \<Rightarrow> string + dht_request) \<Rightarrow> bool" where
  "oversize_length_prefix_is_rejected from_slice \<longleftrightarrow>
     (let buf = u32_to_be_bytes (word_of_nat (MAX_FRAMED_BODY + 1)) @ [0x7b, 0x7d]
      in case fst (request_decode sample_safe_text from_slice buf) of
           Inl (kind, _) \<Rightarrow> kind = InvalidData | Inr _ \<Rightarrow> False)"

definition truncated_frame_errors :: "(u8 list \<Rightarrow> string + dht_request) \<Rightarrow> bool" where
  "truncated_frame_errors from_slice \<longleftrightarrow>
     (let buf = u32_to_be_bytes 100 @ [0x7b, 0x7d]
      in case fst (request_decode sample_safe_text from_slice buf) of Inl _ \<Rightarrow> True | Inr _ \<Rightarrow> False)"

subsection \<open>The model passes\<close>

text \<open>A table with contacts in one bucket.\<close>

definition one_bucket :: "nat \<Rightarrow> nat \<Rightarrow> contact list \<Rightarrow> routing_table" where
  "one_bucket k i cs = (rt_new test_local k)
     \<lparr>rt_buckets := (rt_buckets (rt_new test_local k))[i := \<lparr>kb_contacts = cs, kb_capacity = k\<rparr>]\<rparr>"

lemma rt_new_buckets: "rt_buckets (rt_new p k) = replicate 256 (kbucket_new k)"
  by (simp add: rt_new_def map_replicate_const del: upt_rec_numeral)

lemma replicate_one: "i < n \<Longrightarrow> f x = [] \<Longrightarrow> concat (map f ((replicate n x)[i := y])) = f y"
  by (induction n arbitrary: i) (auto simp: less_Suc_eq_0_disj)

lemma one_bucket_contacts: "i < 256 \<Longrightarrow> rt_contacts (one_bucket k i cs) = cs"
  by (simp add: one_bucket_def rt_contacts_def rt_new_buckets replicate_one kbucket_new_def)

lemma one_bucket_new: "i < 256 \<Longrightarrow> rt_new test_local k = one_bucket k i []"
proof -
  assume "i < 256"
  then have "(replicate 256 (kbucket_new k))[i := kbucket_new k] = replicate 256 (kbucket_new k)"
    by (simp add: list_update_same_conv)
  then have "(rt_buckets (rt_new test_local k))[i := kbucket_new k] = rt_buckets (rt_new test_local k)"
    by (simp add: rt_new_buckets)
  then show ?thesis unfolding one_bucket_def kbucket_new_def by simp
qed

lemma one_bucket_facts:
  assumes "i < 256"
  shows "rt_buckets (one_bucket k i cs) ! i = \<lparr>kb_contacts = cs, kb_capacity = k\<rparr>"
    "length (rt_buckets (one_bucket k i cs)) = 256" "rt_local_key (one_bucket k i cs) = replicate 32 0"
    "(one_bucket k i cs)\<lparr>rt_buckets := (rt_buckets (one_bucket k i cs))[i := \<lparr>kb_contacts = cs', kb_capacity = k\<rparr>]\<rparr>
      = one_bucket k i cs'"
    "rt_len (one_bucket k i cs) = length cs"
  using assms one_bucket_contacts[OF assms]
  by (simp_all add: one_bucket_def rt_len_contacts rt_new_buckets) (simp add: rt_new_def key_from_peer_id_def test_local_def)

lemma test_contact_id: "ct_peer_id (test_contact sample_externs b) = to_hex b"
  by (simp add: test_contact_def contact_new_def)

lemma test_contact_key: "length b = 32 \<Longrightarrow> contact_key sample_externs (test_contact sample_externs b) = Some b"
  by (simp add: contact_key_def contact_peer_id_def test_contact_id hex64_to_hex key_from_peer_id_def)

lemma distance_zero_left: "length b = 32 \<Longrightarrow> distance (replicate 32 0) b = b"
  by (rule nth_equalityI) (simp_all add: distance_def)

lemma test_keys:
  "length (key_0 x) = 32" "length (key_0_31 x y) = 32"
  "bucket_index (key_0 0x80) = Some 255" "bucket_index (key_0 0x01) = Some 248" "bucket_index (key_0 0x40) = Some 254"
  "bucket_index (key_0_31 0x80 0x01) = Some 255" "bucket_index (key_0_31 0x80 0x02) = Some 255"
  "bucket_index (key_0_31 0x80 0x03) = Some 255"
  by (simp_all add: key_0_def key_0_31_def) code_simp+

lemma same_id: "length a = 32 \<Longrightarrow> length b = 32 \<Longrightarrow> to_hex a = to_hex b \<longleftrightarrow> a = b"
  by (rule key_hex.enc_inject)

lemma key_0_31_eq: "key_0_31 x y = key_0_31 x' y' \<longleftrightarrow> x = x' \<and> y = y'"
proof
  assume "key_0_31 x y = key_0_31 x' y'"
  then have "key_0_31 x y ! 0 = key_0_31 x' y' ! 0" "key_0_31 x y ! 31 = key_0_31 x' y' ! 31" by simp_all
  then show "x = x' \<and> y = y'" by (simp add: key_0_31_def)
qed simp

lemma offer_capacity: "bucket_offer b c = Some (outcome, b') \<Longrightarrow> kb_capacity b' = kb_capacity b"
  by (auto elim!: bucket_offer_cases)

lemma kbucket_eq: "kb_capacity b = k \<Longrightarrow> b = \<lparr>kb_contacts = kb_contacts b, kb_capacity = k\<rparr>"
  by simp

lemma one_bucket_insert:
  assumes "length b = 32" "bucket_index b = Some i" "i < 256"
  shows "rt_insert sample_externs (one_bucket k i cs) (test_contact sample_externs b) =
    map_option (\<lambda>(outcome, bk). (outcome, one_bucket k i (kb_contacts bk)))
      (bucket_offer \<lparr>kb_contacts = cs, kb_capacity = k\<rparr> (test_contact sample_externs b))"
proof -
  have "(one_bucket k i cs)\<lparr>rt_buckets := (rt_buckets (one_bucket k i cs))[i := bk]\<rparr> = one_bucket k i (kb_contacts bk)"
    if "bucket_offer \<lparr>kb_contacts = cs, kb_capacity = k\<rparr> (test_contact sample_externs b) = Some (outcome, bk)" for outcome bk
    using one_bucket_facts(4)[OF assms(3), of k cs "kb_contacts bk"] kbucket_eq[of bk k] offer_capacity[OF that] by simp
  then show ?thesis
    using assms by (auto simp: rt_insert_def test_contact_key bucket_for_def one_bucket_facts distance_zero_left
        split: option.split)
qed

lemmas bucket_steps = bucket_offer_def bucket_replace_def bucket_remove_def kbucket_new_def test_contact_id same_id test_keys
  one_bucket_insert one_bucket_facts

lemma insert_and_len_passes: "insert_and_len sample_externs"
  by (simp add: insert_and_len_def one_bucket_new[of 255] bucket_steps rt_is_empty_def)

lemma own_id_is_never_stored_passes: "own_id_is_never_stored sample_externs"
proof -
  have "bucket_index (replicate 32 0) = None" by code_simp
  then have "rt_insert sample_externs (one_bucket 20 0 []) (test_contact sample_externs (replicate 32 0))
      = Some (Inserted, one_bucket 20 0 [])"
    by (simp add: rt_insert_def test_contact_key bucket_for_def one_bucket_facts distance_zero_left)
  then show ?thesis by (simp add: own_id_is_never_stored_def one_bucket_new[of 0] one_bucket_facts)
qed

lemma reinsert_refreshes_recency_not_count_passes: "reinsert_refreshes_recency_not_count sample_externs"
  by (simp add: reinsert_refreshes_recency_not_count_def one_bucket_new[of 248] bucket_steps remove_at_def Let_def)

lemma offer_abc_result:
  "offer_abc sample_externs = Some (Inserted, Inserted, Full (test_a sample_externs),
     one_bucket 2 255 [test_a sample_externs, test_b sample_externs])"
  by (simp add: offer_abc_def one_bucket_new[of 255] test_a_def test_b_def test_c_def bucket_steps key_0_31_eq)

lemma full_bucket_reports_lru_and_does_not_grow_passes: "full_bucket_reports_lru_and_does_not_grow sample_externs"
  by (simp add: full_bucket_reports_lru_and_does_not_grow_def offer_abc_result one_bucket_facts)

lemma one_bucket_replace:
  assumes "length b = 32" "bucket_index b = Some i" "i < 256"
  shows "rt_replace sample_externs (one_bucket k i (front # rest)) lru (test_contact sample_externs b) =
    Some (if ct_peer_id front = ct_peer_id lru then (True, one_bucket k i (rest @ [test_contact sample_externs b]))
          else (False, one_bucket k i (front # rest)))"
  using assms
  by (simp add: rt_replace_def test_contact_key bucket_for_def one_bucket_facts distance_zero_left bucket_replace_def)

lemma replace_evicts_lru_for_candidate_passes: "replace_evicts_lru_for_candidate sample_externs"
proof -
  have "rt_replace sample_externs (one_bucket 2 255 [test_a sample_externs, test_b sample_externs])
      (test_a sample_externs) (test_c sample_externs) = Some (True, one_bucket 2 255 [test_b sample_externs, test_c sample_externs])"
    by (simp add: one_bucket_replace test_keys test_c_def)
  then show ?thesis
    unfolding replace_evicts_lru_for_candidate_def rt_contacts_def[symmetric]
    by (simp add: offer_abc_result one_bucket_contacts one_bucket_facts)
      (simp add: test_a_def test_b_def test_c_def test_contact_id same_id test_keys key_0_31_eq)
qed

lemma replace_is_noop_if_lru_slot_changed_passes: "replace_is_noop_if_lru_slot_changed sample_externs"
  by (simp add: replace_is_noop_if_lru_slot_changed_def offer_abc_result)
    (simp add: test_a_def test_b_def test_c_def bucket_steps one_bucket_replace key_0_31_eq remove_at_def Let_def)

lemma one_bucket_remove:
  assumes "length b = 32" "bucket_index b = Some i" "i < 256"
  shows "rt_remove sample_externs (one_bucket k i cs) (to_hex b) =
    (case bucket_remove \<lparr>kb_contacts = cs, kb_capacity = k\<rparr> (to_hex b) of
       (r, bk) \<Rightarrow> Some (r, one_bucket k i (kb_contacts bk)))"
proof -
  have cap: "kb_capacity (snd (bucket_remove \<lparr>kb_contacts = cs, kb_capacity = k\<rparr> p)) = k" for p
    by (auto simp: bucket_remove_def split: option.split)
  obtain r bk where r: "bucket_remove \<lparr>kb_contacts = cs, kb_capacity = k\<rparr> (to_hex b) = (r, bk)" by fastforce
  with cap[of "to_hex b"] have "bk = \<lparr>kb_contacts = kb_contacts bk, kb_capacity = k\<rparr>" by simp
  with r assms one_bucket_facts(4)[OF assms(3), of k cs "kb_contacts bk"] show ?thesis
    by (simp add: rt_remove_def hex64_to_hex bucket_for_def one_bucket_facts distance_zero_left key_from_peer_id_def)
qed

lemma remove_contact_passes: "remove_contact sample_externs"
  by (simp add: remove_contact_def one_bucket_new[of 254] bucket_steps one_bucket_remove remove_at_def rt_is_empty_def Let_def)

text \<open>A table with room for every contact takes each one, and an insertion forgets nobody.\<close>

lemma rt_insert_room:
  assumes "externs_ok E" "rt_wf E t" "card (rt_ids t) < rt_k t" "rt_insert E t c = Some (outcome, t')"
  shows "outcome = Inserted"
  using assms(1,2)
proof (cases rule: rt_insert_cases[where c = c])
  case (offered i)
  with assms(4) obtain b where b: "bucket_offer (rt_buckets t ! i) c = Some (outcome, b)"
    by (cases "bucket_offer (rt_buckets t ! i) c") auto
  have wf: "bucket_wf E (rt_local_key t) (rt_k t) i (rt_buckets t ! i)" using rt_wf_bucket[OF assms(2) offered(1)] .
  have "bucket_ids (rt_buckets t ! i) \<subseteq> rt_ids t"
    using offered(1) assms(2) by (auto simp: rt_ids_UN rt_wf_def)
  then have "card (bucket_ids (rt_buckets t ! i)) \<le> card (rt_ids t)" by (rule card_mono[rotated]) (simp add: rt_ids_def)
  moreover have "card (bucket_ids (rt_buckets t ! i)) = length (kb_contacts (rt_buckets t ! i))"
    using wf by (metis bucket_ids_def bucket_wf_def distinct_card length_map set_map)
  ultimately show ?thesis using b wf assms(3) by (auto elim!: bucket_offer_cases simp: bucket_wf_def)
qed (use assms in simp)

lemma insert_keys_total:
  assumes "rt_wf sample_externs t" "0 < rt_k t"
  shows "\<exists>t'. insert_keys sample_externs is t = Some t' \<and> rt_wf sample_externs t' \<and> rt_k t' = rt_k t
    \<and> rt_local_key t' = rt_local_key t \<and> rt_ids t \<subseteq> rt_ids t'"
  using assms
proof (induction "is" arbitrary: t)
  case (Cons i "is")
  from rt_insert_total[OF sample_externs_ok Cons.prems] obtain outcome t1 where
    ins: "rt_insert sample_externs t (test_contact sample_externs (key_0 i)) = Some (outcome, t1)" by blast
  note wf = rt_insert_wf[OF sample_externs_ok Cons.prems(1) ins]
    and ids = rt_insert_ids[OF sample_externs_ok Cons.prems(1) ins]
  from Cons.IH[of t1] wf ids Cons.prems(2) ins show ?case by (auto split: if_splits)
qed simp

lemma insert_keys_room:
  assumes "rt_wf sample_externs t" "rt_local_key t = replicate 32 0" "0 \<notin> set is"
    "card (rt_ids t) + length is \<le> rt_k t" "insert_keys sample_externs is t = Some t'"
  shows "rt_ids t' = rt_ids t \<union> (\<lambda>i. to_hex (key_0 i)) ` set is"
  using assms
proof (induction "is" arbitrary: t)
  case (Cons i "is")
  let ?c = "test_contact sample_externs (key_0 i)"
  from Cons.prems(5) obtain outcome t1 where ins: "rt_insert sample_externs t ?c = Some (outcome, t1)"
    "insert_keys sample_externs is t1 = Some t'" by (auto simp: bind_eq_Some_conv)
  have "outcome = Inserted" using rt_insert_room[OF sample_externs_ok Cons.prems(1) _ ins(1)] Cons.prems(4) by simp
  moreover have "key_0 i \<noteq> replicate 32 0"
  proof
    assume "key_0 i = replicate 32 0"
    then have "key_0 i ! 0 = 0" by simp
    with Cons.prems(3) show False by (simp add: key_0_def)
  qed
  then have "routable sample_externs t ?c" using Cons.prems(2) by (simp add: routable_def test_contact_key test_keys)
  ultimately have ids: "rt_ids t1 = insert (to_hex (key_0 i)) (rt_ids t)"
    using rt_insert_ids[OF sample_externs_ok Cons.prems(1) ins(1)] by (simp add: test_contact_id)
  moreover have "card (rt_ids t1) \<le> Suc (card (rt_ids t))" unfolding ids by (rule card_insert_le_m1) simp_all
  ultimately show ?case
    using Cons.IH[of t1] Cons.prems(2-4) rt_insert_wf[OF sample_externs_ok Cons.prems(1) ins(1)] ins(2) by auto
qed simp

lemma rt_len_ids: "rt_wf E t \<Longrightarrow> rt_len t = card (rt_ids t)"
  by (metis distinct_card length_map rt_contacts_distinct rt_ids_def rt_len_contacts set_map)

lemma key_0_inj: "inj_on (\<lambda>i. to_hex (key_0 i)) S"
proof (rule inj_onI)
  fix x y assume "to_hex (key_0 x) = to_hex (key_0 y)"
  then have "key_0 x ! 0 = key_0 y ! 0" by (simp add: same_id test_keys)
  then show "x = y" by (simp add: key_0_def)
qed

lemma test_new: "rt_wf sample_externs (rt_new test_local k)" "rt_local_key (rt_new test_local k) = replicate 32 0"
  "rt_k (rt_new test_local k) = k" "rt_ids (rt_new test_local k) = {}"
  by (simp_all add: rt_new_wf rt_ids_def test_local_def) (simp_all add: rt_new_def key_from_peer_id_def)

lemma closest_returns_k_sorted_by_distance_passes: "closest_returns_k_sorted_by_distance sample_externs"
proof -
  let ?is = "[1, 2, 3, 4, 5, 6, 7, 8, 9, 10] :: u8 list"
  from insert_keys_total[of "rt_new test_local 20" ?is] obtain t where
    t: "insert_keys sample_externs ?is (rt_new test_local 20) = Some t" "rt_wf sample_externs t" "rt_k t = 20"
    by (auto simp: test_new simp del: insert_keys.simps)
  have "rt_ids t = (\<lambda>i. to_hex (key_0 i)) ` set ?is"
    using insert_keys_room[OF test_new(1,2) _ _ t(1)] by (simp add: test_new)
  then have "rt_len t = card (set ?is)" by (simp only: rt_len_ids[OF t(2)] card_image[OF key_0_inj])
  then have "rt_len t = 10" by simp
  with rt_closest_facts[OF sample_externs_ok t(2), of "key_from_bytes (replicate 32 0)"] t(1,3) show ?thesis
    unfolding closest_returns_k_sorted_by_distance_def contact_distance_def[symmetric] Let_def
    by (simp del: insert_keys.simps)
qed

lemma closest_caps_at_k_passes: "closest_caps_at_k sample_externs"
proof -
  let ?is = "[1, 2, 3] :: u8 list" and ?js = "[4, 5, 6, 7, 8, 9, 10] :: u8 list"
  have app: "insert_keys E (xs @ ys) t = Option.bind (insert_keys E xs t) (insert_keys E ys)" for E xs ys t
    by (induction xs arbitrary: t) (auto split: Option.bind_split)
  from insert_keys_total[of "rt_new test_local 3" ?is] obtain t where
    t: "insert_keys sample_externs ?is (rt_new test_local 3) = Some t" "rt_wf sample_externs t" "rt_k t = 3"
    by (auto simp: test_new simp del: insert_keys.simps)
  from insert_keys_total[OF t(2), of ?js] t(3) obtain t' where
    t': "insert_keys sample_externs ?js t = Some t'" "rt_wf sample_externs t'" "rt_k t' = 3" "rt_ids t \<subseteq> rt_ids t'"
    by (auto simp del: insert_keys.simps)
  have "rt_ids t = (\<lambda>i. to_hex (key_0 i)) ` set ?is"
    using insert_keys_room[OF test_new(1,2) _ _ t(1)] by (simp add: test_new)
  then have "card (rt_ids t) = card (set ?is)" by (simp only: card_image[OF key_0_inj])
  then have "card (rt_ids t) = 3" by simp
  with card_mono[OF _ t'(4)] have "3 \<le> rt_len t'" by (simp add: rt_len_ids[OF t'(2)] rt_ids_def)
  with rt_closest_facts[OF sample_externs_ok t'(2), of "key_from_bytes (replicate 32 0)"] t'(3)
  have "length (rt_closest sample_externs t' (key_from_bytes (replicate 32 0))) = 3" by simp
  moreover have "insert_keys sample_externs (?is @ ?js) (rt_new test_local 3) = Some t'"
    unfolding app t(1) using t'(1) by (simp del: insert_keys.simps)
  ultimately show ?thesis by (simp add: closest_caps_at_k_def del: insert_keys.simps)
qed

lemma one_bucket_indices:
  "i < 256 \<Longrightarrow> non_empty_bucket_indices (one_bucket k i cs) = (if cs = [] then [] else [i])"
proof -
  have "map fst (filter (\<lambda>(j, b). kb_contacts b \<noteq> []) (List.enumerate m ((replicate n (kbucket_new k))[i := y])))
      = (if kb_contacts y = [] then [] else [m + i])" if "i < n" for n m i y
    using that
  proof (induction n arbitrary: i m)
    case (Suc n)
    have none: "filter (\<lambda>(j, b). kb_contacts b \<noteq> []) (List.enumerate m (replicate n (kbucket_new k))) = []" for m n
      by (induction n arbitrary: m) (simp_all add: kbucket_new_def)
    from Suc show ?case by (cases i) (auto simp: none[unfolded kbucket_new_def] kbucket_new_def)
  qed simp
  from this[of i 256 0 "\<lparr>kb_contacts = cs, kb_capacity = k\<rparr>"]
  show "i < 256 \<Longrightarrow> ?thesis" by (simp add: non_empty_bucket_indices_def one_bucket_def rt_new_buckets)
qed

lemma non_empty_bucket_indices_tracks_population_passes: "non_empty_bucket_indices_tracks_population sample_externs"
  by (simp add: non_empty_bucket_indices_tracks_population_def one_bucket_new[of 255] bucket_steps one_bucket_indices)

lemmas contact_steps = contact_with_def contact_new_def contact_best_address_def contact_dial_candidates_def

lemma contact_key_and_best_address_passes: "contact_key_and_best_address sample_externs"
proof -
  have "parse_ip_addr ''h'' = None" by (rule unparsable_host)
  then show ?thesis
    by (simp add: contact_key_and_best_address_def test_contact_key test_keys)
      (simp add: test_contact_def contact_steps order_steps)
qed

lemma contact_new_sorts_addresses_ipv6_first_passes: "contact_new_sorts_addresses_ipv6_first sample_externs"
  by (simp add: contact_new_sorts_addresses_ipv6_first_def contact_steps order_steps)

lemma contact_best_address_prefers_ipv6_over_ipv4_at_same_rank_passes:
  "contact_best_address_prefers_ipv6_over_ipv4_at_same_rank sample_externs"
  by (simp add: contact_best_address_prefers_ipv6_over_ipv4_at_same_rank_def contact_steps order_steps)

lemma contact_new_caps_addresses_at_the_constant_passes: "contact_new_caps_addresses_at_the_constant sample_externs"
  using provider_record_new_caps_addresses_at_the_constant_passes
  by (simp add: contact_new_caps_addresses_at_the_constant_def provider_record_new_caps_addresses_at_the_constant_def
      contact_steps record_with_def provider_record_new_def)

lemma contact_deserialization_bounds_the_address_count_passes:
  "contact_deserialization_bounds_the_address_count sample_externs"
  by (simp add: contact_deserialization_bounds_the_address_count_def read_contact_def length_sort_and_cap filler_mem
      length_filler MAX_ADDRESSES_PER_RECORD_def)

lemma contact_dial_candidates_order_v6_then_v4_then_unresolvable_passes:
  "contact_dial_candidates_order_v6_then_v4_then_unresolvable sample_externs"
  by (simp add: contact_dial_candidates_order_v6_then_v4_then_unresolvable_def contact_steps dial_steps)

text \<open>The tests of the framing, for a JSON codec that reads back what it writes.\<close>

lemma find_node_round_trips_framed_passes:
  assumes "to_vec (RawFindNode (concat (replicate 32 ''ab''))) = Some body"
    "parse body = Inr (RawFindNode (concat (replicate 32 ''ab'')))" "length body \<le> MAX_FRAMED_BODY"
  shows "find_node_round_trips_framed sample_externs to_vec parse"
  using assms
  by (simp add: find_node_round_trips_framed_def request_encode_def encode_framed_def request_decode_def read_with_def
      decode_frame[OF assms(3), where rest = "[]", simplified])

lemma test_response_clean: "clean_response sample_externs test_response"
  by (simp add: test_response_def clean_record_def clean_contact_def canonical_coin_def capped_addresses_def order_steps
      unparsable_host)

lemma providers_response_round_trips_passes:
  assumes "to_vec (write_response JString test_response) = Some body"
    "parse body = Inr (write_response JString test_response)" "length body \<le> MAX_FRAMED_BODY"
  shows "providers_response_round_trips sample_externs to_vec parse"
proof -
  have "read_response sample_externs json_as_str (write_response JString test_response) = test_response"
    by (rule read_write_response) (simp_all add: test_response_clean)
  then show ?thesis
    using assms
    by (simp add: providers_response_round_trips_def response_encode_def encode_framed_def response_decode_def
        read_with_def decode_frame[OF assms(3), where rest = "[]", simplified])
qed

lemma oversize_length_prefix_is_rejected_passes: "oversize_length_prefix_is_rejected from_slice"
  by (simp add: oversize_length_prefix_is_rejected_def request_decode_def decode_framed_def read_exact_def Let_def
      MAX_FRAMED_BODY_def)

lemma truncated_frame_errors_passes: "truncated_frame_errors from_slice"
  by (simp add: truncated_frame_errors_def request_decode_def decode_framed_def read_exact_def Let_def MAX_FRAMED_BODY_def)

end
