(* ===== verification/Lookup_Tests.thy ===== *)
theory Lookup_Tests
  imports Routing_Tests Swarm_Search
begin

text \<open>
  The unit tests of \<^verbatim>\<open>src/lookup.rs\<close>, each a closed statement over the model. The query closure of a
  test is a lookup environment whose answer depends on the contact alone and whose tasks complete in
  the order they were spawned; the adversary of the round guard is an argument, any environment at all.
\<close>

definition answering :: "(contact \<Rightarrow> query_outcome option) \<Rightarrow> lookup_env" where
  "answering f = \<lparr>le_query = (\<lambda>r c. Joined (f c)), le_order = (\<lambda>r cs. cs)\<rparr>"

definition oracle_query :: "externs \<Rightarrow> u8 list list \<Rightarrow> key \<Rightarrow> nat \<Rightarrow> lookup_env" where
  "oracle_query E all_ids target k =
     answering (\<lambda>_. Some \<lparr>qo_closer = map (test_contact E) (take k (sort_key (distance target) all_ids)),
                          qo_providers = []\<rparr>)"

definition simulated_ids :: "u8 list list" where
  "simulated_ids = map (\<lambda>i. (replicate 32 0)[0 := word_of_nat i * 5, 1 := word_of_nat i]) [0..<50]"

definition converges_to_k_closest_in_simulated_network :: "externs \<Rightarrow> bool" where
  "converges_to_k_closest_in_simulated_network E \<longleftrightarrow>
     (let target = key_from_bytes (replicate 32 0); k = 20;
          seeds = [test_contact E (simulated_ids ! 40), test_contact E (simulated_ids ! 45)];
          query = oracle_query E simulated_ids target k;
          expected_top = map (test_contact E) (take k (sort_key (distance target) simulated_ids))
      in case iterative_find E query target seeds k 3 False of
           None \<Rightarrow> False
         | Some (result, _) \<Rightarrow>
             length (lr_closest result) = k
             \<and> ct_peer_id ` set (lr_closest result) = ct_peer_id ` set expected_top
             \<and> ct_peer_id (lr_closest result ! 0) = ct_peer_id (expected_top ! 0))"

definition empty_seeds_returns_empty :: "externs \<Rightarrow> bool" where
  "empty_seeds_returns_empty E \<longleftrightarrow>
     (case iterative_find E (answering (\<lambda>_. Some \<lparr>qo_closer = [], qo_providers = []\<rparr>))
             (key_from_bytes (replicate 32 0)) [] 20 3 False of
        None \<Rightarrow> False
      | Some (result, _) \<Rightarrow> lr_closest result = [] \<and> lr_providers result = [])"

definition test_provider :: "externs \<Rightarrow> candidate_addr list \<Rightarrow> provider_record" where
  "test_provider E addrs = provider_record_new E (key_from_bytes (replicate 32 0)) (replicate 32 0xAB) addrs (- 1)"

definition stop_on_providers_ends_early :: "externs \<Rightarrow> bool" where
  "stop_on_providers_ends_early E \<longleftrightarrow>
     (let provider = test_provider E [candidate_direct ''h'' 9444]
      in case iterative_find E (answering (\<lambda>_. Some \<lparr>qo_closer = [], qo_providers = [provider]\<rparr>))
             (key_from_bytes (replicate 32 0)) [test_contact E (replicate 32 0x10)] 20 3 True of
           None \<Rightarrow> False
         | Some (result, _) \<Rightarrow>
             length (lr_providers result) = 1
             \<and> provider_peer_id (lr_providers result ! 0) = provider_peer_id provider)"

definition failed_peers_do_not_abort_lookup :: "externs \<Rightarrow> bool" where
  "failed_peers_do_not_abort_lookup E \<longleftrightarrow>
     (case iterative_find E (answering (\<lambda>_. None)) (key_from_bytes (replicate 32 0))
             [test_contact E (replicate 32 1), test_contact E (replicate 32 2)] 20 3 False of
        None \<Rightarrow> False
      | Some (result, _) \<Rightarrow> lr_closest result = [])"

definition dedups_providers_by_peer_id :: "externs \<Rightarrow> bool" where
  "dedups_providers_by_peer_id E \<longleftrightarrow>
     (let provider = test_provider E []
      in case iterative_find E (answering (\<lambda>_. Some \<lparr>qo_closer = [], qo_providers = [provider]\<rparr>))
             (key_from_bytes (replicate 32 0)) [test_contact E (replicate 32 1), test_contact E (replicate 32 2)]
             20 3 False of
           None \<Rightarrow> False
         | Some (result, _) \<Rightarrow> length (lr_providers result) = 1)"

definition provider_flood :: "externs \<Rightarrow> provider_record list" where
  "provider_flood E =
     map (\<lambda>i. provider_record_new E (key_from_bytes (replicate 32 0))
                (u32_to_be_bytes (word_of_nat i) @ drop 4 (replicate 32 0)) [] (- 1)) [0..<10000]"

definition providers_per_response_is_capped :: "externs \<Rightarrow> bool" where
  "providers_per_response_is_capped E \<longleftrightarrow>
     (case iterative_find E (answering (\<lambda>_. Some \<lparr>qo_closer = [], qo_providers = provider_flood E\<rparr>))
             (key_from_bytes (replicate 32 0)) [test_contact E (replicate 32 0x10)] 20 3 False of
        None \<Rightarrow> False
      | Some (result, _) \<Rightarrow> length (lr_providers result) \<le> max MAX_PROVIDERS_PER_RESPONSE (20 * 2))"

definition round_guard_terminates_a_non_converging_lookup :: "externs \<Rightarrow> lookup_env \<Rightarrow> bool" where
  "round_guard_terminates_a_non_converging_lookup E env \<longleftrightarrow>
     (let target = key_from_bytes (replicate 32 0xFF); seed = test_contact E (replicate 32 0); ALPHA = 3
      in case iterative_find E env target [seed] 20 ALPHA False of
           None \<Rightarrow> False
         | Some (result, st) \<Rightarrow>
             length (ls_asked st) \<le> MAX_LOOKUP_ROUNDS * ALPHA + 1 \<and> length (lr_closest result) \<le> 20)"

subsection \<open>The model passes\<close>

lemma cap_20_3: "shortlist_cap 20 3 = Some 60"
  by (simp add: shortlist_cap_def checked_usize_def usize_limit_def)

lemma cap_20: "max_providers_per_response 20 = 64" "max_closer_per_response 20 = 64"
  by (simp_all add: max_closer_per_response_def max_providers_per_response_def saturating_usize_def
      MAX_CLOSER_PER_RESPONSE_def MAX_PROVIDERS_PER_RESPONSE_def usize_limit_def)

lemma answering_ok: "env_ok (answering f)"
  by (simp add: env_ok_def answering_def)

lemma test_distance: "distance (replicate 32 0) (replicate 32 b) = replicate 32 b"
  by (rule distance_zero_left) simp

lemmas walk_steps = iterative_find_def MAX_LOOKUP_ROUNDS_def lookup_loop_numeral lookup_start_def merge_contact_def
  test_contact_id test_contact_key test_distance sort_and_cap_take[OF cap_20_3] next_batch_def join_results_def
  answering_def map_filter_simps fold_answer_def lookup_finish_def entry_or_insert_def key_from_bytes_def same_id cap_20

lemma empty_seeds_returns_empty_passes: "empty_seeds_returns_empty sample_externs"
  by (simp add: empty_seeds_returns_empty_def walk_steps Let_def)

lemma stop_on_providers_ends_early_passes: "stop_on_providers_ends_early sample_externs"
  by (simp add: stop_on_providers_ends_early_def walk_steps Let_def)

lemma failed_peers_do_not_abort_lookup_passes: "failed_peers_do_not_abort_lookup sample_externs"
  by (simp add: failed_peers_do_not_abort_lookup_def walk_steps Let_def)

lemma dedups_providers_by_peer_id_passes: "dedups_providers_by_peer_id sample_externs"
  by (simp add: dedups_providers_by_peer_id_def walk_steps Let_def)

lemma small_walk_returns: "env_ok env \<Longrightarrow> \<exists>res st. iterative_find E env target seeds 20 3 stop = Some (res, st)"
  using iterative_find_None[of env E target seeds 20 3 stop] cap_20_3 by auto

lemma providers_per_response_is_capped_passes: "providers_per_response_is_capped sample_externs"
proof -
  let ?env = "answering (\<lambda>_. Some \<lparr>qo_closer = [], qo_providers = provider_flood sample_externs\<rparr>)"
  let ?seed = "test_contact sample_externs (replicate 32 0x10)" and ?target = "key_from_bytes (replicate 32 0)"
  from small_walk_returns[OF answering_ok] obtain res st where
    run: "iterative_find sample_externs ?env ?target [?seed] 20 3 False = Some (res, st)" by blast
  have closed: "closed_env ?env {ct_peer_id ?seed}" by (simp add: closed_env_def env_ok_def answering_def)
  from iterative_find_facts[OF answering_ok run] have d: "distinct (map answer_id (ls_answers st))"
    unfolding lookup_inv_def by blast
  have "set (map answer_id (ls_answers st)) \<subseteq> {ct_peer_id ?seed}"
  proof
    fix p assume "p \<in> set (map answer_id (ls_answers st))"
    then obtain c x where cx: "(c, x) \<in> set (ls_answers st)" "p = ct_peer_id c" by (auto simp: answer_id_def)
    from closed_answer[OF closed run _ cx(1)] cx(2) show "p \<in> {ct_peer_id ?seed}" by auto
  qed
  from card_mono[OF _ this] have "card (set (map answer_id (ls_answers st))) \<le> 1" by simp
  then have one: "length (ls_answers st) \<le> 1" unfolding distinct_card[OF d] by simp
  note sound = lookup_sound_facts[OF answering_ok run]
  have "length (lr_providers res) = card (provider_peer_id ` set (lr_providers res))"
    using sound distinct_card[of "map provider_peer_id (lr_providers res)"] by simp
  also have "\<dots> \<le> length (told_providers 20 (ls_answers st))"
    using sound by (metis card_length length_map set_map)
  also have "\<dots> \<le> 64 * length (ls_answers st)"
    using told_providers_length[of 20 "ls_answers st"] by (simp add: cap_20)
  also have "\<dots> \<le> 64" using one by simp
  finally show ?thesis
    using run by (simp add: providers_per_response_is_capped_def MAX_PROVIDERS_PER_RESPONSE_def)
qed

lemma round_guard_terminates_a_non_converging_lookup_passes:
  assumes "env_ok env"
  shows "round_guard_terminates_a_non_converging_lookup sample_externs env"
proof -
  let ?seed = "test_contact sample_externs (replicate 32 0)" and ?target = "key_from_bytes (replicate 32 0xFF)"
  from small_walk_returns[OF assms] obtain res st where
    run: "iterative_find sample_externs env ?target [?seed] 20 3 False = Some (res, st)" by blast
  from iterative_find_facts[OF assms run] have "length (ls_asked st) \<le> MAX_LOOKUP_ROUNDS * 3" "res = lookup_finish 20 st"
    by metis+
  with run show ?thesis by (simp add: round_guard_terminates_a_non_converging_lookup_def lookup_finish_def)
qed

subsection \<open>The simulated network\<close>

lemma simulated_lengths: "b \<in> set simulated_ids \<Longrightarrow> length b = 32"
  by (auto simp: simulated_ids_def)

lemma simulated_distinct: "distinct simulated_ids"
proof -
  have "inj_on (\<lambda>i. (replicate 32 0)[0 := word_of_nat i * 5, 1 := word_of_nat i :: u8]) {0..<50}"
  proof (rule inj_onI)
    fix i j :: nat
    assume ij: "i \<in> {0..<50}" "j \<in> {0..<50}"
      "(replicate 32 0)[0 := word_of_nat i * 5, 1 := word_of_nat i :: u8] = (replicate 32 0)[0 := word_of_nat j * 5, 1 := word_of_nat j]"
    then have "(replicate 32 0)[0 := word_of_nat i * 5, 1 := word_of_nat i :: u8] ! 1
        = (replicate 32 0)[0 := word_of_nat j * 5, 1 := word_of_nat j] ! 1" by simp
    then have "(word_of_nat i :: u8) = word_of_nat j" by (simp del: replicate_0)
    then have "unat (word_of_nat i :: u8) = unat (word_of_nat j :: u8)" by simp
    with ij(1,2) show "i = j" by (simp add: unat_of_nat)
  qed
  then show ?thesis by (simp add: simulated_ids_def distinct_map del: upt_rec_numeral)
qed

lemma test_contact_pid_distance:
  "length b = 32 \<Longrightarrow> pid_distance sample_externs target (to_hex b) = distance target b"
  by (simp add: pid_distance_def hex64_to_hex key_from_peer_id_def)

text \<open>Two lists in strictly increasing order of distance that name the same peers name them in the
  same order.\<close>

lemma same_order:
  assumes "ct_peer_id ` set cs = ct_peer_id ` set ds" "inj_on d (ct_peer_id ` set ds)"
    "sorted (map (\<lambda>c. d (ct_peer_id c)) cs)" "sorted (map (\<lambda>c. d (ct_peer_id c)) ds)"
    "distinct (map ct_peer_id cs)" "distinct (map ct_peer_id ds)"
  shows "map ct_peer_id cs = map ct_peer_id ds"
proof -
  have "map d (map ct_peer_id cs) = map d (map ct_peer_id ds)"
  proof (rule sorted_distinct_set_unique)
    show "distinct (map d (map ct_peer_id cs))" "distinct (map d (map ct_peer_id ds))"
      using assms(1,2,5,6) by (simp_all only: distinct_map set_map)
  qed (use assms(1,3,4) in \<open>simp_all add: comp_def image_image[symmetric]\<close>)
  moreover have "inj_on d (set (map ct_peer_id cs) \<union> set (map ct_peer_id ds))" using assms(1,2) by simp
  ultimately show ?thesis by (metis map_inj_on)
qed

lemma converges_to_k_closest_in_simulated_network_passes:
  "converges_to_k_closest_in_simulated_network sample_externs"
proof -
  let ?E = sample_externs and ?ids = simulated_ids
  define target :: key where "target = replicate 32 0"
  define top where "top = take 20 (sort_key (distance target) ?ids)"
  define near where "near = to_hex ` set top"
  define world where "world = to_hex ` set ?ids"
  define env where "env = oracle_query ?E ?ids target 20"
  have top: "set top \<subseteq> set ?ids" "length top = 20" "distinct top" "sorted (map (distance target) top)"
    using simulated_distinct set_take_subset[of 20 "sort_key (distance target) ?ids"]
    by (auto simp: top_def simulated_ids_def sorted_take_map)
  have len: "length b = 32" if "b \<in> set top \<or> b \<in> set ?ids" for b using that top(1) simulated_lengths by blast
  have inj: "inj_on (distance target) (set ?ids)"
    using simulated_lengths distance_involutive[of _ target] by (intro inj_onI) (metis wf_key_def)
  have pd: "pid_distance ?E target (to_hex b) = distance target b" if "b \<in> set ?ids" for b
    using test_contact_pid_distance simulated_lengths[OF that] .
  have inj_world: "inj_on (pid_distance ?E target) world"
    unfolding world_def using inj pd by (intro inj_onI) (auto dest: inj_onD)
  have inj_hex: "inj_on to_hex (set ?ids)" using simulated_lengths same_id by (intro inj_onI) blast
  have near: "nearest_in ?E target 20 world near"
    unfolding nearest_in_def
  proof (intro conjI ballI)
    show "near \<subseteq> world" using top(1) by (auto simp: near_def world_def)
    have "card near = 20" "card world = 50"
      using top inj_hex simulated_distinct card_image[OF inj_hex] card_image[OF inj_on_subset[OF inj_hex top(1)]]
      by (simp_all add: near_def world_def distinct_card) (simp_all add: simulated_ids_def)
    then show "card near = min 20 (card world)" by simp
  next
    fix x y assume xy: "x \<in> near" "y \<in> world - near"
    then obtain a b where "a \<in> set top" "x = to_hex a" "b \<in> set ?ids" "b \<notin> set top" "y = to_hex b"
      by (auto simp: near_def world_def)
    with top(1) sort_key_take_nearest[of a 20 "distance target" ?ids b]
    show "pid_distance ?E target x \<le> pid_distance ?E target y" by (auto simp: pd top_def)
  qed
  have greedy: "greedy_env ?E env target 20 world near"
    unfolding greedy_env_def
  proof (intro conjI allI impI)
    fix r and c :: contact assume c: "ct_peer_id c \<in> world"
    let ?cs = "map (test_contact ?E) top"
    have ids: "ct_peer_id ` set ?cs = near" by (simp add: near_def test_contact_id image_image)
    have "top \<noteq> []" using top(2) by auto
    then obtain z where z: "z \<in> near" unfolding near_def by (cases top) auto
    have "names_nearer ?E target near (ct_peer_id c) ?cs"
    proof (cases "ct_peer_id c \<in> near")
      case False
      with c near z have "pid_distance ?E target z \<le> pid_distance ?E target (ct_peer_id c)" by (simp add: nearest_in_def)
      moreover have "z \<in> world" using near z by (auto simp: nearest_in_def)
      then have "pid_distance ?E target z \<noteq> pid_distance ?E target (ct_peer_id c)"
        using inj_onD[OF inj_world] c False z by metis
      ultimately show ?thesis using False z unfolding names_nearer_def ids by (auto simp: less_le intro!: bexI[of _ z])
    qed (simp add: names_nearer_def ids[simplified])
    moreover have "take (max_closer_per_response 20) ?cs = ?cs" by (simp add: cap_20 top(2))
    ultimately show "\<exists>q. le_query env r c = Joined (Some q) \<and> ct_peer_id ` set (qo_closer q) \<subseteq> world
       \<and> names_nearer ?E target near (ct_peer_id c) (take (max_closer_per_response 20) (qo_closer q))"
      using ids near by (simp add: env_def oracle_query_def answering_def top_def[symmetric] nearest_in_def)
  qed (simp add: env_def oracle_query_def answering_ok)
  let ?seeds = "[test_contact ?E (?ids ! 40), test_contact ?E (?ids ! 45)]"
  have "length ?ids = 50" by (simp add: simulated_ids_def)
  then have in_ids: "?ids ! 40 \<in> set ?ids" "?ids ! 45 \<in> set ?ids" by (simp_all add: nth_mem)
  then have seeds: "ct_peer_id ` set ?seeds \<subseteq> world" by (auto simp: world_def test_contact_id)
  have dec: "\<forall>pid\<in>world. decodes ?E pid" using simulated_lengths by (auto simp: world_def decodes_def hex64_to_hex)
  have fin: "finite world" "card world < 64"
    using card_image_le[of "set ?ids" to_hex] distinct_card[OF simulated_distinct]
    by (simp_all add: world_def) (simp add: simulated_ids_def)
  have ok: "env_ok env" by (simp add: env_def oracle_query_def answering_ok)
  from small_walk_returns[OF ok] obtain res st where
    run: "iterative_find ?E env target ?seeds 20 3 False = Some (res, st)" by blast
  from closed_rounds[OF greedy_closed[OF greedy] run dec seeds fin(1)] fin(2)
  have out: "walked_out 3 False res st" by (simp add: walked_out_def)
  from greedy_result[OF greedy near fin(1) dec seeds _ run this]
  have set: "ct_peer_id ` set (lr_closest res) = near"
    by (intro nearest_unique[OF _ near fin(1) inj_world]) simp
  note sound = lookup_sound_facts[OF ok run]
  have expected: "ct_peer_id ` set (map (test_contact ?E) top) = near" "distinct (map ct_peer_id (map (test_contact ?E) top))"
    using top inj_hex by (simp_all add: near_def test_contact_id image_image comp_def distinct_map inj_on_subset)
  have "map ct_peer_id (lr_closest res) = map ct_peer_id (map (test_contact ?E) top)"
  proof (rule same_order)
    show "sorted (map (\<lambda>c. pid_distance ?E target (ct_peer_id c)) (map (test_contact ?E) top))"
      using top(4) unfolding map_map comp_def test_contact_id
      by (subst map_cong[OF refl, of _ _ "distance target"]) (use pd top(1) in blast)+
    show "inj_on (pid_distance ?E target) (ct_peer_id ` set (map (test_contact ?E) top))"
      unfolding expected using near inj_world by (auto simp: nearest_in_def intro: inj_on_subset)
  qed (use set expected sound in simp_all)
  moreover from this have "length (lr_closest res) = 20" using top(2) by (metis length_map)
  moreover from calculation have "ct_peer_id (lr_closest res ! 0) = ct_peer_id (map (test_contact ?E) top ! 0)"
    using top(2) by (metis length_map nth_map zero_less_numeral)
  ultimately show ?thesis
    using run set expected(1)
    by (simp add: converges_to_k_closest_in_simulated_network_def key_from_bytes_def target_def env_def top_def)
qed

end
