(* ===== verification/Key_Tests.thy ===== *)
theory Key_Tests
  imports Content_Id Dht_Config Dht_Error
begin

text \<open>
  The unit tests of \<^verbatim>\<open>src/key.rs\<close>, \<^verbatim>\<open>src/content.rs\<close>, \<^verbatim>\<open>src/config.rs\<close> and \<^verbatim>\<open>src/error.rs\<close>, each a closed
  statement over the model that the kernel evaluates. A test that calls the code of another crate
  takes it as an argument and runs on the concrete instance of \<open>Externals\<close> or \<open>Dht_Error\<close>.
\<close>

text \<open>\<open>str::starts_with\<close> and \<open>str::contains\<close> of the standard library.\<close>

fun starts_with :: "string \<Rightarrow> string \<Rightarrow> bool" where
  "starts_with [] s \<longleftrightarrow> True"
| "starts_with (c # p) [] \<longleftrightarrow> False"
| "starts_with (c # p) (d # s) \<longleftrightarrow> c = d \<and> starts_with p s"

fun str_contains :: "string \<Rightarrow> string \<Rightarrow> bool" where
  "str_contains p [] \<longleftrightarrow> p = []"
| "str_contains p (c # s) \<longleftrightarrow> starts_with p (c # s) \<or> str_contains p s"

subsection \<open>\<open>key.rs\<close>\<close>

definition test_key :: "u8 \<Rightarrow> u8 \<Rightarrow> key" where
  "test_key byte0 rest = key_from_bytes ((replicate 32 rest)[0 := byte0])"

definition xor_distance_is_symmetric :: bool where
  "xor_distance_is_symmetric \<longleftrightarrow>
     (let a = test_key 0x12 0x34; b = test_key 0xAB 0xCD in distance a b = distance b a)"

definition distance_to_self_is_zero :: bool where
  "distance_to_self_is_zero \<longleftrightarrow>
     (let a = test_key 0x99 0x01 in distance a a = distance_zero \<and> bucket_index (distance a a) = None)"

definition xor_is_the_distance :: bool where
  "xor_is_the_distance \<longleftrightarrow>
     (let a = key_from_bytes (replicate 32 0); b = key_from_bytes ((replicate 32 0)[31 := 0x01])
      in distance a b ! 31 = 0x01 \<and> bucket_index (distance a b) = Some 0)"

definition bucket_index_tracks_most_significant_set_bit :: bool where
  "bucket_index_tracks_most_significant_set_bit \<longleftrightarrow>
     (let zero = key_from_bytes (replicate 32 0);
          hi = (replicate 32 0)[0 := 0x80]; lo = (replicate 32 0)[31 := 0x01];
          b = (replicate 32 0)[0 := 0x40]; c = (replicate 32 0)[0 := 0x01]
      in bucket_index (distance zero (key_from_bytes hi)) = Some 255
       \<and> bucket_index (distance zero (key_from_bytes lo)) = Some 0
       \<and> bucket_index (distance zero (key_from_bytes b)) = Some 254
       \<and> bucket_index (distance zero (key_from_bytes c)) = Some 248)"

definition closer_keys_have_smaller_distance :: bool where
  "closer_keys_have_smaller_distance \<longleftrightarrow>
     (let target = key_from_bytes (replicate 32 0); near = test_key 0x00 0x01; far = test_key 0xFF 0x00
      in distance_cmp_less (distance target near) (distance target far))"

definition from_peer_id_is_verbatim :: bool where
  "from_peer_id_is_verbatim \<longleftrightarrow>
     (let raw = (replicate 32 0)[0 := 0xDE, 31 := 0xAD] in key_as_bytes (key_from_peer_id raw) = raw)"

definition hex_round_trips_length :: bool where
  "hex_round_trips_length \<longleftrightarrow>
     (let k = test_key 0x0a 0xf0 in length (to_hex k) = 64 \<and> starts_with ''0a'' (to_hex k))"

definition distance_ordering_is_big_endian :: bool where
  "distance_ordering_is_big_endian \<longleftrightarrow>
     (let a = (replicate 32 0)[0 := 0x01]; b = (replicate 32 0)[31 := 0xFF] in distance_cmp_less b a)"

subsection \<open>\<open>content.rs\<close>\<close>

definition test_S :: "u8 list" where "test_S = replicate 32 0x11"
definition test_R :: "u8 list" where "test_R = replicate 32 0x22"
definition test_RK :: "u8 list" where "test_RK = replicate 32 0x33"

definition to_key_is_deterministic :: "externs \<Rightarrow> bool" where
  "to_key_is_deterministic E \<longleftrightarrow>
     content_to_key E (content_store test_S) = content_to_key E (content_store test_S)
     \<and> content_to_key E (content_resource test_S test_R test_RK) = content_to_key E (content_resource test_S test_R test_RK)"

definition different_granularities_of_same_store_have_distinct_keys :: "externs \<Rightarrow> bool" where
  "different_granularities_of_same_store_have_distinct_keys E \<longleftrightarrow>
     (let k_store = content_to_key E (content_store test_S);
          k_root = content_to_key E (content_root test_S test_R);
          k_res = content_to_key E (content_resource test_S test_R test_RK)
      in k_store \<noteq> k_root \<and> k_root \<noteq> k_res \<and> k_store \<noteq> k_res)"

definition capsule_is_an_alias_of_root :: "externs \<Rightarrow> bool" where
  "capsule_is_an_alias_of_root E \<longleftrightarrow>
     content_capsule test_S test_R = content_root test_S test_R
     \<and> content_to_key E (content_capsule test_S test_R) = content_to_key E (content_root test_S test_R)"

definition store_id_accessor_present_at_every_granularity :: bool where
  "store_id_accessor_present_at_every_granularity \<longleftrightarrow>
     content_store_id (content_store test_S) = test_S
     \<and> content_store_id (content_root test_S test_R) = test_S
     \<and> content_store_id (content_resource test_S test_R test_RK) = test_S"

definition distinct_stores_have_distinct_keys :: "externs \<Rightarrow> bool" where
  "distinct_stores_have_distinct_keys E \<longleftrightarrow>
     (let other = replicate 32 0x99
      in content_to_key E (content_store test_S) \<noteq> content_to_key E (content_store other))"

definition tag_prefix_prevents_field_shifting_collision :: "externs \<Rightarrow> bool" where
  "tag_prefix_prevents_field_shifting_collision E \<longleftrightarrow>
     (let a = content_to_key E (content_root test_S test_R);
          b = content_to_key E (content_resource test_S test_R (replicate 32 0))
      in a \<noteq> b)"

definition canonical_bytes_have_the_expected_tag_and_length :: bool where
  "canonical_bytes_have_the_expected_tag_and_length \<longleftrightarrow>
     (let store = canonical_bytes (content_store test_S);
          root = canonical_bytes (content_root test_S test_R);
          res = canonical_bytes (content_resource test_S test_R test_RK)
      in length store = 1 + 32 \<and> store ! 0 = TAG_STORE
       \<and> length root = 1 + 64 \<and> root ! 0 = TAG_ROOT
       \<and> length res = 1 + 96 \<and> res ! 0 = TAG_RESOURCE)"

definition debug_renders_hex_for_every_variant :: bool where
  "debug_renders_hex_for_every_variant \<longleftrightarrow>
     (let store = content_debug (content_store test_S);
          root = content_debug (content_root test_S test_R);
          res = content_debug (content_resource test_S test_R test_RK)
      in str_contains ''ContentId::Store'' store \<and> str_contains (concat (replicate 32 ''11'')) store
       \<and> str_contains ''ContentId::Root'' root \<and> str_contains (concat (replicate 32 ''22'')) root
       \<and> str_contains ''ContentId::Resource'' res \<and> str_contains (concat (replicate 32 ''33'')) res)"

subsection \<open>\<open>config.rs\<close>\<close>

definition defaults_follow_kademlia :: bool where
  "defaults_follow_kademlia \<longleftrightarrow>
     (let c = default_config in cfg_k c = 20 \<and> alpha c = 3 \<and> provider_ttl_secs c = 7200)"

definition republish_is_shorter_than_ttl :: bool where
  "republish_is_shorter_than_ttl \<longleftrightarrow>
     (let c = default_config in duration_less (republish_interval c) (provider_ttl c))"

definition discovery_cache_ttl_is_shorter_than_the_provider_ttl :: bool where
  "discovery_cache_ttl_is_shorter_than_the_provider_ttl \<longleftrightarrow>
     (let c = default_config
      in duration_less (discovery_cache_ttl c) (provider_ttl c) \<and> discovery_cache_ttl_secs c = 900)"

definition default_discovery_cache_limits_are_bounded :: bool where
  "default_discovery_cache_limits_are_bounded \<longleftrightarrow>
     (let c = default_config
      in max_providers_per_key (discovery_cache_limits c) > 0
       \<and> max_total_records (discovery_cache_limits c) > 0
       \<and> max_total_records (discovery_cache_limits c) < max_total_records (provider_store_limits c))"

definition default_provider_store_limits_are_bounded :: bool where
  "default_provider_store_limits_are_bounded \<longleftrightarrow>
     (let c = default_config
      in max_providers_per_key (provider_store_limits c) > 0 \<and> max_total_records (provider_store_limits c) > 0)"

subsection \<open>\<open>error.rs\<close>\<close>

definition transport_helper_formats :: "('t, 'j) safe_text \<Rightarrow> bool" where
  "transport_helper_formats T \<longleftrightarrow>
     (let e = transport (st_from_static T ''connection refused'')
      in str_contains ''connection refused'' (error_display T e) \<and> (case e of Transport _ \<Rightarrow> True | _ \<Rightarrow> False))"

definition untrusted_transport_text_cannot_forge_a_log_line :: "('t, 'j) safe_text \<Rightarrow> bool" where
  "untrusted_transport_text_cannot_forge_a_log_line T \<longleftrightarrow>
     (let e = transport_from_untrusted T (''refused'' @ [CHR 0x0A] @ ''2026-07-31 ERROR forged'');
          rendered = error_display T e
      in \<not> str_contains [CHR 0x0A] rendered
       \<and> (str_contains ''refused'' rendered \<and> str_contains ''forged'' rendered))"

definition invalid_hex_names_the_argument_rather_than_echoing_it :: "('t, 'j) safe_text \<Rightarrow> bool" where
  "invalid_hex_names_the_argument_rather_than_echoing_it T \<longleftrightarrow>
     (let rendered = error_display T (invalid_hex T ''peer_id'')
      in str_contains ''peer_id'' rendered \<and> str_contains ''invalid hex'' rendered)"

definition error_messages_are_descriptive :: "('t, 'j) safe_text \<Rightarrow> bool" where
  "error_messages_are_descriptive T \<longleftrightarrow>
     str_contains ''no peers'' (error_display T NoPeers)
     \<and> str_contains ''timed out'' (error_display T Timeout)
     \<and> str_contains ''malformed'' (error_display T (MalformedResponse (st_from_static T ''x'')))"

subsection \<open>The model passes\<close>

text \<open>A text that is a concatenation contains each of its parts.\<close>

lemma starts_with_append: "starts_with p (p @ s)"
  by (induction p) simp_all

lemma str_contains_append: "str_contains p s \<Longrightarrow> str_contains p (a @ s)"
  by (induction a) simp_all

lemma str_contains_prefix: "str_contains p (p @ s)"
  by (cases "p @ s") (use starts_with_append[of p s] in auto)

lemma hex32_repeat: "hex32 (replicate n b) = concat (replicate n (hex_pair b))"
  by (simp add: hex32_eq_to_hex to_hex_concat)

lemma debug_renders_hex_for_every_variant_passes: debug_renders_hex_for_every_variant
proof -
  have "hex_pair 0x11 = ''11''" "hex_pair 0x22 = ''22''" "hex_pair 0x33 = ''33''" by (simp_all add: hex_pair_def)
  then have rep: "hex32 test_S = concat (replicate 32 ''11'')" "hex32 test_R = concat (replicate 32 ''22'')"
    "hex32 test_RK = concat (replicate 32 ''33'')"
    by (simp_all only: test_S_def test_R_def test_RK_def hex32_repeat)
  have "str_contains (concat (replicate 32 ''11'')) (content_debug (content_store test_S))"
    "str_contains (concat (replicate 32 ''22'')) (content_debug (content_root test_S test_R))"
    "str_contains (concat (replicate 32 ''33'')) (content_debug (content_resource test_S test_R test_RK))"
    unfolding content_store_def content_root_def content_resource_def content_debug.simps debug_field_def rep append_assoc
    by (intro str_contains_append str_contains_prefix)+
  moreover have "str_contains ''ContentId::Store'' (content_debug (content_store test_S))"
    "str_contains ''ContentId::Root'' (content_debug (content_root test_S test_R))"
    "str_contains ''ContentId::Resource'' (content_debug (content_resource test_S test_R test_RK))"
    by (simp_all add: content_store_def content_root_def content_resource_def)
  ultimately show ?thesis unfolding debug_renders_hex_for_every_variant_def Let_def by blast
qed

lemma hex_round_trips_length_passes: hex_round_trips_length
proof -
  have "replicate 32 (0xf0 :: u8) = 0xf0 # replicate 31 0xf0" by (simp add: replicate_Suc[symmetric] del: replicate_Suc)
  then have "test_key 0x0a 0xf0 = 0x0a # replicate 31 0xf0" by (simp add: test_key_def key_from_bytes_def)
  moreover from this have "starts_with ''0a'' (to_hex (test_key 0x0a 0xf0))" by (simp add: to_hex_concat hex_pair_def)
  ultimately show ?thesis by (simp add: hex_round_trips_length_def length_to_hex)
qed

lemma xor_distance_is_symmetric_passes: xor_distance_is_symmetric
  by code_simp

lemma distance_to_self_is_zero_passes: distance_to_self_is_zero
  by code_simp

lemma xor_is_the_distance_passes: xor_is_the_distance
  by code_simp

lemma bucket_index_tracks_most_significant_set_bit_passes: bucket_index_tracks_most_significant_set_bit
  by code_simp

lemma closer_keys_have_smaller_distance_passes: closer_keys_have_smaller_distance
  by code_simp

lemma from_peer_id_is_verbatim_passes: from_peer_id_is_verbatim
  by code_simp

lemma distance_ordering_is_big_endian_passes: distance_ordering_is_big_endian
  by code_simp

lemma to_key_is_deterministic_passes: "to_key_is_deterministic sample_externs"
  by code_simp

lemma different_granularities_of_same_store_have_distinct_keys_passes: "different_granularities_of_same_store_have_distinct_keys sample_externs"
  by code_simp

lemma capsule_is_an_alias_of_root_passes: "capsule_is_an_alias_of_root sample_externs"
  by code_simp

lemma store_id_accessor_present_at_every_granularity_passes: store_id_accessor_present_at_every_granularity
  by code_simp

lemma distinct_stores_have_distinct_keys_passes: "distinct_stores_have_distinct_keys sample_externs"
  by code_simp

lemma tag_prefix_prevents_field_shifting_collision_passes: "tag_prefix_prevents_field_shifting_collision sample_externs"
  by code_simp

lemma canonical_bytes_have_the_expected_tag_and_length_passes: canonical_bytes_have_the_expected_tag_and_length
  by code_simp

lemma defaults_follow_kademlia_passes: defaults_follow_kademlia
  by (simp add: defaults_follow_kademlia_def config_defs)

lemma republish_is_shorter_than_ttl_passes: republish_is_shorter_than_ttl
  by (simp add: republish_is_shorter_than_ttl_def config_defs)

lemma discovery_cache_ttl_is_shorter_than_the_provider_ttl_passes: discovery_cache_ttl_is_shorter_than_the_provider_ttl
  by (simp add: discovery_cache_ttl_is_shorter_than_the_provider_ttl_def config_defs)

lemma default_discovery_cache_limits_are_bounded_passes: default_discovery_cache_limits_are_bounded
  by (simp add: default_discovery_cache_limits_are_bounded_def config_defs)

lemma default_provider_store_limits_are_bounded_passes: default_provider_store_limits_are_bounded
  by (simp add: default_provider_store_limits_are_bounded_def config_defs)

lemma transport_helper_formats_passes: "transport_helper_formats sample_safe_text"
  by code_simp

lemma untrusted_transport_text_cannot_forge_a_log_line_passes: "untrusted_transport_text_cannot_forge_a_log_line sample_safe_text"
  by code_simp

lemma invalid_hex_names_the_argument_rather_than_echoing_it_passes: "invalid_hex_names_the_argument_rather_than_echoing_it sample_safe_text"
  by code_simp

lemma error_messages_are_descriptive_passes: "error_messages_are_descriptive sample_safe_text"
  by code_simp

end
