(* ===== verification/Store_Tests.thy ===== *)
theory Store_Tests
  imports Routing_Tests Key_Tests Provider_Store_Facts
begin

text \<open>
  The unit tests of \<^verbatim>\<open>src/provider_store.rs\<close>, each a closed statement over the model. The tests that
  store with \<open>put\<close> take the clock it reads as an argument, and hold whatever it reads.
\<close>

definition TEST_NOW :: u64 where "TEST_NOW = 0"

definition test_rec :: "externs \<Rightarrow> key \<Rightarrow> u8 \<Rightarrow> u64 \<Rightarrow> provider_record" where
  "test_rec E content provider expires =
     provider_record_new E content (replicate 32 provider) [candidate_direct ''h'' 9444] expires"

fun puts :: "(unit \<Rightarrow> u64) \<Rightarrow> provider_record list \<Rightarrow> provider_store \<Rightarrow> put_outcome list \<times> provider_store" where
  "puts clock [] s = ([], s)"
| "puts clock (r # rs) s =
     (let (outcome, s1) = ps_put clock s r; (outcomes, s2) = puts clock rs s1 in (outcome # outcomes, s2))"

definition stored :: "(unit \<Rightarrow> u64) \<Rightarrow> provider_record list \<Rightarrow> provider_store" where
  "stored clock rs = snd (puts clock rs ps_new)"

subsection \<open>Snapshots\<close>

definition snapshot_entry_debug :: "provider_snapshot_entry \<Rightarrow> string" where
  "snapshot_entry_debug e =
     ''ProviderSnapshotEntry { content_key: \"'' @ se_content_key e @ ''\", providers: ''
       @ nat_to_string 10 (se_providers e) @ '' }''"

definition snapshot_debug :: "provider_snapshot \<Rightarrow> string" where
  "snapshot_debug s =
     ''ProviderSnapshot { entries: ['' @ join_with '', '' (map snapshot_entry_debug (sn_entries s))
       @ ''], total_keys: '' @ nat_to_string 10 (sn_total_keys s)
       @ '', truncated: '' @ (if sn_truncated s then ''true'' else ''false'') @ '' }''"

definition snapshot_counts_live_providers_per_key_and_never_leaks_an_identity ::
  "externs \<Rightarrow> (unit \<Rightarrow> u64) \<Rightarrow> bool" where
  "snapshot_counts_live_providers_per_key_and_never_leaks_an_identity E clock \<longleftrightarrow>
     (let k1 = key_from_bytes (replicate 32 1); k2 = key_from_bytes (replicate 32 2);
          s = stored clock [test_rec E k1 10 (TEST_NOW + 100), test_rec E k1 11 (TEST_NOW + 100),
                            test_rec E k2 12 (TEST_NOW + 100)];
          snap = ps_snapshot s TEST_NOW 100
      in sn_total_keys snap = 2 \<and> \<not> sn_truncated snap \<and> map se_providers (sn_entries snap) = [2, 1]
       \<and> list_all (\<lambda>provider. \<not> str_contains (pid_to_hex E (replicate 32 provider)) (snapshot_debug snap)) [10, 11, 12])"

definition snapshot_excludes_expired_records_and_keys_left_with_none :: "externs \<Rightarrow> (unit \<Rightarrow> u64) \<Rightarrow> bool" where
  "snapshot_excludes_expired_records_and_keys_left_with_none E clock \<longleftrightarrow>
     (let live = key_from_bytes (replicate 32 1); dead = key_from_bytes (replicate 32 2);
          s = stored clock [test_rec E live 10 (TEST_NOW + 100), test_rec E dead 11 (TEST_NOW + 1)];
          snap = ps_snapshot s (TEST_NOW + 50) 100
      in sn_total_keys snap = 1 \<and> se_providers (sn_entries snap ! 0) = 1
       \<and> se_content_key (sn_entries snap ! 0) = to_hex live)"

definition ten_keys :: "externs \<Rightarrow> provider_record list" where
  "ten_keys E = map (\<lambda>i. test_rec E (key_from_bytes (replicate 32 i)) (100 + i) (TEST_NOW + 100))
                  [0, 1, 2, 3, 4, 5, 6, 7, 8, 9]"

definition snapshot_is_bounded_and_reports_the_true_total_when_truncated :: "externs \<Rightarrow> (unit \<Rightarrow> u64) \<Rightarrow> bool" where
  "snapshot_is_bounded_and_reports_the_true_total_when_truncated E clock \<longleftrightarrow>
     (let s = stored clock (ten_keys E); snap = ps_snapshot s TEST_NOW 3
      in length (sn_entries snap) = 3 \<and> sn_truncated snap \<and> sn_total_keys snap = 10)"

text \<open>The real test asks one store twice; the model asks of a store whose map is iterated in any other order.\<close>

definition snapshot_is_deterministic_so_truncation_takes_a_stable_subset ::
  "externs \<Rightarrow> (unit \<Rightarrow> u64) \<Rightarrow> ((string \<times> providers) list \<Rightarrow> (string \<times> providers) list) \<Rightarrow> bool" where
  "snapshot_is_deterministic_so_truncation_takes_a_stable_subset E clock rehash \<longleftrightarrow>
     (let s = stored clock (map (\<lambda>i. test_rec E (key_from_bytes (replicate 32 i)) (100 + i) (TEST_NOW + 100))
                              [0, 1, 2, 3, 4, 5, 6, 7])
      in ps_snapshot (s\<lparr>by_key := rehash (by_key s)\<rparr>) TEST_NOW 4 = ps_snapshot s TEST_NOW 4)"

definition a_zero_cap_yields_no_entries_but_still_reports_the_total :: "externs \<Rightarrow> (unit \<Rightarrow> u64) \<Rightarrow> bool" where
  "a_zero_cap_yields_no_entries_but_still_reports_the_total E clock \<longleftrightarrow>
     (let s = stored clock [test_rec E (key_from_bytes (replicate 32 1)) 10 (TEST_NOW + 100)];
          snap = ps_snapshot s TEST_NOW 0
      in sn_entries snap = [] \<and> sn_truncated snap \<and> sn_total_keys snap = 1)"

subsection \<open>Storing and reading\<close>

definition test_key_AA :: key where
  "test_key_AA = key_from_bytes (replicate 32 0xAA)"

definition put_then_get_returns_live_record :: "externs \<Rightarrow> (unit \<Rightarrow> u64) \<Rightarrow> bool" where
  "put_then_get_returns_live_record E clock \<longleftrightarrow>
     (let s = stored clock [test_rec E test_key_AA 1 100]; got = ps_get s (to_hex test_key_AA) 50
      in length got = 1 \<and> provider_peer_id (got ! 0) = pid_to_hex E (replicate 32 1))"

definition get_hides_expired_records :: "externs \<Rightarrow> (unit \<Rightarrow> u64) \<Rightarrow> bool" where
  "get_hides_expired_records E clock \<longleftrightarrow>
     (let s = stored clock [test_rec E test_key_AA 1 100]
      in ps_get s (to_hex test_key_AA) 100 = [] \<and> ps_get s (to_hex test_key_AA) 200 = [])"

definition same_provider_dedups_and_refreshes :: "externs \<Rightarrow> (unit \<Rightarrow> u64) \<Rightarrow> bool" where
  "same_provider_dedups_and_refreshes E clock \<longleftrightarrow>
     (let s = stored clock [test_rec E test_key_AA 1 100, test_rec E test_key_AA 1 500]
      in ps_len s = 1 \<and> length (ps_get s (to_hex test_key_AA) 300) = 1)"

definition distinct_providers_for_same_key_coexist :: "externs \<Rightarrow> (unit \<Rightarrow> u64) \<Rightarrow> bool" where
  "distinct_providers_for_same_key_coexist E clock \<longleftrightarrow>
     (let s = stored clock [test_rec E test_key_AA 1 100, test_rec E test_key_AA 2 100]
      in length (ps_get s (to_hex test_key_AA) 50) = 2)"

subsection \<open>Admission\<close>

definition put_returns_accepted_under_capacity :: "externs \<Rightarrow> (unit \<Rightarrow> u64) \<Rightarrow> bool" where
  "put_returns_accepted_under_capacity E clock \<longleftrightarrow>
     fst (ps_put clock ps_new (test_rec E test_key_AA 1 100)) = Accepted"

definition refreshing_same_provider_always_succeeds_even_at_per_key_cap :: "externs \<Rightarrow> (unit \<Rightarrow> u64) \<Rightarrow> bool" where
  "refreshing_same_provider_always_succeeds_even_at_per_key_cap E clock \<longleftrightarrow>
     (let s0 = ps_with_limits \<lparr>max_providers_per_key = 1, max_total_records = 1000\<rparr>;
          (outcomes, s) = puts clock [test_rec E test_key_AA 1 100, test_rec E test_key_AA 1 999] s0
      in outcomes = [Accepted, Accepted] \<and> ps_len s = 1)"

definition live_provider_ids_at :: "provider_store \<Rightarrow> key \<Rightarrow> u64 \<Rightarrow> string set" where
  "live_provider_ids_at s key now = provider_peer_id ` set (ps_get s (to_hex key) now)"

definition live_provider_ids :: "provider_store \<Rightarrow> key \<Rightarrow> string set" where
  "live_provider_ids s key = provider_peer_id ` set (ps_get s (to_hex key) 0)"

definition cap_four :: provider_store where
  "cap_four = ps_with_limits \<lparr>max_providers_per_key = 4, max_total_records = 1000\<rparr>"

definition per_key_cap_evicts_soonest_to_expire_within_the_churn_zone :: "externs \<Rightarrow> bool" where
  "per_key_cap_evicts_soonest_to_expire_within_the_churn_zone E \<longleftrightarrow>
     (let key = test_key_AA;
          (outcomes, s) = puts (\<lambda>_. TEST_NOW)
            [test_rec E key 1 100, test_rec E key 2 200, test_rec E key 3 900, test_rec E key 4 800,
             test_rec E key 5 999] cap_four
      in outcomes = [Accepted, Accepted, Accepted, Accepted, Accepted]
       \<and> length (ps_get s (to_hex key) 0) = 4
       \<and> pid_to_hex E (replicate 32 4) \<notin> live_provider_ids s key)"

definition u64_to_be_bytes :: "u64 \<Rightarrow> u8 list" where
  "u64_to_be_bytes w = map (\<lambda>i. ucast (drop_bit (56 - 8 * i) w)) [0..<8]"

definition sybil_id :: "u64 \<Rightarrow> u8 list" where
  "sybil_id i = u64_to_be_bytes i @ drop 8 (replicate 32 0xEE)"

definition sybil_rec :: "externs \<Rightarrow> u64 \<Rightarrow> u64 \<Rightarrow> provider_record" where
  "sybil_rec E base i =
     provider_record_new E test_key_AA (sybil_id i) [candidate_direct ''h'' 9444] (base + i)"

definition sybils :: "externs \<Rightarrow> u64 \<Rightarrow> nat \<Rightarrow> provider_record list" where
  "sybils E base n = map (\<lambda>i. sybil_rec E base (word_of_nat i)) [0..<n]"

definition cap_twenty :: provider_store where
  "cap_twenty = ps_with_limits \<lparr>max_providers_per_key = 20, max_total_records = 100000\<rparr>"

definition sustained_sybil_flood_cannot_evict_the_lone_established_holder :: "externs \<Rightarrow> bool" where
  "sustained_sybil_flood_cannot_evict_the_lone_established_holder E \<longleftrightarrow>
     (let key = test_key_AA; honest = pid_to_hex E (replicate 32 1);
          (outcomes, s) = puts (\<lambda>_. TEST_NOW) (test_rec E key 1 100 # sybils E 1000 500) cap_twenty
      in hd outcomes = Accepted \<and> honest \<in> live_provider_ids s key
       \<and> length (ps_get s (to_hex key) 0) = 20)"

definition established_floor_protects_the_earliest_admitted_providers :: "externs \<Rightarrow> bool" where
  "established_floor_protects_the_earliest_admitted_providers E \<longleftrightarrow>
     (let key = test_key_AA;
          s = snd (puts (\<lambda>_. TEST_NOW)
            [test_rec E key 1 10, test_rec E key 2 20, test_rec E key 3 900, test_rec E key 4 800,
             test_rec E key 5 999] cap_four);
          live = live_provider_ids s key
      in pid_to_hex E (replicate 32 1) \<in> live \<and> pid_to_hex E (replicate 32 2) \<in> live)"

definition republish_does_not_reset_a_holders_establishment :: "externs \<Rightarrow> bool" where
  "republish_does_not_reset_a_holders_establishment E \<longleftrightarrow>
     (let key = test_key_AA; honest = pid_to_hex E (replicate 32 1);
          s = snd (puts (\<lambda>_. TEST_NOW)
            ([test_rec E key 1 100, test_rec E key 10 500, test_rec E key 11 501, test_rec E key 12 502,
              test_rec E key 1 5000] @ sybils E 9000 50) cap_four)
      in honest \<in> live_provider_ids s key)"

definition an_expired_record_in_the_floor_is_evicted_before_a_live_one :: "externs \<Rightarrow> bool" where
  "an_expired_record_in_the_floor_is_evicted_before_a_live_one E \<longleftrightarrow>
     (let key = test_key_AA; now = 10000;
          s = snd (puts (\<lambda>_. now)
            [test_rec E key 1 100, test_rec E key 2 200, test_rec E key 3 (now + 5000), test_rec E key 4 (now + 6000),
             test_rec E key 5 (now + 7000)] cap_four);
          live = live_provider_ids_at s key now
      in pid_to_hex E (replicate 32 3) \<in> live \<and> pid_to_hex E (replicate 32 4) \<in> live)"

definition one_expired_record_anywhere_is_the_victim_before_any_live_record :: "externs \<Rightarrow> bool" where
  "one_expired_record_anywhere_is_the_victim_before_any_live_record E \<longleftrightarrow>
     (let key = test_key_AA; now = 10000;
          s = snd (puts (\<lambda>_. now)
            [test_rec E key 1 100, test_rec E key 2 (now + 1000), test_rec E key 3 (now + 2000),
             test_rec E key 4 (now + 3000), test_rec E key 5 (now + 4000)] cap_four)
      in card (live_provider_ids_at s key now) = 4)"

definition the_floor_still_protects_an_established_holder_when_every_record_is_live :: "externs \<Rightarrow> bool" where
  "the_floor_still_protects_an_established_holder_when_every_record_is_live E \<longleftrightarrow>
     (let key = test_key_AA; now = 10000; honest = pid_to_hex E (replicate 32 1);
          s = snd (puts (\<lambda>_. now) (test_rec E key 1 (now + 1000) # sybils E (now + 2000) 500) cap_twenty)
      in honest \<in> live_provider_ids_at s key now)"

definition put_delegates_to_put_at_with_the_wall_clock :: "externs \<Rightarrow> (unit \<Rightarrow> u64) \<Rightarrow> bool" where
  "put_delegates_to_put_at_with_the_wall_clock E clock \<longleftrightarrow>
     (let (outcome, wall) = ps_put clock ps_new (test_rec E test_key_AA 1 (- 1)) in outcome = Accepted \<and> ps_len wall = 1)"

definition global_cap_rejects_new_content_keys_over_ceiling :: "externs \<Rightarrow> (unit \<Rightarrow> u64) \<Rightarrow> bool" where
  "global_cap_rejects_new_content_keys_over_ceiling E clock \<longleftrightarrow>
     (let k1 = key_from_bytes (replicate 32 1); k2 = key_from_bytes (replicate 32 2); k3 = key_from_bytes (replicate 32 3);
          (outcomes, s) = puts clock [test_rec E k1 1 100, test_rec E k2 1 100, test_rec E k3 1 100]
            (ps_with_limits \<lparr>max_providers_per_key = 20, max_total_records = 2\<rparr>)
      in outcomes = [Accepted, Accepted, RejectedOverCapacity] \<and> ps_len s = 2 \<and> ps_get s (to_hex k3) 0 = [])"

definition global_cap_does_not_evict_a_different_key_to_make_room :: "externs \<Rightarrow> (unit \<Rightarrow> u64) \<Rightarrow> bool" where
  "global_cap_does_not_evict_a_different_key_to_make_room E clock \<longleftrightarrow>
     (let legit = test_key_AA; attacker_key = key_from_bytes (replicate 32 0xBB);
          (outcomes, s) = puts clock [test_rec E legit 1 100, test_rec E attacker_key 2 100]
            (ps_with_limits \<lparr>max_providers_per_key = 20, max_total_records = 1\<rparr>)
      in outcomes ! 1 = RejectedOverCapacity \<and> length (ps_get s (to_hex legit) 0) = 1)"

subsection \<open>Removal, collection and announcements\<close>

definition remove_deletes_only_the_named_provider_record :: "externs \<Rightarrow> (unit \<Rightarrow> u64) \<Rightarrow> bool" where
  "remove_deletes_only_the_named_provider_record E clock \<longleftrightarrow>
     (let s = stored clock [test_rec E test_key_AA 1 100, test_rec E test_key_AA 2 100];
          pid1 = pid_to_hex E (replicate 32 1); pid2 = pid_to_hex E (replicate 32 2);
          (removed, s) = ps_remove s (to_hex test_key_AA) pid1;
          survivors = live_provider_ids s test_key_AA
      in removed \<and> card survivors = 1 \<and> pid2 \<in> survivors \<and> pid1 \<notin> survivors)"

definition remove_of_absent_record_returns_false :: "externs \<Rightarrow> (unit \<Rightarrow> u64) \<Rightarrow> bool" where
  "remove_of_absent_record_returns_false E clock \<longleftrightarrow>
     (let s = stored clock [test_rec E test_key_AA 1 100]; absent = pid_to_hex E (replicate 32 9);
          (r1, s) = ps_remove s (to_hex test_key_AA) absent;
          (r2, s) = ps_remove s (concat (replicate 32 ''00'')) absent
      in \<not> r1 \<and> \<not> r2 \<and> ps_len s = 1)"

definition remove_drops_content_key_when_last_provider_leaves :: "externs \<Rightarrow> (unit \<Rightarrow> u64) \<Rightarrow> bool" where
  "remove_drops_content_key_when_last_provider_leaves E clock \<longleftrightarrow>
     (let s = stored clock [test_rec E test_key_AA 1 100];
          (removed, s) = ps_remove s (to_hex test_key_AA) (pid_to_hex E (replicate 32 1))
      in removed \<and> ps_is_empty s)"

definition gc_removes_expired_and_empty_keys :: "externs \<Rightarrow> (unit \<Rightarrow> u64) \<Rightarrow> bool" where
  "gc_removes_expired_and_empty_keys E clock \<longleftrightarrow>
     (let k1 = key_from_bytes (replicate 32 1); k2 = key_from_bytes (replicate 32 2);
          s = stored clock [test_rec E k1 1 100, test_rec E k2 1 500];
          (removed, s) = ps_gc s 200
      in removed = 1 \<and> ps_get s (to_hex k1) 200 = [] \<and> length (ps_get s (to_hex k2) 200) = 1)"

definition announcements_track_and_untrack :: bool where
  "announcements_track_and_untrack \<longleftrightarrow>
     (let key = to_hex (key_from_bytes (replicate 32 7));
          s = ps_mark_announced (ps_mark_announced ps_new key) key;
          (u1, s') = ps_unmark_announced s key; (u2, s'') = ps_unmark_announced s' key
      in ps_local_announcements s = [key] \<and> u1 \<and> \<not> u2 \<and> ps_local_announcements s'' = [])"

subsection \<open>The model passes\<close>

lemma test_rec_sel [simp]:
  "content_key (test_rec sample_externs k p e) = to_hex k"
  "provider_peer_id (test_rec sample_externs k p e) = to_hex (replicate 32 p)"
  "expires_at (test_rec sample_externs k p e) = e"
  by (simp_all add: test_rec_def provider_record_new_def)

lemma hex_replicate_eq: "to_hex (replicate 32 a) = to_hex (replicate 32 b) \<longleftrightarrow> a = b"
  by (simp add: same_id)

lemmas store_steps = stored_def ps_new_def ps_with_limits_def default_limits_def ps_put_def ps_put_at_def ps_lookup_def
  ps_admit_def ps_len_def ps_get_def ps_remove_def ps_gc_def live_providers_def ps_is_empty_def is_expired_def
  eviction_victim_def expiry_order_def floor_def hex_replicate_eq key_from_bytes_def test_key_AA_def TEST_NOW_def
  cap_four_def cap_twenty_def live_provider_ids_def live_provider_ids_at_def less_eq_prod_def Let_def

lemma put_then_get_returns_live_record_passes:
  "put_then_get_returns_live_record sample_externs clock"
  by (simp add: put_then_get_returns_live_record_def store_steps)

lemma get_hides_expired_records_passes:
  "get_hides_expired_records sample_externs clock"
  by (simp add: get_hides_expired_records_def store_steps)

lemma same_provider_dedups_and_refreshes_passes:
  "same_provider_dedups_and_refreshes sample_externs clock"
  by (simp add: same_provider_dedups_and_refreshes_def store_steps)

lemma distinct_providers_for_same_key_coexist_passes:
  "distinct_providers_for_same_key_coexist sample_externs clock"
  by (simp add: distinct_providers_for_same_key_coexist_def store_steps)

lemma put_returns_accepted_under_capacity_passes:
  "put_returns_accepted_under_capacity sample_externs clock"
  by (simp add: put_returns_accepted_under_capacity_def store_steps)

lemma refreshing_same_provider_always_succeeds_even_at_per_key_cap_passes:
  "refreshing_same_provider_always_succeeds_even_at_per_key_cap sample_externs clock"
  by (simp add: refreshing_same_provider_always_succeeds_even_at_per_key_cap_def store_steps)

lemma per_key_cap_evicts_soonest_to_expire_within_the_churn_zone_passes:
  "per_key_cap_evicts_soonest_to_expire_within_the_churn_zone sample_externs"
proof -
  let ?run = "puts (\<lambda>_. TEST_NOW)
    [test_rec sample_externs test_key_AA 1 100, test_rec sample_externs test_key_AA 2 200, test_rec sample_externs test_key_AA 3 900, test_rec sample_externs test_key_AA 4 800, test_rec sample_externs test_key_AA 5 999] cap_four"
  have "ps_get (snd ?run) (to_hex test_key_AA) 0 =
    [test_rec sample_externs test_key_AA 1 100, test_rec sample_externs test_key_AA 2 200, test_rec sample_externs test_key_AA 3 900, test_rec sample_externs test_key_AA 5 999]"
    by (simp add: store_steps)
  moreover have "fst ?run = [Accepted, Accepted, Accepted, Accepted, Accepted]" by (simp add: store_steps)
  ultimately show ?thesis
    by (simp add: per_key_cap_evicts_soonest_to_expire_within_the_churn_zone_def live_provider_ids_def live_provider_ids_at_def hex_replicate_eq split_def Let_def
        del: puts.simps)
qed

lemma established_floor_protects_the_earliest_admitted_providers_passes:
  "established_floor_protects_the_earliest_admitted_providers sample_externs"
proof -
  let ?run = "puts (\<lambda>_. TEST_NOW)
    [test_rec sample_externs test_key_AA 1 10, test_rec sample_externs test_key_AA 2 20, test_rec sample_externs test_key_AA 3 900, test_rec sample_externs test_key_AA 4 800, test_rec sample_externs test_key_AA 5 999] cap_four"
  have "ps_get (snd ?run) (to_hex test_key_AA) 0 =
    [test_rec sample_externs test_key_AA 1 10, test_rec sample_externs test_key_AA 2 20, test_rec sample_externs test_key_AA 3 900, test_rec sample_externs test_key_AA 5 999]"
    by (simp add: store_steps)
  moreover have "fst ?run = [Accepted, Accepted, Accepted, Accepted, Accepted]" by (simp add: store_steps)
  ultimately show ?thesis
    by (simp add: established_floor_protects_the_earliest_admitted_providers_def live_provider_ids_def live_provider_ids_at_def hex_replicate_eq split_def Let_def
        del: puts.simps)
qed

lemma an_expired_record_in_the_floor_is_evicted_before_a_live_one_passes:
  "an_expired_record_in_the_floor_is_evicted_before_a_live_one sample_externs"
proof -
  let ?run = "puts (\<lambda>_. 10000)
    [test_rec sample_externs test_key_AA 1 100, test_rec sample_externs test_key_AA 2 200, test_rec sample_externs test_key_AA 3 15000, test_rec sample_externs test_key_AA 4 16000, test_rec sample_externs test_key_AA 5 17000] cap_four"
  have "ps_get (snd ?run) (to_hex test_key_AA) 10000 =
    [test_rec sample_externs test_key_AA 3 15000, test_rec sample_externs test_key_AA 4 16000, test_rec sample_externs test_key_AA 5 17000]"
    by (simp add: store_steps)
  moreover have "fst ?run = [Accepted, Accepted, Accepted, Accepted, Accepted]" by (simp add: store_steps)
  ultimately show ?thesis
    by (simp add: an_expired_record_in_the_floor_is_evicted_before_a_live_one_def live_provider_ids_def live_provider_ids_at_def hex_replicate_eq split_def Let_def
        del: puts.simps)
qed

lemma one_expired_record_anywhere_is_the_victim_before_any_live_record_passes:
  "one_expired_record_anywhere_is_the_victim_before_any_live_record sample_externs"
proof -
  let ?run = "puts (\<lambda>_. 10000)
    [test_rec sample_externs test_key_AA 1 100, test_rec sample_externs test_key_AA 2 11000, test_rec sample_externs test_key_AA 3 12000, test_rec sample_externs test_key_AA 4 13000, test_rec sample_externs test_key_AA 5 14000] cap_four"
  have "ps_get (snd ?run) (to_hex test_key_AA) 10000 =
    [test_rec sample_externs test_key_AA 2 11000, test_rec sample_externs test_key_AA 3 12000, test_rec sample_externs test_key_AA 4 13000, test_rec sample_externs test_key_AA 5 14000]"
    by (simp add: store_steps)
  moreover have "fst ?run = [Accepted, Accepted, Accepted, Accepted, Accepted]" by (simp add: store_steps)
  ultimately show ?thesis
    by (simp add: one_expired_record_anywhere_is_the_victim_before_any_live_record_def live_provider_ids_def live_provider_ids_at_def hex_replicate_eq split_def Let_def
        del: puts.simps)
qed

lemma put_delegates_to_put_at_with_the_wall_clock_passes:
  "put_delegates_to_put_at_with_the_wall_clock sample_externs clock"
  by (simp add: put_delegates_to_put_at_with_the_wall_clock_def store_steps)

lemma global_cap_rejects_new_content_keys_over_ceiling_passes:
  "global_cap_rejects_new_content_keys_over_ceiling sample_externs clock"
  by (simp add: global_cap_rejects_new_content_keys_over_ceiling_def store_steps)

lemma global_cap_does_not_evict_a_different_key_to_make_room_passes:
  "global_cap_does_not_evict_a_different_key_to_make_room sample_externs clock"
  by (simp add: global_cap_does_not_evict_a_different_key_to_make_room_def store_steps)

lemma remove_deletes_only_the_named_provider_record_passes:
  "remove_deletes_only_the_named_provider_record sample_externs clock"
proof -
  let ?s = "stored clock [test_rec sample_externs test_key_AA 1 100, test_rec sample_externs test_key_AA 2 100]"
  let ?p = "ps_remove ?s (to_hex test_key_AA) (to_hex (replicate 32 1))"
  have "ps_get (snd ?p) (to_hex test_key_AA) 0 = [test_rec sample_externs test_key_AA 2 100]" "fst ?p"
    by (simp_all add: store_steps)
  then show ?thesis
    by (simp add: remove_deletes_only_the_named_provider_record_def live_provider_ids_def hex_replicate_eq split_def Let_def)
qed

lemma remove_of_absent_record_returns_false_passes:
  "remove_of_absent_record_returns_false sample_externs clock"
  by (simp add: remove_of_absent_record_returns_false_def store_steps)

lemma remove_drops_content_key_when_last_provider_leaves_passes:
  "remove_drops_content_key_when_last_provider_leaves sample_externs clock"
  by (simp add: remove_drops_content_key_when_last_provider_leaves_def store_steps)

lemma gc_removes_expired_and_empty_keys_passes:
  "gc_removes_expired_and_empty_keys sample_externs clock"
  by (simp add: gc_removes_expired_and_empty_keys_def store_steps)

lemma announcements_track_and_untrack_passes: announcements_track_and_untrack
  by (simp add: announcements_track_and_untrack_def ps_new_def ps_with_limits_def ps_mark_announced_def
      ps_unmark_announced_def ps_local_announcements_def Let_def)

lemma a_zero_cap_yields_no_entries_but_still_reports_the_total_passes:
  "a_zero_cap_yields_no_entries_but_still_reports_the_total sample_externs clock"
  by (simp add: a_zero_cap_yields_no_entries_but_still_reports_the_total_def ps_snapshot_def store_steps List.map_filter_def)

lemma snapshot_excludes_expired_records_and_keys_left_with_none_passes:
  "snapshot_excludes_expired_records_and_keys_left_with_none sample_externs clock"
  by (simp add: snapshot_excludes_expired_records_and_keys_left_with_none_def ps_snapshot_def store_steps List.map_filter_def)

text \<open>A snapshot does not depend on the iteration order of the map.\<close>

lemma snapshot_order_free:
  assumes "store_ok s" "mset ps = mset (by_key s)"
  shows "ps_snapshot (s\<lparr>by_key := ps\<rparr>) now m = ps_snapshot s now m"
proof -
  let ?pool = "snapshot_pool s now" and ?pool' = "snapshot_pool (s\<lparr>by_key := ps\<rparr>) now"
  have m: "mset ?pool' = mset ?pool"
    using assms(2) by (simp add: snapshot_pool_def List.map_filter_def)
  have "inj_on se_content_key (set ?pool)" using snapshot_pool_distinct[OF assms(1), of now] by (simp add: distinct_map)
  then have "inj_on se_content_key (set ?pool')" using m by (metis set_mset_mset)
  from sort_key_inj_key_eq[OF _ this, of "sort_key se_content_key ?pool"] m
  have "sort_key se_content_key ?pool' = sort_key se_content_key ?pool" by simp
  moreover have "ps_snapshot t now m = (let ordered = sort_key se_content_key (snapshot_pool t now)
      in \<lparr>sn_entries = take m ordered, sn_total_keys = length ordered, sn_truncated = length ordered > m\<rparr>)" for t
    unfolding ps_snapshot_def snapshot_pool_def Let_def ..
  ultimately show ?thesis by (simp only:)
qed

lemma puts_ok: "store_ok s \<Longrightarrow> store_ok (snd (puts clock rs s))"
proof (induction rs arbitrary: s)
  case (Cons r rs)
  obtain outcome s1 where put: "ps_put clock s r = (outcome, s1)" by fastforce
  then have "store_ok s1" using put_at_ok[OF Cons.prems] by (simp add: ps_put_def)
  from Cons.IH[OF this] put show ?case by (simp add: split_def Let_def)
qed simp

lemma snapshot_is_deterministic_so_truncation_takes_a_stable_subset_passes:
  assumes "\<And>ps. mset (rehash ps) = mset ps"
  shows "snapshot_is_deterministic_so_truncation_takes_a_stable_subset E clock rehash"
  unfolding snapshot_is_deterministic_so_truncation_takes_a_stable_subset_def Let_def
proof (rule snapshot_order_free)
  show "store_ok (stored clock rs)" for rs
    unfolding stored_def ps_new_def using empty_store_inv by (intro puts_ok) (simp add: store_inv_def)
qed (rule assms)

lemma snapshot_is_bounded_and_reports_the_true_total_when_truncated_passes:
  "snapshot_is_bounded_and_reports_the_true_total_when_truncated sample_externs clock"
  by (simp add: snapshot_is_bounded_and_reports_the_true_total_when_truncated_def ps_snapshot_def ten_keys_def store_steps
      List.map_filter_def)

lemma hex_order: "to_hex (replicate 32 1) \<le> to_hex (replicate 32 2)" "\<not> to_hex (replicate 32 2) \<le> to_hex (replicate 32 1)"
proof -
  have "replicate 32 b = b # replicate 31 b" for b :: u8 by (simp add: replicate_step)
  then have s: "to_hex (replicate 32 b) = hex_pair b @ to_hex (replicate 31 b)" for b by (simp add: to_hex_concat)
  show "to_hex (replicate 32 1) \<le> to_hex (replicate 32 2)" "\<not> to_hex (replicate 32 2) \<le> to_hex (replicate 32 1)"
    unfolding s by (simp_all add: hex_pair_def)
qed

lemma two_keys_snapshot:
  "ps_snapshot (stored clock [test_rec sample_externs (replicate 32 1) 10 100, test_rec sample_externs (replicate 32 1) 11 100,
      test_rec sample_externs (replicate 32 2) 12 100]) 0 100
   = \<lparr>sn_entries = [\<lparr>se_content_key = to_hex (replicate 32 1), se_providers = 2\<rparr>,
        \<lparr>se_content_key = to_hex (replicate 32 2), se_providers = 1\<rparr>], sn_total_keys = 2, sn_truncated = False\<rparr>"
  by (simp add: ps_snapshot_def store_steps List.map_filter_def hex_order)

lemma starts_with_prefix: "starts_with (a @ b) s \<Longrightarrow> starts_with a s"
  by (induction a s rule: starts_with.induct) simp_all

lemma str_contains_shorter: "str_contains (a @ b) s \<Longrightarrow> str_contains a s"
proof (induction s)
  case (Cons c s)
  then show ?case using starts_with_prefix[of a b "c # s"] by auto
qed simp

lemma two_keys_debug:
  "snapshot_debug (ps_snapshot (stored clock [test_rec sample_externs (replicate 32 1) 10 100,
      test_rec sample_externs (replicate 32 1) 11 100, test_rec sample_externs (replicate 32 2) 12 100]) 0 100)
   = ''ProviderSnapshot { entries: [ProviderSnapshotEntry { content_key: \"'' @ concat (replicate 32 ''01'')
      @ ''\", providers: 2 }, ProviderSnapshotEntry { content_key: \"'' @ concat (replicate 32 ''02'')
      @ ''\", providers: 1 }], total_keys: 2, truncated: false }''"
proof -
  have "to_hex (replicate 32 1) = concat (replicate 32 ''01'')" "to_hex (replicate 32 2) = concat (replicate 32 ''02'')"
    by (simp_all add: to_hex_concat hex_pair_def)
  then show ?thesis
    by (simp add: two_keys_snapshot snapshot_debug_def snapshot_entry_debug_def nat_to_string.simps digit_char_nth)
qed

lemma snapshot_counts_live_providers_per_key_and_never_leaks_an_identity_passes:
  "snapshot_counts_live_providers_per_key_and_never_leaks_an_identity sample_externs clock"
proof -
  let ?text = "snapshot_debug (ps_snapshot (stored clock [test_rec sample_externs (replicate 32 1) 10 100,
      test_rec sample_externs (replicate 32 1) 11 100, test_rec sample_externs (replicate 32 2) 12 100]) 0 100)"
  have none: "\<not> str_contains ''0a'' ?text" "\<not> str_contains ''0b'' ?text" "\<not> str_contains ''0c'' ?text"
    unfolding two_keys_debug by (simp_all add: replicate_step)
  have "to_hex (replicate 32 b) = hex_pair b @ to_hex (replicate 31 b)" for b
    by (simp add: to_hex_concat replicate_step[of 32])
  then have "to_hex (replicate 32 10) = ''0a'' @ to_hex (replicate 31 10)" "to_hex (replicate 32 11) = ''0b'' @ to_hex (replicate 31 11)"
    "to_hex (replicate 32 12) = ''0c'' @ to_hex (replicate 31 12)" by (simp_all add: hex_pair_def)
  then have "\<not> str_contains (to_hex (replicate 32 10)) ?text" "\<not> str_contains (to_hex (replicate 32 11)) ?text"
    "\<not> str_contains (to_hex (replicate 32 12)) ?text"
    using none str_contains_shorter by metis+
  then show ?thesis
    by (simp add: snapshot_counts_live_providers_per_key_and_never_leaks_an_identity_def TEST_NOW_def key_from_bytes_def
        two_keys_snapshot)
qed

subsection \<open>The floods\<close>

lemma puts_run: "snd (puts (\<lambda>_. now) rs s) = foldl store_step s (map (\<lambda>r. OpPut r now) rs)"
  by (induction rs arbitrary: s) (simp_all add: ps_put_def split_def Let_def)

lemma puts_append: "snd (puts clock (as @ bs) s) = snd (puts clock bs (snd (puts clock as s)))"
  by (induction as arbitrary: s) (simp_all add: split_def Let_def)

text \<open>An identity other than the flooders' keeps its established slot.\<close>

lemma holder_survives_puts:
  assumes "store_inv s" "established s ck pid e" "\<not> is_expired (pe_record e) now" "provider_peer_id (pe_record e) = pid"
    "\<And>r. r \<in> set rs \<Longrightarrow> provider_peer_id r \<noteq> pid"
  shows "pid \<in> provider_peer_id ` set (ps_get (snd (puts (\<lambda>_. now) rs s)) ck now)"
proof -
  let ?ops = "map (\<lambda>r. OpPut r now) rs"
  have "list_all (spares ck pid e) ?ops" using assms(3,5) by (auto simp: list_all_iff)
  from established_run[OF assms(1,2) this] have est: "established (foldl store_step s ?ops) ck pid e" .
  have "store_ok (foldl store_step s ?ops)" using store_run_inv[OF assms(1)] by (simp add: store_inv_def)
  from established_served[OF this est assms(3)] assms(4) show ?thesis unfolding puts_run by force
qed

text \<open>A put of a new provider into a store of one key adds it, up to the cap.\<close>

lemma flood_put:
  assumes "store_inv s" "max_providers_per_key (limits s) = m" "0 < m" "m < max_total_records (limits s)"
    "ps_len s = key_size s (content_key r)" "key_size s (content_key r) \<le> m"
    "ps_lookup s (content_key r) (provider_peer_id r) = None" "ps_put_at s r now = (outcome, s')"
  shows "outcome = Accepted \<and> key_size s' (content_key r) = min m (Suc (key_size s (content_key r)))
    \<and> ps_len s' = key_size s' (content_key r)"
proof -
  have ok: "store_ok s" using assms(1) by (simp add: store_inv_def)
  then have d: "distinct (map fst (by_key s))" by (simp add: store_ok_def)
  from assms(8) show ?thesis
  proof (cases rule: put_at_cases)
    case (refresh ps old)
    with assms(7) show ?thesis by (simp add: ps_lookup_def)
  next
    case full
    with assms(2-6) show ?thesis by simp
  next
    case (stuck ps)
    have "ps \<noteq> []" using store_ok_entries[OF ok stuck(1)] by simp
    from victim_total[OF this stuck(2)] stuck(3) show ?thesis by blast
  next
    case plain
    have "key_size s (content_key r) < m"
      using plain(3) assms(2,3) by (auto simp: key_size_def split: option.split)
    with plain assms(5) len_admit[OF d assms(7)] admit_size[OF assms(7)] show ?thesis by simp
  next
    case (evict ps v)
    let ?s = "s\<lparr>by_key := AList.update (content_key r) (AList.delete v ps) (by_key s)\<rparr>"
    note len = victim_len[OF ok evict(1,5)]
    have size: "Suc (key_size ?s (content_key r)) = key_size s (content_key r)"
      using len(1) evict(1) by (simp add: key_size_def map_of_update)
    have new: "ps_lookup ?s (content_key r) (provider_peer_id r) = None"
      using evict(2) by (auto simp: map_of_delete map_of_eq_None_iff AList.delete_eq)
    have "distinct (map fst (by_key ?s))" using d by (simp add: distinct_keys_update)
    from len_admit[OF this new] admit_size[OF new] size len(2) evict assms(2,5,6) show ?thesis
      by (simp add: key_size_def[of s])
  qed
qed

lemma flood_size:
  assumes "store_inv s" "max_providers_per_key (limits s) = m" "0 < m" "m < max_total_records (limits s)"
    "ps_len s = key_size s ck" "key_size s ck \<le> m" "distinct (map provider_peer_id rs)"
    "\<And>r. r \<in> set rs \<Longrightarrow> content_key r = ck"
    "\<And>r. r \<in> set rs \<Longrightarrow> provider_peer_id r \<notin> provider_peer_id ` ps_records s"
  shows "key_size (snd (puts (\<lambda>_. now) rs s)) ck = min m (key_size s ck + length rs)
    \<and> ps_records (snd (puts (\<lambda>_. now) rs s)) \<subseteq> set rs \<union> ps_records s"
  using assms
proof (induction rs arbitrary: s)
  case (Cons r rs)
  obtain outcome s' where put: "ps_put_at s r now = (outcome, s')" by fastforce
  have ck: "content_key r = ck" using Cons.prems(8) by simp
  have ok: "store_ok s" using Cons.prems(1) by (simp add: store_inv_def)
  have new: "ps_lookup s (content_key r) (provider_peer_id r) = None"
  proof (rule ccontr)
    assume "ps_lookup s (content_key r) (provider_peer_id r) \<noteq> None"
    then obtain e where e: "ps_lookup s (content_key r) (provider_peer_id r) = Some e" by blast
    then have "pe_record e \<in> ps_records s" by (auto simp: records_mem)
    with lookup_record[OF ok e] Cons.prems(9)[of r] show False by (metis imageI list.set_intros(1))
  qed
  note step = flood_put[OF Cons.prems(1-4) _ _ new put, unfolded ck, OF Cons.prems(5,6)]
  have recs: "ps_records s' \<subseteq> insert r (ps_records s)" using put_at_records[OF put] by blast
  have "provider_peer_id q \<notin> provider_peer_id ` ps_records s'" if "q \<in> set rs" for q
  proof -
    have "provider_peer_id q \<in> provider_peer_id ` set rs" using that by (rule imageI)
    then have "provider_peer_id q \<noteq> provider_peer_id r" using Cons.prems(7) by auto
    with Cons.prems(9)[of q] that recs show ?thesis by auto
  qed
  moreover have "store_inv s'" using put_at_inv[OF Cons.prems(1), of r now] put by simp
  ultimately have "key_size (snd (puts (\<lambda>_. now) rs s')) ck = min m (key_size s' ck + length rs)
      \<and> ps_records (snd (puts (\<lambda>_. now) rs s')) \<subseteq> set rs \<union> ps_records s'"
    using Cons.prems(2-4,7,8) step put_at_limits[OF put] by (intro Cons.IH) simp_all
  moreover have "snd (puts (\<lambda>_. now) (r # rs) s) = snd (puts (\<lambda>_. now) rs s')"
    by (simp add: ps_put_def put split_def Let_def)
  ultimately show ?case using step recs by auto
qed simp

lemma bit_u64_to_be_bytes: "i < 8 \<Longrightarrow> n < 8 \<Longrightarrow> bit (u64_to_be_bytes w ! i) n = bit w (56 - 8 * i + n)"
  by (simp add: u64_to_be_bytes_def bit_simps)

lemma u64_to_be_bytes_inj: "u64_to_be_bytes a = u64_to_be_bytes b \<longleftrightarrow> a = b"
proof
  assume eq: "u64_to_be_bytes a = u64_to_be_bytes b"
  show "a = b"
  proof (rule bit_word_eqI)
    fix n assume "n < LENGTH(64)"
    then have "n div 8 \<le> 7" "8 * (n div 8) + n mod 8 = n" by auto
    then have i: "7 - n div 8 < 8" "n mod 8 < 8" "56 - 8 * (7 - n div 8) + n mod 8 = n" by linarith+
    show "bit a n = bit b n"
      using bit_u64_to_be_bytes[OF i(1,2), of a] bit_u64_to_be_bytes[OF i(1,2), of b] unfolding i(3) eq by simp
  qed
qed simp

lemma sybil_facts: "length (sybil_id i) = 32" "sybil_id i = sybil_id j \<longleftrightarrow> i = j" "sybil_id i \<noteq> replicate 32 1"
proof -
  have len: "length (u64_to_be_bytes i) = 8" for i by (simp add: u64_to_be_bytes_def)
  then show "length (sybil_id i) = 32" by (simp add: sybil_id_def)
  show "sybil_id i = sybil_id j \<longleftrightarrow> i = j" by (simp add: sybil_id_def len u64_to_be_bytes_inj)
  show "sybil_id i \<noteq> replicate 32 1"
  proof
    assume "sybil_id i = replicate 32 1"
    then have "sybil_id i ! 31 = 1" by simp
    then show False by (simp add: sybil_id_def nth_append len)
  qed
qed

lemma sybil_rec_sel:
  "content_key (sybil_rec sample_externs base i) = to_hex test_key_AA"
  "provider_peer_id (sybil_rec sample_externs base i) = to_hex (sybil_id i)"
  "expires_at (sybil_rec sample_externs base i) = base + i"
  by (simp_all add: sybil_rec_def provider_record_new_def)

lemma sybils_distinct: "n \<le> 500 \<Longrightarrow> distinct (map provider_peer_id (sybils sample_externs base n))"
  by (auto simp: sybils_def sybil_rec_sel same_id sybil_facts distinct_map inj_on_def unat_of_nat word_unat_eq_iff)

lemma sybils_strangers: "r \<in> set (sybils sample_externs base n) \<Longrightarrow> provider_peer_id r \<noteq> to_hex (replicate 32 1)"
  by (auto simp: sybils_def sybil_rec_sel same_id sybil_facts)

text \<open>The stores the floods start from: the holder is the first provider of its key.\<close>

lemma lone_holder:
  fixes e now
  defines "s \<equiv> snd (puts (\<lambda>_. now) [test_rec sample_externs test_key_AA 1 e] cap_twenty)"
  shows "by_key s = [(to_hex test_key_AA, [(to_hex (replicate 32 1),
       \<lparr>pe_record = test_rec sample_externs test_key_AA 1 e, admitted_seq = 0\<rparr>)])]"
    "limits s = \<lparr>max_providers_per_key = 20, max_total_records = 100000\<rparr>" "store_inv s"
    "established s (to_hex test_key_AA) (to_hex (replicate 32 1))
       \<lparr>pe_record = test_rec sample_externs test_key_AA 1 e, admitted_seq = 0\<rparr>"
proof -
  show k: "by_key s = [(to_hex test_key_AA, [(to_hex (replicate 32 1),
       \<lparr>pe_record = test_rec sample_externs test_key_AA 1 e, admitted_seq = 0\<rparr>)])]"
    and l: "limits s = \<lparr>max_providers_per_key = 20, max_total_records = 100000\<rparr>"
    by (simp_all add: s_def store_steps)
  show "store_inv s" unfolding s_def puts_run cap_twenty_def by (intro store_run_inv empty_store_inv)
  show "established s (to_hex test_key_AA) (to_hex (replicate 32 1))
       \<lparr>pe_record = test_rec sample_externs test_key_AA 1 e, admitted_seq = 0\<rparr>"
    by (simp add: established_def k l seniority_def)
qed

lemma the_floor_still_protects_an_established_holder_when_every_record_is_live_passes:
  "the_floor_still_protects_an_established_holder_when_every_record_is_live sample_externs"
proof -
  let ?s = "snd (puts (\<lambda>_. 10000) [test_rec sample_externs test_key_AA 1 11000] cap_twenty)"
  have "to_hex (replicate 32 1) \<in> provider_peer_id `
      set (ps_get (snd (puts (\<lambda>_. 10000) (sybils sample_externs 12000 500) ?s)) (to_hex test_key_AA) 10000)"
    by (rule holder_survives_puts[OF lone_holder(3,4)]) (simp_all add: is_expired_def sybils_strangers)
  then show ?thesis
    unfolding puts_append[symmetric]
    by (simp add: the_floor_still_protects_an_established_holder_when_every_record_is_live_def live_provider_ids_at_def
        Let_def del: puts.simps)
qed

lemma sustained_sybil_flood_cannot_evict_the_lone_established_holder_passes:
  "sustained_sybil_flood_cannot_evict_the_lone_established_holder sample_externs"
proof -
  let ?ck = "to_hex test_key_AA" and ?flood = "sybils sample_externs 1000 500"
  define s where "s = snd (puts (\<lambda>_. TEST_NOW) [test_rec sample_externs test_key_AA 1 100] cap_twenty)"
  note start = lone_holder[of TEST_NOW 100, folded s_def]
  let ?t = "snd (puts (\<lambda>_. TEST_NOW) ?flood s)"
  have live: "to_hex (replicate 32 1) \<in> provider_peer_id ` set (ps_get ?t ?ck TEST_NOW)"
    by (rule holder_survives_puts[OF start(3,4)]) (simp_all add: is_expired_def sybils_strangers TEST_NOW_def)
  have recs: "ps_records s = {test_rec sample_externs test_key_AA 1 100}"
    by (auto simp: ps_records_def ps_lookup_def start(1) split: if_splits)
  have "key_size ?t ?ck = min 20 (key_size s ?ck + length ?flood) \<and> ps_records ?t \<subseteq> set ?flood \<union> ps_records s"
    by (rule flood_size[OF start(3)])
      (auto simp: start key_size_def ps_len_def recs sybils_distinct sybils_strangers, auto simp: sybils_def sybil_rec_sel)
  then have size: "key_size ?t ?ck = 20" and sub: "ps_records ?t \<subseteq> set ?flood \<union> ps_records s"
    by (simp_all add: sybils_def)
  have ok: "store_ok ?t" using start(3) store_run_inv unfolding puts_run by (auto simp: store_inv_def)
  have "length (ps_get ?t ?ck 0) = 20"
  proof -
    from size obtain ps where ps: "map_of (by_key ?t) ?ck = Some ps" "length ps = 20"
      by (auto simp: key_size_def split: option.splits)
    have "\<not> is_expired (pe_record (snd p)) 0" if "p \<in> set ps" for p
    proof -
      have "map_of ps (fst p) = Some (snd p)"
        using store_ok_entries[OF ok ps(1)] that by (simp add: entries_ok_def map_of_mem)
      then have "ps_lookup ?t ?ck (fst p) = Some (snd p)" using ps(1) by (simp add: ps_lookup_def)
      then have "pe_record (snd p) \<in> ps_records ?t" unfolding records_mem by blast
      with sub recs consider "pe_record (snd p) = test_rec sample_externs test_key_AA 1 100"
        | i where "i < 500" "pe_record (snd p) = sybil_rec sample_externs 1000 (word_of_nat i)"
        by (auto simp: sybils_def)
      then show ?thesis
      proof cases
        case 2
        have "unat (word_of_nat (1000 + i) :: u64) = 1000 + i" using 2(1) by (simp add: unat_of_nat del: of_nat_add)
        then have "(word_of_nat (1000 + i) :: u64) \<noteq> 0" by (metis add_is_0 unat_0 zero_neq_numeral)
        then show ?thesis by (simp add: 2(2) is_expired_def sybil_rec_sel)
      qed (simp add: is_expired_def)
    qed
    with ps show ?thesis by (simp add: ps_get_def filter_True)
  qed
  moreover have "snd (puts (\<lambda>_. TEST_NOW) (test_rec sample_externs test_key_AA 1 100 # ?flood) cap_twenty) = ?t"
    using puts_append[of "\<lambda>_. TEST_NOW" "[test_rec sample_externs test_key_AA 1 100]" ?flood cap_twenty] by (simp only: s_def append.simps)
  moreover have "hd (fst (puts (\<lambda>_. TEST_NOW) (test_rec sample_externs test_key_AA 1 100 # ?flood) cap_twenty)) = Accepted"
    by (simp add: store_steps split_def)
  ultimately show ?thesis using live
    by (simp add: sustained_sybil_flood_cannot_evict_the_lone_established_holder_def live_provider_ids_def TEST_NOW_def
        split_def Let_def del: puts.simps)
qed

lemma republish_does_not_reset_a_holders_establishment_passes:
  "republish_does_not_reset_a_holders_establishment sample_externs"
proof -
  let ?prep = "[test_rec sample_externs test_key_AA 1 100, test_rec sample_externs test_key_AA 10 500,
      test_rec sample_externs test_key_AA 11 501, test_rec sample_externs test_key_AA 12 502,
      test_rec sample_externs test_key_AA 1 5000]"
  let ?e = "\<lparr>pe_record = test_rec sample_externs test_key_AA 1 5000, admitted_seq = 0\<rparr>"
  define s where "s = snd (puts (\<lambda>_. TEST_NOW) ?prep cap_four)"
  have "store_inv s" unfolding s_def puts_run cap_four_def by (intro store_run_inv empty_store_inv)
  moreover have "established s (to_hex test_key_AA) (to_hex (replicate 32 1)) ?e"
    by (simp add: s_def established_def seniority_def store_steps)
  ultimately have "to_hex (replicate 32 1) \<in> provider_peer_id `
      set (ps_get (snd (puts (\<lambda>_. TEST_NOW) (sybils sample_externs 9000 50) s)) (to_hex test_key_AA) TEST_NOW)"
    by (rule holder_survives_puts) (simp_all add: is_expired_def sybils_strangers TEST_NOW_def)
  then show ?thesis
    unfolding s_def puts_append[symmetric]
    by (simp add: republish_does_not_reset_a_holders_establishment_def live_provider_ids_def TEST_NOW_def
        Let_def del: puts.simps)
qed

end
