(* ===== verification/Service_Tests.thy ===== *)
theory Service_Tests
  imports Store_Tests Service_Totality Memory_Swarm
begin

text \<open>
  The unit tests of \<^verbatim>\<open>src/service.rs\<close> and \<^verbatim>\<open>src/transport.rs\<close>, each a closed statement over the model.
  The transport of the service's tests is never dialled, so they hold for every network; the clock
  stands still at a reading \<open>now\<close> far from the end of time. The assertions on the length of a JSON
  frame are left out.
\<close>

subsection \<open>Keys\<close>

definition hex64_round_trip :: bool where
  "hex64_round_trip \<longleftrightarrow>
     (let bytes = replicate 32 0xAB; hex = to_hex (key_from_bytes bytes)
      in hex64_to_bytes hex = Some bytes \<and> hex64_to_bytes ''short'' = None
       \<and> hex64_to_bytes (concat (replicate 32 ''zz'')) = None)"

definition parse_key_rejects_bad_hex :: bool where
  "parse_key_rejects_bad_hex \<longleftrightarrow>
     parse_key ''nothex'' = None \<and> parse_key (concat (replicate 32 ''00'')) \<noteq> None"

subsection \<open>Collateral pointers\<close>

definition BONDED_COIN :: "u8 list" where
  "BONDED_COIN = replicate 32 0x5c"

definition test_service :: dht_service where
  "test_service = service_new (replicate 32 9) [candidate_direct ''h'' 9444] default_config"

definition test_content :: "u8 \<Rightarrow> content_id" where
  "test_content b = content_store (replicate 32 b)"

definition local_record :: "externs \<Rightarrow> u64 \<Rightarrow> dht_service \<Rightarrow> content_id \<Rightarrow> provider_record option" where
  "local_record E now s content =
     find (\<lambda>r. provider_peer_id r = local_id_hex E s)
       (ps_get (authoritative s) (to_hex (content_to_key E content)) now)"

text \<open>\<open>unwrap\<close>: the state after a method that returned \<open>Ok\<close>.\<close>

definition unwrapped :: "(('e + 'a) \<times> 's) option \<Rightarrow> 's option" where
  "unwrapped m = (case m of Some (Inr _, s) \<Rightarrow> Some s | _ \<Rightarrow> None)"

definition announcing_with_collateral_publishes_the_pointer_and_without_omits_it ::
  "externs \<Rightarrow> 't network \<Rightarrow> u64 \<Rightarrow> bool" where
  "announcing_with_collateral_publishes_the_pointer_and_without_omits_it E net now \<longleftrightarrow>
     (let bonded = test_content 1; bare = test_content 2
      in case do { s \<leftarrow> unwrapped (announce_provider_with_collateral E test_service net (\<lambda>_. now) bonded (Some BONDED_COIN));
                   s \<leftarrow> unwrapped (announce_provider E s net (\<lambda>_. now) bare);
                   r1 \<leftarrow> local_record E now s bonded;
                   r2 \<leftarrow> local_record E now s bare;
                   Some (r1, r2) } of
           None \<Rightarrow> False
         | Some (r1, r2) \<Rightarrow>
             unverified_mirror_coin_id_bytes r1 = Some BONDED_COIN \<and> unverified_mirror_coin_id r2 = None)"

definition republish_re_attaches_each_keys_own_pointer_and_only_its_own ::
  "externs \<Rightarrow> 't network \<Rightarrow> u64 \<Rightarrow> bool" where
  "republish_re_attaches_each_keys_own_pointer_and_only_its_own E net now \<longleftrightarrow>
     (let bonded = test_content 1; bare = test_content 2
      in case do { s \<leftarrow> unwrapped (announce_provider_with_collateral E test_service net (\<lambda>_. now) bonded (Some BONDED_COIN));
                   s \<leftarrow> unwrapped (announce_provider E s net (\<lambda>_. now) bare);
                   (n, s) \<leftarrow> republish E s (\<lambda>_. net) (\<lambda>_. now);
                   r1 \<leftarrow> local_record E now s bonded;
                   r2 \<leftarrow> local_record E now s bare;
                   Some (n, r1, r2) } of
           None \<Rightarrow> False
         | Some (n, r1, r2) \<Rightarrow>
             n = 2 \<and> unverified_mirror_coin_id_bytes r1 = Some BONDED_COIN \<and> unverified_mirror_coin_id r2 = None)"

definition re_announcing_replaces_the_pointer :: "externs \<Rightarrow> 't network \<Rightarrow> u64 \<Rightarrow> bool" where
  "re_announcing_replaces_the_pointer E net now \<longleftrightarrow>
     (let content = test_content 1; next_epoch_coin = replicate 32 0xE7
      in case do { s \<leftarrow> unwrapped (announce_provider_with_collateral E test_service net (\<lambda>_. now) content (Some BONDED_COIN));
                   s \<leftarrow> unwrapped (announce_provider_with_collateral E s net (\<lambda>_. now) content (Some next_epoch_coin));
                   (_, s) \<leftarrow> republish E s (\<lambda>_. net) (\<lambda>_. now);
                   local_record E now s content } of
           None \<Rightarrow> False
         | Some r \<Rightarrow> unverified_mirror_coin_id_bytes r = Some next_epoch_coin)"

definition withdrawing_forgets_the_pointer :: "externs \<Rightarrow> 't network \<Rightarrow> u64 \<Rightarrow> bool" where
  "withdrawing_forgets_the_pointer E net now \<longleftrightarrow>
     (let content = test_content 1
      in case do { s \<leftarrow> unwrapped (announce_provider_with_collateral E test_service net (\<lambda>_. now) content (Some BONDED_COIN));
                   let s = snd (withdraw_provider E s content);
                   s \<leftarrow> unwrapped (announce_provider E s net (\<lambda>_. now) content);
                   (_, s) \<leftarrow> republish E s (\<lambda>_. net) (\<lambda>_. now);
                   local_record E now s content } of
           None \<Rightarrow> False
         | Some r \<Rightarrow> unverified_mirror_coin_id r = None)"

text \<open>The ingested record is built field by field, so no constructor or decoder has bounded it. The cases
  run on one service: the pointer given, and the pointer expected in the store.\<close>

definition ingested_record :: "externs \<Rightarrow> u64 \<Rightarrow> u8 \<Rightarrow> string \<Rightarrow> provider_record" where
  "ingested_record E now i pointer =
     \<lparr>content_key = to_hex (content_to_key E (test_content (i + 40))),
      provider_peer_id = pid_to_hex E (replicate 32 (i + 70)),
      pr_addresses = [candidate_direct ''holder.example'' 9444], expires_at = now + 60,
      unverified_mirror_coin_id = Some pointer\<rparr>"

fun ingest_cases :: "externs \<Rightarrow> u64 \<Rightarrow> dht_service \<Rightarrow> (u8 \<times> string \<times> string option) list \<Rightarrow> bool" where
  "ingest_cases E now s [] \<longleftrightarrow> True"
| "ingest_cases E now s ((i, pointer, expected) # cases) \<longleftrightarrow>
     (let record = ingested_record E now i pointer
      in case ingest_verified_provider E s now record of
           None \<Rightarrow> False
         | Some (outcome, s) \<Rightarrow>
             outcome = Accepted
             \<and> (case find (\<lambda>r. provider_peer_id r = provider_peer_id record)
                       (ps_get (authoritative s) (content_key record) now) of
                  None \<Rightarrow> False
                | Some r \<Rightarrow> unverified_mirror_coin_id r = expected)
             \<and> ingest_cases E now s cases)"

definition ingesting_a_record_built_by_literal_normalizes_its_pointer :: "externs \<Rightarrow> u64 \<Rightarrow> bool" where
  "ingesting_a_record_built_by_literal_normalizes_its_pointer E now \<longleftrightarrow>
     (let valid = to_hex64 BONDED_COIN
      in ingest_cases E now test_service
           [(0, replicate MAX_FRAMED_BODY (CHR ''a''), None),
            (1, replicate 64 (CHR ''z''), None),
            (2, valid, Some valid)])"

subsection \<open>Snapshots of a service\<close>

definition announce_seed :: "externs \<Rightarrow> u64 \<Rightarrow> dht_service \<Rightarrow> u8 \<times> u8 \<Rightarrow> dht_service option" where
  "announce_seed E now s = (\<lambda>(content_seed, provider_seed).
     map_option snd (ingest_verified_provider E s now
       (provider_record_new E (content_to_key E (test_content content_seed)) (replicate 32 provider_seed)
          [candidate_direct ''h'' 9444] (now + 3600))))"

fun announce_seeds :: "externs \<Rightarrow> u64 \<Rightarrow> (u8 \<times> u8) list \<Rightarrow> dht_service \<Rightarrow> dht_service option" where
  "announce_seeds E now [] s = Some s"
| "announce_seeds E now (p # ps) s = do { s \<leftarrow> announce_seed E now s p; announce_seeds E now ps s }"

definition provider_snapshot_reports_counts_and_no_identities :: "externs \<Rightarrow> u64 \<Rightarrow> bool" where
  "provider_snapshot_reports_counts_and_no_identities E now \<longleftrightarrow>
     (case announce_seeds E now [(1, 7)] test_service of
        None \<Rightarrow> False
      | Some s \<Rightarrow>
          (let snap = service_snapshot s now 100
           in sn_total_keys snap = 1 \<and> se_providers (sn_entries snap ! 0) = 1
            \<and> \<not> str_contains (pid_to_hex E (replicate 32 7)) (snapshot_debug snap)))"

definition provider_snapshot_honours_the_bound :: "externs \<Rightarrow> u64 \<Rightarrow> bool" where
  "provider_snapshot_honours_the_bound E now \<longleftrightarrow>
     (case announce_seeds E now (map (\<lambda>i. (i, 100 + i)) [0, 1, 2, 3, 4, 5]) test_service of
        None \<Rightarrow> False
      | Some s \<Rightarrow>
          (let snap = service_snapshot s now 2
           in length (sn_entries snap) = 2 \<and> sn_truncated snap \<and> sn_total_keys snap = 6))"

subsection \<open>The bound on a host\<close>

definition host_service :: dht_service where
  "host_service = service_new (replicate 32 9) [candidate_direct ''local.example'' 9444] default_config"

definition HONEST_HOST :: string where "HONEST_HOST = ''holder.example''"

definition hostile_host :: string where
  "hostile_host = replicate MAX_FRAMED_BODY (CHR ''a'')"

text \<open>The record of the announce, and the announce followed by the question for its key, with the state
  after both.\<close>

definition host_record :: "externs \<Rightarrow> u64 \<Rightarrow> u8 \<Rightarrow> u8 \<Rightarrow> string \<Rightarrow> provider_record" where
  "host_record E now content_seed provider_seed host =
     \<lparr>content_key = to_hex (content_to_key E (test_content content_seed)),
      provider_peer_id = pid_to_hex E (replicate 32 provider_seed),
      pr_addresses = [candidate_direct host 9444], expires_at = now + 3600, unverified_mirror_coin_id = None\<rparr>"

definition announce_then_answer ::
  "externs \<Rightarrow> u64 \<Rightarrow> dht_service \<Rightarrow> u8 \<Rightarrow> u8 \<Rightarrow> string \<Rightarrow> (dht_response \<times> dht_service) option" where
  "announce_then_answer E now s content_seed provider_seed host =
     (let record = host_record E now content_seed provider_seed host
      in case handle_request E s (AddProvider record) now of
           Some (AddProviderOk, s) \<Rightarrow> handle_request E s (FindProviders (content_key record)) now
         | _ \<Rightarrow> None)"

fun stored_hosts :: "dht_response \<Rightarrow> string list option" where
  "stored_hosts (Providers ps closer) = Some (concat (map (\<lambda>r. map ca_host (pr_addresses r)) ps))"
| "stored_hosts _ = None"

definition an_oversized_host_does_not_survive_admission_and_an_honest_one_does :: "externs \<Rightarrow> u64 \<Rightarrow> bool" where
  "an_oversized_host_does_not_survive_admission_and_an_honest_one_does E now \<longleftrightarrow>
     (case do { (hostile, s) \<leftarrow> announce_then_answer E now host_service 1 0x41 hostile_host;
                hosts1 \<leftarrow> stored_hosts hostile;
                (honest, s) \<leftarrow> announce_then_answer E now s 2 0x42 HONEST_HOST;
                hosts2 \<leftarrow> stored_hosts honest;
                Some (hosts1, hosts2) } of
        None \<Rightarrow> False
      | Some (hosts1, hosts2) \<Rightarrow>
          list_all (\<lambda>h. length h \<le> MAX_HOST_LEN) hosts1 \<and> hosts2 = [HONEST_HOST])"

definition the_discovery_cache_normalizes_its_own_pointer :: "externs \<Rightarrow> u64 \<Rightarrow> bool" where
  "the_discovery_cache_normalizes_its_own_pointer E now \<longleftrightarrow>
     (let content = test_content 0xC1; key_hex = to_hex (content_to_key E content);
          s = cache_discovered E host_service key_hex now
                [\<lparr>content_key = key_hex, provider_peer_id = pid_to_hex E (replicate 32 0x71),
                  pr_addresses = [candidate_direct HONEST_HOST 9444], expires_at = now + 60,
                  unverified_mirror_coin_id = Some hostile_host\<rparr>];
          cached = cached_providers E s now content
      in length cached = 1 \<and> unverified_mirror_coin_id (cached ! 0) = None)"

definition crowded_addresses :: "candidate_addr list" where
  "crowded_addresses =
     [candidate_direct hostile_host 9444, candidate_direct HONEST_HOST 9444]
     @ map (\<lambda>i. candidate_direct (''filler-'' @ nat_to_string 10 i @ ''.example'') 9444) [0..<MAX_ADDRESSES_PER_RECORD + 1]"

definition the_discovery_cache_caps_its_own_addresses :: "externs \<Rightarrow> u64 \<Rightarrow> bool" where
  "the_discovery_cache_caps_its_own_addresses E now \<longleftrightarrow>
     (let content = test_content 0xC2; key_hex = to_hex (content_to_key E content);
          s = cache_discovered E host_service key_hex now
                [\<lparr>content_key = key_hex, provider_peer_id = pid_to_hex E (replicate 32 0x72),
                  pr_addresses = crowded_addresses, expires_at = now + 60, unverified_mirror_coin_id = None\<rparr>];
          cached = cached_providers E s now content;
          cached_hosts = hosts (pr_addresses (cached ! 0))
      in length cached = 1 \<and> list_all (\<lambda>h. length h \<le> MAX_HOST_LEN) cached_hosts
       \<and> HONEST_HOST \<in> set cached_hosts \<and> length (pr_addresses (cached ! 0)) = MAX_ADDRESSES_PER_RECORD)"

subsection \<open>\<open>transport.rs\<close>\<close>

definition swarm_contact :: "externs \<Rightarrow> u8 \<Rightarrow> contact" where
  "swarm_contact E b = contact_new E (replicate 32 b) []"

definition dispatches_to_registered_handler :: "externs \<Rightarrow> 'j wire_codec \<Rightarrow> ('t, 'j) safe_text \<Rightarrow> bool" where
  "dispatches_to_registered_handler E C T \<longleftrightarrow>
     (let c = swarm_contact E 1;
          sw = swarm_register swarm_new (ct_peer_id c)
                 (\<lambda>req. case req of Ping nonce \<Rightarrow> Pong nonce | _ \<Rightarrow> ErrorResponse 1 ''unexpected'')
      in memory_rpc T C sw (swarm_contact E 0) c (Ping 42) = Some (Inr (Pong 42)))"

definition unrouted_peer_errors :: "externs \<Rightarrow> 'j wire_codec \<Rightarrow> ('t, 'j) safe_text \<Rightarrow> bool" where
  "unrouted_peer_errors E C T \<longleftrightarrow>
     (case memory_rpc T C swarm_new (swarm_contact E 0) (swarm_contact E 9) (Ping 1) of
        Some (Inl (Transport _)) \<Rightarrow> True | _ \<Rightarrow> False)"

definition t_err :: "externs \<Rightarrow> 'j wire_codec \<Rightarrow> ('t, 'j) safe_text \<Rightarrow> swarm \<Rightarrow> contact \<Rightarrow> bool" where
  "t_err E C T sw c \<longleftrightarrow>
     (case memory_rpc T C sw (swarm_contact E 0) c (Ping 0) of Some (Inl _) \<Rightarrow> True | _ \<Rightarrow> False)"

definition offline_peer_errors :: "externs \<Rightarrow> 'j wire_codec \<Rightarrow> ('t, 'j) safe_text \<Rightarrow> bool" where
  "offline_peer_errors E C T \<longleftrightarrow>
     (let c = swarm_contact E 2; sw = swarm_register swarm_new (ct_peer_id c) (\<lambda>_. AddProviderOk)
      in t_err E C T (swarm_set_offline sw (ct_peer_id c)) c)"

subsection \<open>The model passes\<close>

lemma closest_new: "rt_closest E (rt_new p k) target = []"
proof -
  have "rt_contacts (rt_new p k) = []" by (simp add: rt_contacts_def rt_new_buckets kbucket_new_def)
  then show ?thesis by (simp add: rt_closest_def keyed_contacts_def List.map_filter_simps)
qed

definition store_key :: "u8 \<Rightarrow> key" where
  "store_key b = 1 # replicate 31 b"

lemma test_content_key: "content_to_key sample_externs (test_content b) = store_key b"
  by (simp add: content_to_key_def key_from_bytes_def test_content_def content_store_def tag_defs store_key_def)

lemma store_key_facts [simp]:
  "length (store_key b) = 32" "to_hex (store_key b) = to_hex (store_key c) \<longleftrightarrow> b = c"
  using same_id[of "store_key b" "store_key c"] by (simp_all add: store_key_def)

lemma later: "now < 2 ^ 62 \<Longrightarrow> 0 < t \<Longrightarrow> t < 2 ^ 62 \<Longrightarrow> \<not> saturating_add now t \<le> now"
  unfolding word_le_nat_alt unat_saturating_add word_less_nat_alt by simp

lemma not_yet:
  assumes "now < 2 ^ 62"
  shows "\<not> saturating_add now 7200 \<le> now" "\<not> saturating_add now 900 \<le> now"
    "\<not> now + 60 \<le> now" "\<not> now + 3600 \<le> now"
proof -
  have "saturating_add now 60 = now + 60" "saturating_add now 3600 = now + 3600"
    using assms by (simp_all add: saturating_add_def word_less_nat_alt)
  with later[OF assms, of 60] later[OF assms, of 3600]
  show "\<not> saturating_add now 7200 \<le> now" "\<not> saturating_add now 900 \<le> now"
    "\<not> now + 60 \<le> now" "\<not> now + 3600 \<le> now"
    using later[OF assms] by simp_all
qed

lemma announce_alone:
  assumes "routing s = rt_new p k"
  shows "announce_provider_with_collateral E s net clock content coin =
    (let target = content_to_key E content;
         record0 = build_local_record E s target (clock 0);
         record = (case coin of Some coin_id \<Rightarrow> with_unverified_mirror_coin_id record0 coin_id | None \<Rightarrow> record0)
     in Some (Inr 0, s\<lparr>authoritative := ps_mark_announced_with_collateral
          (snd (ps_put_at (authoritative s) record (clock 1))) (to_hex target) (unverified_mirror_coin_id record)\<rparr>))"
  using assms by (simp add: announce_provider_unfold seed_contacts_def closest_new Let_def ps_put_def)

lemma republish_key_alone:
  assumes "routing s = rt_new p k" "length key = 32"
  shows "republish_key E s net now_build now_put (to_hex key) =
    Some (0, s\<lparr>authoritative := snd (ps_put_at (authoritative s) ((build_local_record E s key now_build)
      \<lparr>unverified_mirror_coin_id := ps_announced_collateral (authoritative s) (to_hex key)\<rparr>) now_put)\<rparr>)"
  using assms by (simp add: republish_key_def seed_contacts_def closest_new Let_def ps_put_def hex64_to_hex key_from_bytes_def)

lemma bonded_pointer: "hex64_to_bytes (to_hex (replicate 32 b)) = Some (replicate 32 b)"
  by (simp add: hex64_to_hex)

lemmas service_steps = test_service_def service_new_def announce_alone announce_provider_def unwrapped_def
  test_content_key build_local_record_def provider_record_new_def ps_mark_announced_with_collateral_def
  store_steps config_defs with_unverified_mirror_coin_id_def local_record_def local_id_hex_def
  unverified_mirror_coin_id_bytes_def to_hex64_eq_to_hex bonded_pointer BONDED_COIN_def

lemmas republish_steps = republish_def ps_local_announcements_def republish_key_alone ps_announced_collateral_def

lemma announcing_with_collateral_publishes_the_pointer_and_without_omits_it_passes:
  "now < 2 ^ 62 \<Longrightarrow> announcing_with_collateral_publishes_the_pointer_and_without_omits_it sample_externs net now"
  using not_yet[of now]
  by (simp add: announcing_with_collateral_publishes_the_pointer_and_without_omits_it_def service_steps)

lemma re_announcing_replaces_the_pointer_passes:
  "now < 2 ^ 62 \<Longrightarrow> re_announcing_replaces_the_pointer sample_externs net now"
  using not_yet[of now]
  by (simp add: re_announcing_replaces_the_pointer_def service_steps republish_steps)

lemma republish_re_attaches_each_keys_own_pointer_and_only_its_own_passes:
  "now < 2 ^ 62 \<Longrightarrow> republish_re_attaches_each_keys_own_pointer_and_only_its_own sample_externs net now"
  using not_yet[of now]
  by (simp add: republish_re_attaches_each_keys_own_pointer_and_only_its_own_def service_steps republish_steps)

lemma withdrawing_forgets_the_pointer_passes:
  "now < 2 ^ 62 \<Longrightarrow> withdrawing_forgets_the_pointer sample_externs net now"
  using not_yet[of now]
  by (simp add: withdrawing_forgets_the_pointer_def service_steps republish_steps withdraw_provider_def ps_unmark_announced_def)

lemma hex64_round_trip_passes: hex64_round_trip
  by (simp add: hex64_round_trip_def key_from_bytes_def hex64_to_hex) (simp add: hex64_to_bytes_def replicate_step to_digit16_def)

lemma parse_key_rejects_bad_hex_passes: parse_key_rejects_bad_hex
proof -
  have "concat (replicate 32 ''00'') = to_hex (replicate 32 0)" by (simp add: to_hex_concat hex_pair_def)
  then show ?thesis
    by (simp add: parse_key_rejects_bad_hex_def parse_key_def hex64_to_hex) (simp add: hex64_to_bytes_def)
qed

lemma unrouted_peer_errors_passes: "unrouted_peer_errors E C T"
  by (simp add: unrouted_peer_errors_def memory_rpc_def swarm_new_def transport_from_untrusted_def)

lemma offline_peer_errors_passes: "offline_peer_errors E C T"
  by (simp add: offline_peer_errors_def t_err_def memory_rpc_def swarm_register_def swarm_set_offline_def swarm_new_def)

lemma dispatches_to_registered_handler_passes:
  assumes "framed_message (request_to_vec C) (request_from_slice C) (Ping 42)"
    "framed_message (response_to_vec C) (response_from_slice C) (Pong 42)"
  shows "dispatches_to_registered_handler E C T"
proof -
  from framed_round_trip[OF assms(1), of T] obtain f1 where f1:
    "encode_framed (request_to_vec C) (Ping 42) = Some f1"
    "decode_framed T (request_from_slice C) f1 = (Inr (Ping 42), [])" .
  from framed_round_trip[OF assms(2), of T] obtain f2 where f2:
    "encode_framed (response_to_vec C) (Pong 42) = Some f2"
    "decode_framed T (response_from_slice C) f2 = (Inr (Pong 42), [])" .
  from f1 f2 show ?thesis
    by (simp add: dispatches_to_registered_handler_def memory_rpc_def swarm_register_def swarm_new_def request_encode_def
        request_decode_def response_encode_def response_decode_def)
qed

subsection \<open>Admission\<close>

lemma test_services_ready: "ready sample_externs test_service" "ready sample_externs host_service"
proof -
  have "config_sane default_config" by (simp add: config_sane_def default_config_def usize_limit_def shortlist_cap_def)
  then show "ready sample_externs test_service" "ready sample_externs host_service"
    using service_new_inv[of "replicate 32 9" sample_externs _ _ default_config]
    by (auto simp: test_service_def host_service_def service_new_def ready_def sample_externs_ok svc_inv_def routing_inv_def)
qed

text \<open>An admission returns, and changes of the stores only the authoritative one, by one \<open>put_at\<close>.\<close>

lemma admit_runs:
  assumes "ready E s"
    "ps_put_at (authoritative s) (sanitized E r (saturating_add now (provider_ttl_secs (config s)))) now = (outcome, store)"
  shows "\<exists>t. admit_verified_record E s now r = Some (outcome, s\<lparr>authoritative := store, routing := t\<rparr>)
    \<and> ready E (s\<lparr>authoritative := store, routing := t\<rparr>)"
proof -
  have same: "s\<lparr>authoritative := store, routing := routing s\<rparr> = s\<lparr>authoritative := store\<rparr>" by simp
  show ?thesis
  proof (cases "outcome = Accepted \<and> record_peer_id E r \<noteq> None")
    case True
    then obtain pid where "record_peer_id E r = Some pid" "outcome = Accepted" by blast
    moreover obtain o' t where "rt_insert E (routing s) (contact_new E pid (pr_addresses
        (sanitized E r (saturating_add now (provider_ttl_secs (config s)))))) = Some (o', t)" "ready E (s\<lparr>routing := t\<rparr>)"
      using rt_insert_returns[OF assms(1)] by (fastforce simp: returns_def)
    ultimately show ?thesis
      unfolding admit_eq using assms by (auto simp: Let_def record_peer_id_def sanitized_def ready_def)
  next
    case False
    then have "admit_verified_record E s now r = Some (outcome, s\<lparr>authoritative := store\<rparr>)"
      unfolding admit_eq using assms(2) by (auto simp: Let_def record_peer_id_def sanitized_def)
    with assms(1) show ?thesis by (intro exI[of _ "routing s"]) (simp add: same)
  qed
qed

text \<open>A record for a key the store does not have.\<close>

lemma fresh_put:
  assumes "distinct (map fst (by_key st))" "map_of (by_key st) (content_key r) = None"
    "ps_len st < max_total_records (limits st)"
  shows "ps_put_at st r now = (Accepted, ps_admit st r)" "distinct (map fst (by_key (ps_admit st r)))"
    "ps_len (ps_admit st r) = Suc (ps_len st)"
    "map_of (by_key (ps_admit st r)) ck = None \<longleftrightarrow> ck \<noteq> content_key r \<and> map_of (by_key st) ck = None"
    "\<not> is_expired r now \<Longrightarrow> ps_get (ps_admit st r) (content_key r) now = [r]"
proof -
  have "ps_lookup st (content_key r) (provider_peer_id r) = None" using assms(2) by (simp add: ps_lookup_def)
  with assms show "ps_put_at st r now = (Accepted, ps_admit st r)" "ps_len (ps_admit st r) = Suc (ps_len st)"
    by (simp_all add: ps_put_at_def len_admit)
qed (use assms in \<open>auto simp: ps_admit_def ps_get_def Let_def distinct_keys_update map_of_update split: option.split\<close>)

lemma announce_seeds_run:
  assumes "ready sample_externs s" "config s = default_config"
  shows "\<exists>s'. announce_seeds sample_externs now ps s = Some s' \<and> authoritative s' = snd (puts (\<lambda>_. now)
    (map (\<lambda>(c, p). sanitized sample_externs (provider_record_new sample_externs (store_key c) (replicate 32 p)
        [candidate_direct ''h'' 9444] (now + 3600)) (saturating_add now 7200)) ps) (authoritative s))"
  using assms
proof (induction ps arbitrary: s)
  case (Cons p ps)
  obtain c pid where p: "p = (c, pid)" by fastforce
  let ?r = "provider_record_new sample_externs (store_key c) (replicate 32 pid) [candidate_direct ''h'' 9444] (now + 3600)"
  obtain outcome store where put: "ps_put_at (authoritative s)
      (sanitized sample_externs ?r (saturating_add now (provider_ttl_secs (config s)))) now = (outcome, store)" by fastforce
  from admit_runs[OF Cons.prems(1) put] obtain t where t:
    "admit_verified_record sample_externs s now ?r = Some (outcome, s\<lparr>authoritative := store, routing := t\<rparr>)"
    "ready sample_externs (s\<lparr>authoritative := store, routing := t\<rparr>)" by blast
  have "provider_ttl_secs default_config = 7200" by (simp add: config_defs)
  with Cons.IH[OF t(2)] Cons.prems(2) t(1) put p show ?case
    by (auto simp: announce_seed_def ingest_verified_provider_def test_content_key ps_put_def split_def Let_def)
qed simp

lemma ingest_fresh:
  assumes "ready sample_externs s" "config s = default_config" "distinct (map fst (by_key (authoritative s)))"
    "ps_len (authoritative s) + length cases \<le> 100000" "limits (authoritative s) = default_limits"
    "distinct (map fst cases)" "\<And>c. c \<in> set cases \<Longrightarrow> map_of (by_key (authoritative s)) (to_hex (store_key (fst c + 40))) = None"
    "\<And>i p e. (i, p, e) \<in> set cases \<Longrightarrow> normalize_mirror_coin_id (Some p) = e" "now < 2 ^ 62"
  shows "ingest_cases sample_externs now s cases"
  using assms
proof (induction cases arbitrary: s)
  case (Cons c cases)
  obtain i p e where c: "c = (i, p, e)" by (cases c) auto
  let ?r = "ingested_record sample_externs now i p"
  let ?q = "sanitized sample_externs ?r (saturating_add now (provider_ttl_secs (config s)))"
  have ttl: "provider_ttl_secs default_config = 7200" by (simp add: config_defs)
  have q: "content_key ?q = to_hex (store_key (i + 40))" "provider_peer_id ?q = provider_peer_id ?r"
    "content_key ?r = content_key ?q" "unverified_mirror_coin_id ?q = e" "\<not> is_expired ?q now"
    using Cons.prems(8)[of i p e] not_yet[OF Cons.prems(9)] Cons.prems(2) c
    by (simp_all add: sanitized_def ingested_record_def test_content_key is_expired_def ttl min_le_iff_disj)
  have room: "map_of (by_key (authoritative s)) (content_key ?q) = None"
    "ps_len (authoritative s) < max_total_records (limits (authoritative s))"
    using Cons.prems(4,5) Cons.prems(7)[of c] c q(1) by (simp_all add: default_limits_def)
  note put = fresh_put[OF Cons.prems(3) room]
  from admit_runs[OF Cons.prems(1) put(1)] obtain t where t:
    "admit_verified_record sample_externs s now ?r
      = Some (Accepted, s\<lparr>authoritative := ps_admit (authoritative s) ?q, routing := t\<rparr>)"
    "ready sample_externs (s\<lparr>authoritative := ps_admit (authoritative s) ?q, routing := t\<rparr>)" by blast
  have "ingest_cases sample_externs now (s\<lparr>authoritative := ps_admit (authoritative s) ?q, routing := t\<rparr>) cases"
  proof (rule Cons.IH)
    fix d assume d: "d \<in> set cases"
    then have "fst d \<noteq> i" using Cons.prems(6) c by force
    with d Cons.prems(7) put(4) q(1)
    show "map_of (by_key (authoritative (s\<lparr>authoritative := ps_admit (authoritative s) ?q, routing := t\<rparr>)))
        (to_hex (store_key (fst d + 40))) = None" by simp
  next
    fix j p' e' assume "(j, p', e') \<in> set cases"
    then show "normalize_mirror_coin_id (Some p') = e'" using Cons.prems(8)[of j p' e'] by simp
  qed (use t(2) Cons.prems(2,4,5,6,9) put(2,3) c in simp_all)
  with t(1) put(5)[OF q(5)] q c show ?case by (simp add: ingest_verified_provider_def)
qed simp

lemma canonical_pointer: "normalize_mirror_coin_id (Some (to_hex (replicate 32 b))) = Some (to_hex (replicate 32 b))"
  using canonical_to_hex[of "replicate 32 b"]
  by (simp add: normalize_mirror_coin_id_def canonical_lowercase hex64_to_hex)

lemma ingesting_a_record_built_by_literal_normalizes_its_pointer_passes:
  assumes "now < 2 ^ 62"
  shows "ingesting_a_record_built_by_literal_normalizes_its_pointer sample_externs now"
proof -
  have long: "normalize_mirror_coin_id (Some (replicate MAX_FRAMED_BODY (CHR ''a''))) = None"
    by (simp add: normalize_wrong_length MAX_FRAMED_BODY_def)
  show ?thesis
    unfolding ingesting_a_record_built_by_literal_normalizes_its_pointer_def Let_def
    by (rule ingest_fresh[OF test_services_ready(1)])
      (use assms long non_hex_pointer canonical_pointer in \<open>auto simp: test_service_def service_new_def ps_with_limits_def
         default_config_def default_limits_def ps_len_def BONDED_COIN_def to_hex64_eq_to_hex\<close>)
qed

lemma provider_snapshot_honours_the_bound_passes:
  assumes "now < 2 ^ 62"
  shows "provider_snapshot_honours_the_bound sample_externs now"
proof -
  have "config test_service = default_config" by (simp add: test_service_def service_new_def)
  from announce_seeds_run[OF test_services_ready(1) this, of now "map (\<lambda>i. (i, 100 + i)) [0, 1, 2, 3, 4, 5]"]
  show ?thesis
    using not_yet[OF assms]
    by (auto simp: provider_snapshot_honours_the_bound_def service_snapshot_def ps_snapshot_def test_service_def
        service_new_def store_steps sanitized_def provider_record_new_def List.map_filter_def min_le_iff_disj config_defs)
qed

lemma provider_snapshot_reports_counts_and_no_identities_passes:
  assumes "now < 2 ^ 62"
  shows "provider_snapshot_reports_counts_and_no_identities sample_externs now"
proof -
  have "config test_service = default_config" by (simp add: test_service_def service_new_def)
  from announce_seeds_run[OF test_services_ready(1) this, of now "[(1, 7)]"] obtain s where
    s: "announce_seeds sample_externs now [(1, 7)] test_service = Some s"
    "service_snapshot s now 100 = \<lparr>sn_entries = [\<lparr>se_content_key = to_hex (store_key 1), se_providers = 1\<rparr>],
       sn_total_keys = 1, sn_truncated = False\<rparr>"
    using not_yet[OF assms]
    by (auto simp: service_snapshot_def ps_snapshot_def test_service_def
        service_new_def store_steps sanitized_def provider_record_new_def List.map_filter_def min_le_iff_disj config_defs)
  have "store_key 1 = replicate 32 1" by (simp add: store_key_def replicate_step[of 32])
  then have "to_hex (store_key 1) = concat (replicate 32 ''01'')" by (simp add: to_hex_concat hex_pair_def)
  then have "snapshot_debug (service_snapshot s now 100) = ''ProviderSnapshot { entries: [ProviderSnapshotEntry { content_key: \"''
      @ concat (replicate 32 ''01'') @ ''\", providers: 1 }], total_keys: 1, truncated: false }''"
    by (simp add: s(2) snapshot_debug_def snapshot_entry_debug_def nat_to_string.simps digit_char_nth)
  then have no: "\<not> str_contains ''07'' (snapshot_debug (service_snapshot s now 100))"
    by (simp add: replicate_step)
  have "to_hex (replicate 32 7) = ''07'' @ to_hex (replicate 31 7)"
    by (simp add: to_hex_concat hex_pair_def replicate_step[of 32])
  with no str_contains_shorter have "\<not> str_contains (to_hex (replicate 32 7)) (snapshot_debug (service_snapshot s now 100))"
    by metis
  with s show ?thesis by (simp add: provider_snapshot_reports_counts_and_no_identities_def)
qed

text \<open>An announce through the public entry, for a key the store does not have, and the answer for it.\<close>

lemma answer_fresh:
  assumes "ready sample_externs s" "config s = default_config" "distinct (map fst (by_key (authoritative s)))"
    "map_of (by_key (authoritative s)) (to_hex (store_key c)) = None"
    "ps_len (authoritative s) < max_total_records (limits (authoritative s))" "now < 2 ^ 62"
    "q = sanitized sample_externs (host_record sample_externs now c p host) (saturating_add now 7200)"
  shows "\<exists>t closer. announce_then_answer sample_externs now s c p host
      = Some (Providers [q] closer, s\<lparr>authoritative := ps_admit (authoritative s) q, routing := t\<rparr>)
    \<and> ready sample_externs (s\<lparr>authoritative := ps_admit (authoritative s) q, routing := t\<rparr>)"
proof -
  let ?r = "host_record sample_externs now c p host"
  have ttl: "provider_ttl_secs (config s) = 7200" using assms(2) by (simp add: config_defs)
  have q: "content_key q = to_hex (store_key c)" "content_key ?r = to_hex (store_key c)" "\<not> is_expired q now"
    using not_yet[OF assms(6)]
    by (simp_all add: assms(7) sanitized_def host_record_def test_content_key is_expired_def min_le_iff_disj)
  have "map_of (by_key (authoritative s)) (content_key q) = None" using assms(4) q(1) by simp
  note put = fresh_put[OF assms(3) this assms(5)]
  from put(1) have "ps_put_at (authoritative s) (sanitized sample_externs ?r (saturating_add now
      (provider_ttl_secs (config s)))) now = (Accepted, ps_admit (authoritative s) q)" by (simp add: ttl assms(7))
  from admit_runs[OF assms(1) this] obtain t where t: "admit_verified_record sample_externs s now ?r
      = Some (Accepted, s\<lparr>authoritative := ps_admit (authoritative s) q, routing := t\<rparr>)"
    "ready sample_externs (s\<lparr>authoritative := ps_admit (authoritative s) q, routing := t\<rparr>)" by blast
  have "parse_key (to_hex (store_key c)) = Some (store_key c)" by (simp add: parse_key_def hex64_to_hex key_from_bytes_def)
  with t put(5)[OF q(3)] q(1,2) show ?thesis
    by (intro exI[of _ t]) (simp add: announce_then_answer_def handle_request_def handle_request_from_def learn_caller_def Let_def)
qed

lemma one_host: "sort_and_cap_addresses E [candidate_direct h p]
    = (if length h \<le> MAX_HOST_LEN then [candidate_direct h p] else [])"
  by (simp add: sort_and_cap_addresses_def sort_addresses_ipv6_first_def candidate_direct_def MAX_ADDRESSES_PER_RECORD_def)

lemma host_lengths: "length hostile_host > MAX_HOST_LEN" "length HONEST_HOST \<le> MAX_HOST_LEN"
  by (simp_all add: hostile_host_def HONEST_HOST_def MAX_FRAMED_BODY_def MAX_HOST_LEN_def)

lemma an_oversized_host_does_not_survive_admission_and_an_honest_one_does_passes:
  assumes "now < 2 ^ 62"
  shows "an_oversized_host_does_not_survive_admission_and_an_honest_one_does sample_externs now"
proof -
  define q1 where "q1 = sanitized sample_externs (host_record sample_externs now 1 0x41 hostile_host) (saturating_add now 7200)"
  define q2 where "q2 = sanitized sample_externs (host_record sample_externs now 2 0x42 HONEST_HOST) (saturating_add now 7200)"
  have empty: "authoritative host_service = ps_with_limits default_limits" "config host_service = default_config"
    by (simp_all add: host_service_def service_new_def config_defs)
  have room: "distinct (map fst (by_key (ps_with_limits default_limits)))" "map_of (by_key (ps_with_limits default_limits)) k = None"
    "ps_len (ps_with_limits default_limits) < 99999" "max_total_records (limits (ps_with_limits default_limits)) = 100000" for k
    by (simp_all add: ps_with_limits_def default_limits_def ps_len_def)
  have k1: "content_key q1 = to_hex (store_key 1)" by (simp add: q1_def sanitized_def host_record_def test_content_key)
  have hosts: "pr_addresses q1 = []" "pr_addresses q2 = [candidate_direct HONEST_HOST 9444]"
    using host_lengths by (simp_all add: q1_def q2_def sanitized_def host_record_def one_host)
  have "\<exists>t closer. announce_then_answer sample_externs now host_service 1 0x41 hostile_host
      = Some (Providers [q1] closer, host_service\<lparr>authoritative := ps_admit (authoritative host_service) q1, routing := t\<rparr>)
    \<and> ready sample_externs (host_service\<lparr>authoritative := ps_admit (authoritative host_service) q1, routing := t\<rparr>)"
    by (rule answer_fresh[OF test_services_ready(2) empty(2) _ _ _ assms q1_def]) (use room in \<open>simp_all add: empty\<close>)
  then obtain t closer where one: "announce_then_answer sample_externs now host_service 1 0x41 hostile_host
      = Some (Providers [q1] closer, host_service\<lparr>authoritative := ps_admit (authoritative host_service) q1, routing := t\<rparr>)"
    "ready sample_externs (host_service\<lparr>authoritative := ps_admit (authoritative host_service) q1, routing := t\<rparr>)" by blast
  let ?s = "host_service\<lparr>authoritative := ps_admit (authoritative host_service) q1, routing := t\<rparr>"
  have fresh: "map_of (by_key (ps_with_limits default_limits)) (content_key q1) = None"
    "ps_len (ps_with_limits default_limits) < max_total_records (limits (ps_with_limits default_limits))"
    using room(2-4) by simp_all
  note put = fresh_put[OF room(1) fresh]
  have "\<exists>t' closer'. announce_then_answer sample_externs now ?s 2 0x42 HONEST_HOST
      = Some (Providers [q2] closer', ?s\<lparr>authoritative := ps_admit (authoritative ?s) q2, routing := t'\<rparr>)
    \<and> ready sample_externs (?s\<lparr>authoritative := ps_admit (authoritative ?s) q2, routing := t'\<rparr>)"
    by (rule answer_fresh[OF one(2) _ _ _ _ assms q2_def]) (use room put(2-4) k1 in \<open>simp_all add: empty\<close>)
  then obtain t' closer' where two: "announce_then_answer sample_externs now ?s 2 0x42 HONEST_HOST
      = Some (Providers [q2] closer', ?s\<lparr>authoritative := ps_admit (authoritative ?s) q2, routing := t'\<rparr>)" by blast
  show ?thesis
    by (simp add: an_oversized_host_does_not_survive_admission_and_an_honest_one_does_def one(1) two hosts candidate_direct_def)
qed

subsection \<open>The cache's own bounds\<close>

lemma the_discovery_cache_normalizes_its_own_pointer_passes:
  assumes "now < 2 ^ 62"
  shows "the_discovery_cache_normalizes_its_own_pointer sample_externs now"
proof -
  have "normalize_mirror_coin_id (Some hostile_host) = None"
    by (simp add: normalize_wrong_length hostile_host_def MAX_FRAMED_BODY_def)
  with not_yet[OF assms] show ?thesis
    by (simp add: the_discovery_cache_normalizes_its_own_pointer_def cache_discovered_def cacheable_def cached_providers_def
        host_service_def service_new_def service_steps min_le_iff_disj)
qed

lemma filler_hosts: "parse_ip_addr ''holder.example'' = None"
  "parse_ip_addr ''filler-0.example'' = None" "parse_ip_addr ''filler-1.example'' = None" "parse_ip_addr ''filler-2.example'' = None"
  "parse_ip_addr ''filler-3.example'' = None" "parse_ip_addr ''filler-4.example'' = None" "parse_ip_addr ''filler-5.example'' = None"
  "parse_ip_addr ''filler-6.example'' = None" "parse_ip_addr ''filler-7.example'' = None" "parse_ip_addr ''filler-8.example'' = None"
  by (simp_all add: parse_steps replicate_step)

lemma crowded_kept:
  "sort_and_cap_addresses sample_externs crowded_addresses = map (\<lambda>h. candidate_direct h 9444)
    [HONEST_HOST, ''filler-0.example'', ''filler-1.example'', ''filler-2.example'', ''filler-3.example'',
     ''filler-4.example'', ''filler-5.example'', ''filler-6.example'']"
proof -
  have eq: "crowded_addresses = candidate_direct hostile_host 9444 # map (\<lambda>h. candidate_direct h 9444)
    [HONEST_HOST, ''filler-0.example'', ''filler-1.example'', ''filler-2.example'', ''filler-3.example'',
     ''filler-4.example'', ''filler-5.example'', ''filler-6.example'', ''filler-7.example'', ''filler-8.example'']"
    by (simp add: crowded_addresses_def MAX_ADDRESSES_PER_RECORD_def upt_rec nat_to_string.simps digit_char_nth)
  show ?thesis
    using host_lengths unfolding eq by (simp add: order_steps HONEST_HOST_def filler_hosts)
qed

lemma the_discovery_cache_caps_its_own_addresses_passes:
  assumes "now < 2 ^ 62"
  shows "the_discovery_cache_caps_its_own_addresses sample_externs now"
  using not_yet[OF assms]
  by (simp add: the_discovery_cache_caps_its_own_addresses_def cache_discovered_def cacheable_def cached_providers_def
        host_service_def service_new_def service_steps min_le_iff_disj crowded_kept normalize_mirror_coin_id_def hosts_def
        candidate_direct_def HONEST_HOST_def MAX_HOST_LEN_def MAX_ADDRESSES_PER_RECORD_def)

end
