(* ===== verification/Spec2Isabelle.thy ===== *)
theory Spec2Isabelle
  imports Swarm_Example Search_Limits Wire_Messages Store_Refinement Memory_Swarm Wall_Clock Content_Id Dht_Config Dht_Error
    Lookup_Tests Service_Tests
begin

text \<open>
  A verification development for \<^verbatim>\<open>dig-dht\<close>, a Kademlia DHT with provider records: a node that
  holds content announces a record naming itself at the nodes nearest the content's key, and a node
  that wants the content walks towards that key and collects the records.

  \<^bold>\<open>The parts and their theories.\<close> Definitions carry the names of the Rust items they translate.
  \<^item> \<open>Dht_Prelude\<close>: machine integers, the list operations of \<^verbatim>\<open>std\<close> the code uses (\<open>position\<close>,
    \<open>Vec::remove\<close>, \<open>min_by_key\<close>, dedup by a seen set), association lists as hash maps, and three
    interfaces as locales: \<open>ranked_selection\<close> (sort by a key and keep the first n: used by the address
    cap, the routing table's answer, the snapshot), \<open>inductive_invariant\<close> (used by the service) and
    \<open>forward_simulation\<close> (used by the store's refinement).
  \<^item> \<open>Keyspace\<close>: \<^verbatim>\<open>src/key.rs\<close>. Keys, the XOR distance, the bucket index.
  \<^item> \<open>Hex_Codec\<close>: the three hex encoders and the one decoder of \<^verbatim>\<open>key.rs\<close>, \<^verbatim>\<open>content.rs\<close>, \<^verbatim>\<open>record.rs\<close>,
    \<^verbatim>\<open>service.rs\<close>, and the normalisation of the mirror-coin pointer; the locale \<open>hex_codec\<close>.
  \<^item> \<open>Ip_Literal\<close>: what \<^verbatim>\<open>std::net\<close> does when the code parses and prints an address.
  \<^item> \<open>Externals\<close>: the code of other crates, as the fields of a record that every definition using
    them takes as an argument.
  \<^item> \<open>Content_Id\<close>: \<^verbatim>\<open>src/content.rs\<close>. \<open>Provider_Record\<close>: \<^verbatim>\<open>src/record.rs\<close>. \<open>Routing_Table\<close>:
    \<^verbatim>\<open>src/routing.rs\<close>. \<open>Provider_Store\<close>, \<open>Provider_Store_Facts\<close>: \<^verbatim>\<open>src/provider_store.rs\<close>, its
    invariants, then its contracts. \<open>Store_Refinement\<close>: the store against its abstract specification, a
    set of records and a set of announced keys, by a simulation. \<open>Dht_Config\<close>, \<open>Dht_Error\<close>, \<open>Wire_Frame\<close>: \<^verbatim>\<open>src/config.rs\<close>,
    \<^verbatim>\<open>src/error.rs\<close>, the framing of \<^verbatim>\<open>src/wire.rs\<close>.
    \<open>Wire_Messages\<close>: the messages between the JSON text and the code, with the hooks that clean every
    received record and contact.
  \<^item> \<open>Iterative_Lookup\<close>, \<open>Lookup_Facts\<close>: \<^verbatim>\<open>src/lookup.rs\<close>, the loop with its invariant, then its contracts.
    \<open>Lookup_Convergence\<close>: what the first round asks. \<open>Greedy_Routing\<close>: a walk over peers that route
    greedily reaches the nearest peers of the network, and one that stops at providers finds one.
  \<^item> \<open>Dht_Service\<close>: \<^verbatim>\<open>src/service.rs\<close>, one definition per method. \<open>Service_Steps\<close>: its critical
    sections as a step relation, with the reachable states and their invariant. \<open>Service_Facts\<close>:
    every method is a sequence of those steps. \<open>Service_Properties\<close>: the contracts of the methods.
    \<open>Service_Totality\<close>: no method panics. \<open>Service_Contracts\<close>: announce, republish, retract and the
    keys of a bucket refresh. \<open>Service_Composition\<close>: two nodes together; what a node announces another
    serves until it expires, through the requests of others and sweeps (\<open>node_run\<close>), and what a search is
    sure to find. \<open>Search_Limits\<close>: the two ways one answer ends a provider search early, unreachable
    contacts and expired records. \<open>Swarm_Search\<close>: the service among any
    number of nodes that run it; an announcement reaches the nearest of them and a search finds what
    was announced. \<open>Swarm_Example\<close>: a swarm of three nodes on which those theorems apply.
  \<^item> \<open>Memory_Swarm\<close>: \<^verbatim>\<open>src/transport.rs\<close>, the in-memory implementation of the transport trait.
    \<open>Wall_Clock\<close>: \<^verbatim>\<open>src/clock.rs\<close>, the seconds of a reading of the system clock.
  \<^item> \<open>Key_Tests\<close>, \<open>Record_Tests\<close>, \<open>Routing_Tests\<close>, \<open>Store_Tests\<close>, \<open>Lookup_Tests\<close>, \<open>Service_Tests\<close>: the
    unit tests of the crate, run on the model. A test is a definition of its Rust name, with its data and
    assertions, and a lemma \<open>..._passes\<close> that it holds with the sample externals; what a test does
    not fix (the clock, the network, the codec) stays an argument. They tie the definitions to the behaviour
    the authors pinned down, including the floods of 500 records and the walk over 50 nodes.

  \<^bold>\<open>How the parts interact.\<close> The service owns a routing table and two provider stores: the
  authoritative one, which answers peers, and the discovery cache, which only its own lookups read.
  A lookup starts from the routing table's nearest contacts, asks peers over the transport and
  returns contacts, which the service folds back into the table, and records, which it sanitises,
  caches and merges behind its own. An inbound request teaches the table its caller and reads or
  writes the authoritative store.

  \<^bold>\<open>Modelling decisions.\<close>
  \<^item> A 32-byte array is a byte list; well-formedness (length 32) is a hypothesis where it matters. A
    Rust string is a HOL string of its bytes. \<open>usize\<close> values are naturals, with the overflow checks of
    the shortlist bound (\<open>checked_usize\<close>: the panic of a build with overflow checks, which
    \<^verbatim>\<open>Cargo.toml\<close> turns on for release builds too); times are 64-bit words with saturating addition as in the
    code. The one other checked addition is the store's admission ordinal, a \<open>u64\<close> in the code and a natural
    here: the model does not have its panic, which needs \<open>2 ^ 64\<close> admissions.
  \<^item> Announcing returns a count. \<open>announce_traced\<close> is the same method with the list of requests it sends
    (\<open>put_requests\<close>: the moment, the peer, the request) beside it, so that properties can say who was
    sent the record; \<open>announce_provider_with_collateral\<close> is its projection.
  \<^item> A hash map is an association list with distinct keys. The code's iteration order is unspecified,
    the list fixes one; no property depends on which. Where the code breaks ties to be deterministic
    (eviction, snapshot) the model sorts as the code does.
  \<^item> A panic is \<open>None\<close>: an index out of range, an overflowing bound. A method that can panic
    returns an option.
  \<^item> The clock readings, random bytes and peers' answers are arguments. A peer's answer may
    depend on the moment, so every adversary is covered; a spawned task may fail to join, and
    answers arrive in an arbitrary order (a permutation).
  \<^item> Every method locks a mutex for one critical section at a time. \<open>svc_step\<close> has a rule per
    section, and the invariant is proved of it, hence for every interleaving of methods.

  \<^bold>\<open>Bounds.\<close> A lookup makes at most 64 rounds, the code's own ceiling: \<open>lookup_loop\<close> recurses on the
  rounds that remain, so it needs no fuel beyond the code's.

  \<^bold>\<open>Not modelled.\<close> The JSON text (\<open>serde_json\<close>): the framing takes its reader and writer as
  parameters, with a round-trip hypothesis where a property needs one; the two field hooks the crate
  gives serde are modelled on every field that has them. The transport trait (\<^verbatim>\<open>src/transport.rs\<close>) is the parameter \<open>net_rpc\<close> of the service; the
  swarm's locks and its \<open>Arc\<close> sharing are the value passed.
  \<^verbatim>\<open>src/lib.rs\<close> declares modules. Cancellation of an async method between two critical sections is
  covered by the step relation (every prefix of a method is a sequence of steps), not by the
  method-level definitions. Of the unit tests, those that look at the JSON text itself are left out (the
  tags of the enums, the lower-case address kinds, the text of a JSON error, the length of a frame), and the
  one that times concurrent queries. The tests under \<^verbatim>\<open>tests/\<close> build whole swarms of services; the
  theorems of \<open>Swarm_Search\<close> speak of any such swarm instead.
\<close>

end
